(* ===== verification/Prelude.thy ===== *)
theory Prelude
  imports Main "HOL-Library.AList" "HOL-Library.Char_ord" "HOL-Library.List_Lexorder"
begin

section \<open>Prelude: errors, panics, maps and shared lemmas\<close>

text \<open>
  What every component of the development shares.
  \<^item> \<open>go_error\<close> is a Go error value: \<open>Errorf\<close> for \<open>errors.New\<close> and \<open>fmt.Errorf\<close>,
    \<open>Wrapf\<close> for \<open>fmt.Errorf\<close> with \<open>%w\<close>, \<open>Multi\<close> for an error that holds several.
    An \<open>error\<close> result is a \<open>go_error option\<close>, with \<open>None\<close> for \<open>nil\<close>.
  \<^item> \<open>outcome\<close> separates a normal return from a run-time panic (a nil dereference, a
    failed type assertion).
  \<^item> \<open>gomap\<close> is a Go map with its entries in some order; \<open>AList.update\<close>,
    \<open>AList.delete\<close> and \<open>map_of\<close> are its assignment, \<open>delete\<close> and lookup.
  \<^item> \<open>multierr\<close> is the interface of the package \<open>go.uber.org/multierr\<close>, which is not part
    of the repository: a parameter of every definition that aggregates errors.
  Slices are lists; a nil slice and an empty one are not distinguished.
\<close>

named_theorems go_simps \<open>equations that compute the effect of one operation\<close>
named_theorems go_inv \<open>preservation of a component's invariant by its operations\<close>

subsection \<open>Errors and panics\<close>

datatype go_error =
    Errorf string
  | Wrapf string go_error
  | Multi "go_error list"

text \<open>The text of an error, as \<open>Error()\<close> gives it.\<close>

fun error_text :: "go_error \<Rightarrow> string" where
  "error_text (Errorf s) = s"
| "error_text (Wrapf s e) = s @ '': '' @ error_text e"
| "error_text (Multi []) = []"
| "error_text (Multi [e]) = error_text e"
| "error_text (Multi (e # es)) = error_text e @ ''; '' @ error_text (Multi es)"

datatype 'a outcome = Ret 'a | Panic string

fun bind_outcome :: "'a outcome \<Rightarrow> ('a \<Rightarrow> 'b outcome) \<Rightarrow> 'b outcome" where
  "bind_outcome (Ret x) f = f x"
| "bind_outcome (Panic m) f = Panic m"

lemma bind_outcome_Ret [simp]: "bind_outcome m Ret = m"
  by (cases m) simp_all

lemma bind_outcome_eq_Ret:
  "bind_outcome m f = Ret y \<longleftrightarrow> (\<exists>x. m = Ret x \<and> f x = Ret y)"
  by (cases m) simp_all

text \<open>The two results \<open>(value, error)\<close> of a call that loads a slice.\<close>

type_synonym 'd load = "'d list \<times> go_error option"

subsection \<open>Aggregation of errors\<close>

text \<open>
  \<open>m_append\<close> is \<open>multierr.Append\<close>, \<open>m_combine\<close> is \<open>multierr.Combine\<close> and \<open>m_errors\<close> is
  \<open>multierr.Errors\<close>. The predicate \<open>multierr_ok\<close> states the documented behaviour of the package:
  \<open>nil\<close> holds no error, a non-nil error holds at least one, and appending or combining
  keeps every error in order.
\<close>

record multierr =
  m_append :: "go_error option \<Rightarrow> go_error option \<Rightarrow> go_error option"
  m_combine :: "go_error option list \<Rightarrow> go_error option"
  m_errors :: "go_error option \<Rightarrow> go_error list"

definition multierr_ok :: "multierr \<Rightarrow> bool" where
  "multierr_ok M \<longleftrightarrow>
     m_errors M None = [] \<and>
     (\<forall>e. m_errors M (Some e) \<noteq> []) \<and>
     (\<forall>a b. m_errors M (m_append M a b) = m_errors M a @ m_errors M b) \<and>
     (\<forall>es. m_errors M (m_combine M es) = concat (map (m_errors M) es))"

lemma multierr_errors_append:
  "multierr_ok M \<Longrightarrow> m_errors M (m_append M a b) = m_errors M a @ m_errors M b"
  by (simp add: multierr_ok_def)

lemma multierr_errors_combine:
  "multierr_ok M \<Longrightarrow> m_errors M (m_combine M es) = concat (map (m_errors M) es)"
  by (simp add: multierr_ok_def)

lemma multierr_errors_Nil: "multierr_ok M \<Longrightarrow> m_errors M e = [] \<longleftrightarrow> e = None"
  by (cases e) (simp_all add: multierr_ok_def)

lemma multierr_append_None:
  "multierr_ok M \<Longrightarrow> m_append M a b = None \<longleftrightarrow> a = None \<and> b = None"
  by (metis append_is_Nil_conv multierr_errors_Nil multierr_errors_append)

lemma multierr_combine_None:
  "multierr_ok M \<Longrightarrow> m_combine M es = None \<longleftrightarrow> (\<forall>e \<in> set es. e = None)"
proof -
  assume M: "multierr_ok M"
  have "m_combine M es = None \<longleftrightarrow> concat (map (m_errors M) es) = []"
    using M by (simp only: multierr_errors_Nil [symmetric] multierr_errors_combine)
  then show ?thesis using M by (simp add: multierr_errors_Nil)
qed

lemma multierr_combine_Some:
  "multierr_ok M \<Longrightarrow> m_combine M (map Some es) = None \<longleftrightarrow> es = []"
  by (cases es) (simp_all add: multierr_combine_None)

lemmas multierr_simps = multierr_errors_append multierr_errors_combine
  multierr_errors_Nil multierr_append_None multierr_combine_None
  multierr_combine_Some

text \<open>A concrete instance, used where a property is applied at a concrete input.\<close>

fun list_errors :: "go_error option \<Rightarrow> go_error list" where
  "list_errors None = []"
| "list_errors (Some (Multi (e # es))) = e # es"
| "list_errors (Some e) = [e]"

fun pack_errors :: "go_error list \<Rightarrow> go_error option" where
  "pack_errors [] = None"
| "pack_errors es = Some (Multi es)"

definition multierr_list :: multierr where
  "multierr_list = \<lparr>
     m_append = (\<lambda>a b. pack_errors (list_errors a @ list_errors b)),
     m_combine = (\<lambda>es. pack_errors (concat (map list_errors es))),
     m_errors = list_errors\<rparr>"

lemma list_errors_pack [simp]: "list_errors (pack_errors es) = es"
  by (cases es) simp_all

lemma list_errors_Some [simp]: "list_errors (Some e) \<noteq> []"
  by (cases "Some e" rule: list_errors.cases) auto

lemma multierr_list_ok [simp]: "multierr_ok multierr_list"
  by (simp add: multierr_ok_def multierr_list_def)

lemmas multierr_list_sel [simp] =
  multierr_list_def [THEN arg_cong [where f = m_append], simplified]
  multierr_list_def [THEN arg_cong [where f = m_combine], simplified]
  multierr_list_def [THEN arg_cong [where f = m_errors], simplified]

subsection \<open>Maps\<close>

type_synonym ('k, 'v) gomap = "('k \<times> 'v) list"

text \<open>A Go map holds each key once.\<close>

definition gomap_ok :: "('k, 'v) gomap \<Rightarrow> bool" where
  "gomap_ok m \<longleftrightarrow> distinct (map fst m)"

lemma gomap_ok_Nil [simp, go_inv]: "gomap_ok []"
  by (simp add: gomap_ok_def)

lemma gomap_ok_update [simp, go_inv]: "gomap_ok m \<Longrightarrow> gomap_ok (AList.update k v m)"
  by (simp add: gomap_ok_def distinct_update)

lemma gomap_ok_delete [simp, go_inv]: "gomap_ok m \<Longrightarrow> gomap_ok (AList.delete k m)"
  by (simp add: gomap_ok_def distinct_delete)

lemmas gomap_simps [simp] = AList.update_conv' AList.delete_conv'

lemma gomap_keys_update [simp]:
  "fst ` set (AList.update k v m) = insert k (fst ` set m)"
  by (simp add: dom_update)

lemma gomap_update_fresh: "k \<notin> fst ` set m \<Longrightarrow> AList.update k v m = m @ [(k, v)]"
  by (induction m) auto

lemma gomap_keys_delete [simp]:
  "fst ` set (AList.delete k m) = fst ` set m - {k}"
  by (induction m) auto

subsection \<open>Arithmetic\<close>

lemma mult_le_iff_le_div:
  assumes "0 < (i :: int)"
  shows "a * i \<le> b \<longleftrightarrow> a \<le> b div i"
proof
  assume "a * i \<le> b"
  then have "a * i div i \<le> b div i" using assms by (intro zdiv_mono1)
  then show "a \<le> b div i" using assms by simp
next
  assume "a \<le> b div i"
  then have "a * i \<le> b div i * i" using assms by (simp add: mult_right_mono)
  also have "\<dots> \<le> b" using assms by (metis add.commute add_increasing div_mult_mod_eq order_refl pos_mod_sign)
  finally show "a * i \<le> b" .
qed

end
