(* ===== verification/Sources.thy ===== *)
theory Sources
  imports Prelude
begin

section \<open>Sources: loading data through composable wrappers\<close>

text \<open>
  Models \<open>sdk/core/source.go\<close> and \<open>sdk/core/sources/*.go\<close> (filter, transform, flatten,
  composite, once, cache; the file-system source is in the theory of the walk).
  A \<open>core.Source\<close> is a state transformer: \<open>Load\<close> returns the loaded items, an
  error, and the next state of whatever the source holds (a lock, a buffer, a watched map).
  The interface contract of the wrappers that act on the items of one inner source is the
  locale \<open>source_wrapper\<close>, interpreted on each of them.
\<close>

type_synonym ('s, 'd) source = "'s \<Rightarrow> 'd load \<times> 's"

abbreviation items_of :: "'d load \<times> 's \<Rightarrow> 'd list" where
  "items_of r \<equiv> fst (fst r)"

abbreviation error_of :: "'d load \<times> 's \<Rightarrow> go_error option" where
  "error_of r \<equiv> snd (fst r)"

definition make_source_func :: "('s \<Rightarrow> 'd load \<times> 's) \<Rightarrow> ('s, 'd) source" where
  "make_source_func f = f"

definition make_source :: "'d list \<Rightarrow> ('s, 'd) source" where
  "make_source data = make_source_func (\<lambda>s. ((data, None), s))"

subsection \<open>Filters\<close>

fun filter_loop :: "('d \<Rightarrow> bool) \<Rightarrow> 'd list \<Rightarrow> 'd list \<Rightarrow> 'd list" where
  "filter_loop predicate [] filtered = filtered"
| "filter_loop predicate (item # data) filtered =
     (if predicate item then filter_loop predicate data (filtered @ [item])
      else filter_loop predicate data filtered)"

definition new_filter :: "('s, 'd) source \<Rightarrow> ('d \<Rightarrow> bool) \<Rightarrow> ('s, 'd) source" where
  "new_filter inner predicate = make_source_func (\<lambda>s.
     case inner s of ((data, err), s') \<Rightarrow> ((filter_loop predicate data [], err), s'))"

fun filter_err_loop ::
  "multierr \<Rightarrow> ('d \<Rightarrow> bool \<times> go_error option) \<Rightarrow> 'd list \<Rightarrow> 'd list \<Rightarrow> go_error option \<Rightarrow> 'd load" where
  "filter_err_loop M predicate [] filtered errs = (filtered, errs)"
| "filter_err_loop M predicate (item # data) filtered errs =
     (case predicate item of
        (ok, Some err) \<Rightarrow> filter_err_loop M predicate data filtered (m_append M errs (Some err))
      | (ok, None) \<Rightarrow>
          (if ok then filter_err_loop M predicate data (filtered @ [item]) errs
           else filter_err_loop M predicate data filtered errs))"

definition new_filter_err ::
  "multierr \<Rightarrow> ('s, 'd) source \<Rightarrow> ('d \<Rightarrow> bool \<times> go_error option) \<Rightarrow> ('s, 'd) source" where
  "new_filter_err M inner predicate = make_source_func (\<lambda>s.
     case inner s of ((data, errs), s') \<Rightarrow> (filter_err_loop M predicate data [] errs, s'))"

subsection \<open>Transforms\<close>

fun transform_loop :: "('a \<Rightarrow> 'b) \<Rightarrow> 'a list \<Rightarrow> 'b list \<Rightarrow> 'b list" where
  "transform_loop transform [] transformed = transformed"
| "transform_loop transform (item # data) transformed =
     transform_loop transform data (transformed @ [transform item])"

definition new_transform :: "('s, 'a) source \<Rightarrow> ('a \<Rightarrow> 'b) \<Rightarrow> ('s, 'b) source" where
  "new_transform inner transform = make_source_func (\<lambda>s.
     case inner s of ((data, err), s') \<Rightarrow> ((transform_loop transform data [], err), s'))"

fun transform_err_loop ::
  "multierr \<Rightarrow> ('a \<Rightarrow> 'b \<times> go_error option) \<Rightarrow> 'a list \<Rightarrow> 'b list \<Rightarrow> go_error option \<Rightarrow> 'b load" where
  "transform_err_loop M transform [] transformed errs = (transformed, errs)"
| "transform_err_loop M transform (item # data) transformed errs =
     (case transform item of
        (out, Some err) \<Rightarrow> transform_err_loop M transform data transformed (m_append M errs (Some err))
      | (out, None) \<Rightarrow> transform_err_loop M transform data (transformed @ [out]) errs)"

definition new_transform_err ::
  "multierr \<Rightarrow> ('s, 'a) source \<Rightarrow> ('a \<Rightarrow> 'b \<times> go_error option) \<Rightarrow> ('s, 'b) source" where
  "new_transform_err M inner transform = make_source_func (\<lambda>s.
     case inner s of ((data, errs), s') \<Rightarrow> (transform_err_loop M transform data [] errs, s'))"

subsection \<open>Flatten\<close>

fun flatten_loop :: "'d list list \<Rightarrow> 'd list \<Rightarrow> 'd list" where
  "flatten_loop [] output = output"
| "flatten_loop (item # data) output = flatten_loop data (output @ item)"

definition new_flatten :: "('s, 'd list) source \<Rightarrow> ('s, 'd) source" where
  "new_flatten inner = make_source_func (\<lambda>s.
     case inner s of ((data, err), s') \<Rightarrow> ((flatten_loop data [], err), s'))"

subsection \<open>The loops as list functions\<close>

lemma filter_loop_eq: "filter_loop p data out = out @ filter p data"
  by (induction data arbitrary: out) simp_all

lemma transform_loop_eq: "transform_loop f data out = out @ map f data"
  by (induction data arbitrary: out) simp_all

lemma flatten_loop_eq: "flatten_loop data out = out @ concat data"
  by (induction data arbitrary: out) simp_all

text \<open>The items a fallible step accepts and the errors it reports, in order.\<close>

definition accepted :: "('a \<Rightarrow> 'b \<times> go_error option) \<Rightarrow> 'a list \<Rightarrow> 'b list" where
  "accepted f data = map (fst \<circ> f) (filter (\<lambda>x. snd (f x) = None) data)"

definition step_faults ::
  "multierr \<Rightarrow> ('a \<Rightarrow> 'b \<times> go_error option) \<Rightarrow> 'a list \<Rightarrow> go_error list" where
  "step_faults M f data = concat (map (\<lambda>x. m_errors M (snd (f x))) data)"

lemma accepted_simps [simp]:
  "accepted f [] = []"
  "accepted f (x # xs) = (if snd (f x) = None then [fst (f x)] else []) @ accepted f xs"
  by (simp_all add: accepted_def)

lemma step_faults_simps [simp]:
  "step_faults M f [] = []"
  "step_faults M f (x # xs) = m_errors M (snd (f x)) @ step_faults M f xs"
  by (simp_all add: step_faults_def)

lemma step_faults_Nil:
  "multierr_ok M \<Longrightarrow> step_faults M f xs = [] \<longleftrightarrow> (\<forall>x \<in> set xs. snd (f x) = None)"
  by (simp add: step_faults_def multierr_errors_Nil)

lemma transform_err_loop_items:
  "fst (transform_err_loop M f data out errs) = out @ accepted f data"
  by (induction data arbitrary: out errs) (auto split: prod.split option.split)

lemma transform_err_loop_errors:
  "multierr_ok M \<Longrightarrow>
   m_errors M (snd (transform_err_loop M f data out errs)) = m_errors M errs @ step_faults M f data"
  by (induction data arbitrary: out errs)
    (auto simp: multierr_errors_append multierr_errors_Nil split: prod.split option.split)

lemma filter_err_loop_items:
  "fst (filter_err_loop M p data out errs) = out @ filter (\<lambda>x. p x = (True, None)) data"
  by (induction data arbitrary: out errs) (auto split: prod.split option.split)

lemma filter_err_loop_errors:
  "multierr_ok M \<Longrightarrow>
   m_errors M (snd (filter_err_loop M p data out errs)) = m_errors M errs @ step_faults M p data"
  by (induction data arbitrary: out errs)
    (auto simp: multierr_errors_append multierr_errors_Nil split: prod.split option.split)

lemmas loop_eqs = filter_loop_eq transform_loop_eq flatten_loop_eq
  transform_err_loop_items filter_err_loop_items

subsection \<open>The contract of a wrapper\<close>

text \<open>
  A wrapper loads its inner source once, maps its items and appends its own errors to the
  inner error; it keeps the inner state. So no error of the inner source is lost and no item
  appears that the inner source did not give.
\<close>

locale source_wrapper =
  fixes M :: multierr
    and wrap :: "('s, 'a) source \<Rightarrow> ('s, 'b) source"
    and image :: "'a list \<Rightarrow> 'b list"
    and faults :: "'a list \<Rightarrow> go_error list"
  assumes wrap_items: "items_of (wrap src s) = image (items_of (src s))"
    and wrap_state: "snd (wrap src s) = snd (src s)"
    and wrap_errors: "multierr_ok M \<Longrightarrow>
      m_errors M (error_of (wrap src s)) =
        m_errors M (error_of (src s)) @ faults (items_of (src s))"
begin

lemma wrap_ok_iff:
  "multierr_ok M \<Longrightarrow>
   error_of (wrap src s) = None \<longleftrightarrow> error_of (src s) = None \<and> faults (items_of (src s)) = []"
  using wrap_errors [of src s] by (metis append_is_Nil_conv multierr_errors_Nil)

lemma wrap_keeps_error:
  "multierr_ok M \<Longrightarrow> error_of (src s) \<noteq> None \<Longrightarrow> error_of (wrap src s) \<noteq> None"
  by (simp add: wrap_ok_iff)

end

interpretation filter_w: source_wrapper M "\<lambda>src. new_filter src p" "filter p" "\<lambda>_. []"
  for M p
  by unfold_locales (simp_all add: new_filter_def make_source_func_def loop_eqs split: prod.split)

interpretation filter_err_w: source_wrapper M "\<lambda>src. new_filter_err M src p"
    "filter (\<lambda>x. p x = (True, None))" "step_faults M p"
  for M p
  by unfold_locales
    (auto simp: new_filter_err_def make_source_func_def loop_eqs filter_err_loop_errors
      split: prod.split)

interpretation transform_w: source_wrapper M "\<lambda>src. new_transform src f" "map f" "\<lambda>_. []"
  for M f
  by unfold_locales
    (simp_all add: new_transform_def make_source_func_def loop_eqs split: prod.split)

interpretation transform_err_w: source_wrapper M "\<lambda>src. new_transform_err M src f"
    "accepted f" "step_faults M f"
  for M f
  by unfold_locales
    (auto simp: new_transform_err_def make_source_func_def loop_eqs transform_err_loop_errors
      split: prod.split)

interpretation flatten_w: source_wrapper M new_flatten concat "\<lambda>_. []"
  for M
  by unfold_locales
    (simp_all add: new_flatten_def make_source_func_def loop_eqs split: prod.split)

text \<open>Two wrappers in a row are a wrapper.\<close>

locale wrapper_pair =
  first: source_wrapper M wrap1 image1 faults1 + second: source_wrapper M wrap2 image2 faults2
  for M :: multierr
    and wrap1 :: "('s, 'a) source \<Rightarrow> ('s, 'b) source"
    and image1 :: "'a list \<Rightarrow> 'b list"
    and faults1 :: "'a list \<Rightarrow> go_error list"
    and wrap2 :: "('s, 'b) source \<Rightarrow> ('s, 'c) source"
    and image2 :: "'b list \<Rightarrow> 'c list"
    and faults2 :: "'b list \<Rightarrow> go_error list"

sublocale wrapper_pair \<subseteq> both: source_wrapper M "\<lambda>src. wrap2 (wrap1 src)"
    "\<lambda>xs. image2 (image1 xs)" "\<lambda>xs. faults1 xs @ faults2 (image1 xs)"
  by unfold_locales
    (simp_all add: first.wrap_items second.wrap_items first.wrap_state second.wrap_state
      first.wrap_errors second.wrap_errors)

end
