(* ===== verification/Fs_Source.thy ===== *)
theory Fs_Source
  imports Sources
begin

section \<open>File-system sources\<close>

text \<open>
  Models \<open>sdk/core/sources/fs.go\<close> over a tree of files. \<open>walk_dir\<close> is the part of the standard
  library's \<open>fs.WalkDir\<close> the sources use: the callback is called for an entry before its
  children, again for a directory whose listing failed, and the first error it returns ends
  the walk. (The callbacks of the repository return the walk error they were given, so the
  skip values of \<open>fs.WalkDir\<close> never arise from them.)
\<close>

record dir_entry =
  de_name :: string
  de_is_dir :: bool

record fs_entry =
  fse_path :: string
  fse_dir_entry :: "dir_entry option"

text \<open>A directory holds its listing and the error its listing reported, if any.\<close>

datatype fs_node =
    File_node string
  | Dir_node string "go_error option" "fs_node list"

fun node_name :: "fs_node \<Rightarrow> string" where
  "node_name (File_node n) = n"
| "node_name (Dir_node n _ _) = n"

fun node_entry :: "fs_node \<Rightarrow> dir_entry" where
  "node_entry (File_node n) = \<lparr>de_name = n, de_is_dir = False\<rparr>"
| "node_entry (Dir_node n _ _) = \<lparr>de_name = n, de_is_dir = True\<rparr>"

definition path_join :: "string \<Rightarrow> string \<Rightarrow> string" where
  "path_join dir name = (if dir = ''.'' then name else dir @ ''/'' @ name)"

type_synonym 'acc walk_fn =
  "string \<Rightarrow> dir_entry option \<Rightarrow> go_error option \<Rightarrow> 'acc \<Rightarrow> go_error option \<times> 'acc"

fun walk_dir :: "'acc walk_fn \<Rightarrow> string \<Rightarrow> fs_node \<Rightarrow> 'acc \<Rightarrow> go_error option \<times> 'acc"
  and walk_entries :: "'acc walk_fn \<Rightarrow> string \<Rightarrow> fs_node list \<Rightarrow> 'acc \<Rightarrow> go_error option \<times> 'acc"
where
  "walk_dir fn path (File_node n) acc = fn path (Some (node_entry (File_node n))) None acc"
| "walk_dir fn path (Dir_node n rd es) acc =
     (case fn path (Some \<lparr>de_name = n, de_is_dir = True\<rparr>) None acc of
        (Some e, acc') \<Rightarrow> (Some e, acc')
      | (None, acc') \<Rightarrow>
          (case rd of
             None \<Rightarrow> walk_entries fn path es acc'
           | Some e \<Rightarrow>
               (case fn path (Some \<lparr>de_name = n, de_is_dir = True\<rparr>) (Some e) acc' of
                  (Some e', acc'') \<Rightarrow> (Some e', acc'')
                | (None, acc'') \<Rightarrow> walk_entries fn path es acc'')))"
| "walk_entries fn path [] acc = (None, acc)"
| "walk_entries fn path (x # xs) acc =
     (case walk_dir fn (path_join path (node_name x)) x acc of
        (Some e, acc') \<Rightarrow> (Some e, acc')
      | (None, acc') \<Rightarrow> walk_entries fn path xs acc')"

text \<open>\<open>fs.WalkDir(f, ".", fn)\<close>: the root is the result of \<open>fs.Stat(f, ".")\<close>.\<close>

definition walk_root :: "'acc walk_fn \<Rightarrow> go_error + fs_node \<Rightarrow> 'acc \<Rightarrow> go_error option \<times> 'acc" where
  "walk_root fn root acc =
     (case root of
        Inl e \<Rightarrow> fn ''.'' None (Some e) acc
      | Inr node \<Rightarrow> walk_dir fn ''.'' node acc)"

definition fs_callback ::
  "(string \<Rightarrow> dir_entry option \<Rightarrow> bool) \<Rightarrow> fs_entry list walk_fn" where
  "fs_callback predicate path entry walk_err out =
     (walk_err,
      if predicate path entry then out @ [\<lparr>fse_path = path, fse_dir_entry = entry\<rparr>] else out)"

definition new_fs ::
  "go_error + fs_node \<Rightarrow> (string \<Rightarrow> dir_entry option \<Rightarrow> bool) \<Rightarrow> ('s, fs_entry) source" where
  "new_fs root predicate = make_source_func (\<lambda>s.
     case walk_root (fs_callback predicate) root [] of (err, out) \<Rightarrow> ((out, err), s))"

definition fs_err_callback ::
  "multierr \<Rightarrow> (string \<Rightarrow> dir_entry option \<Rightarrow> bool \<times> go_error option) \<Rightarrow>
   (fs_entry list \<times> go_error option) walk_fn" where
  "fs_err_callback M predicate path entry walk_err acc =
     (case acc of (out, errs) \<Rightarrow>
        (case predicate path entry of (ok, err) \<Rightarrow>
           (walk_err,
            (if ok then out @ [\<lparr>fse_path = path, fse_dir_entry = entry\<rparr>] else out,
             case err of None \<Rightarrow> errs | Some e \<Rightarrow> m_append M errs (Some e)))))"

definition new_fs_err ::
  "multierr \<Rightarrow> go_error + fs_node \<Rightarrow> (string \<Rightarrow> dir_entry option \<Rightarrow> bool \<times> go_error option) \<Rightarrow>
   ('s, fs_entry) source" where
  "new_fs_err M root predicate = make_source_func (\<lambda>s.
     case walk_root (fs_err_callback M predicate) root ([], None) of
       (err, (out, errs)) \<Rightarrow> ((out, m_append M errs err), s))"

subsection \<open>What a walk visits\<close>

text \<open>
  The visits of a walk with no listing error, in order, and the prefix a listing error leaves:
  the error ends the walk at the directory, after the directory was visited a second time.
\<close>

fun visits :: "string \<Rightarrow> fs_node \<Rightarrow> (string \<times> dir_entry) list \<times> go_error option"
  and visits_list :: "string \<Rightarrow> fs_node list \<Rightarrow> (string \<times> dir_entry) list \<times> go_error option"
where
  "visits path (File_node n) = ([(path, node_entry (File_node n))], None)"
| "visits path (Dir_node n rd es) =
     (case rd of
        None \<Rightarrow> (case visits_list path es of (vs, e) \<Rightarrow> ((path, \<lparr>de_name = n, de_is_dir = True\<rparr>) # vs, e))
      | Some e \<Rightarrow> (replicate 2 (path, \<lparr>de_name = n, de_is_dir = True\<rparr>), Some e))"
| "visits_list path [] = ([], None)"
| "visits_list path (x # xs) =
     (case visits (path_join path (node_name x)) x of
        (vs, Some e) \<Rightarrow> (vs, Some e)
      | (vs, None) \<Rightarrow> (case visits_list path xs of (ws, e) \<Rightarrow> (vs @ ws, e)))"

definition pick :: "(string \<Rightarrow> dir_entry option \<Rightarrow> bool) \<Rightarrow> (string \<times> dir_entry) list \<Rightarrow> fs_entry list" where
  "pick p vs = map (\<lambda>(path, e). \<lparr>fse_path = path, fse_dir_entry = Some e\<rparr>)
                 (filter (\<lambda>(path, e). p path (Some e)) vs)"

lemma pick_simps [simp]:
  "pick p [] = []"
  "pick p ((path, e) # vs) =
     (if p path (Some e) then [\<lparr>fse_path = path, fse_dir_entry = Some e\<rparr>] else []) @ pick p vs"
  "pick p (vs @ ws) = pick p vs @ pick p ws"
  by (simp_all add: pick_def)

lemma walk_visits:
  "walk_dir (fs_callback p) path node out =
     (snd (visits path node), out @ pick p (fst (visits path node)))"
  "walk_entries (fs_callback p) path nodes out =
     (snd (visits_list path nodes), out @ pick p (fst (visits_list path nodes)))"
  by (induction path node and path nodes arbitrary: out and out rule: visits_visits_list.induct)
    (auto simp: fs_callback_def numeral_2_eq_2 split: option.split prod.split)

fun readable :: "fs_node \<Rightarrow> bool" where
  "readable (File_node n) = True"
| "readable (Dir_node n rd es) = (rd = None \<and> list_all readable es)"

fun entries :: "string \<Rightarrow> fs_node \<Rightarrow> (string \<times> dir_entry) list" where
  "entries path (File_node n) = [(path, \<lparr>de_name = n, de_is_dir = False\<rparr>)]"
| "entries path (Dir_node n rd es) =
     (path, \<lparr>de_name = n, de_is_dir = True\<rparr>) #
     concat (map (\<lambda>x. entries (path_join path (node_name x)) x) es)"

lemma visits_readable:
  "readable node \<Longrightarrow> visits path node = (entries path node, None)"
  "list_all readable nodes \<Longrightarrow>
     visits_list path nodes = (concat (map (\<lambda>x. entries (path_join path (node_name x)) x) nodes), None)"
  by (induction path node and path nodes rule: visits_visits_list.induct)
    (auto split: option.split prod.split)

subsection \<open>Properties\<close>

lemma new_fs_visits:
  "new_fs (Inr node) p s = ((pick p (fst (visits ''.'' node)), snd (visits ''.'' node)), s)"
  by (simp add: new_fs_def make_source_func_def walk_root_def walk_visits)

text \<open>
  Over a tree whose directories can all be listed, the file-system source returns, with no
  error, exactly the entries its predicate accepts, each once, in the order of the walk.\<close>

theorem new_fs_readable:
  assumes "readable node"
  shows "fst (new_fs (Inr node) p s) = (pick p (entries ''.'' node), None)"
  using visits_readable(1) [OF assms, of "''.''"] by (simp add: new_fs_visits)

theorem new_fs_readable_witness:
  "fst (new_fs (Inr (Dir_node ''.'' None
      [File_node ''a'', Dir_node ''d'' None [File_node ''b'']]))
      (\<lambda>_ e. case e of None \<Rightarrow> False | Some d \<Rightarrow> \<not> de_is_dir d) ()) =
   ([\<lparr>fse_path = ''a'', fse_dir_entry = Some \<lparr>de_name = ''a'', de_is_dir = False\<rparr>\<rparr>,
     \<lparr>fse_path = ''d/b'', fse_dir_entry = Some \<lparr>de_name = ''b'', de_is_dir = False\<rparr>\<rparr>], None)"
  using new_fs_readable [of "Dir_node ''.'' None
      [File_node ''a'', Dir_node ''d'' None [File_node ''b'']]"
      "\<lambda>_ e. case e of None \<Rightarrow> False | Some d \<Rightarrow> \<not> de_is_dir d" "()"]
  by (simp add: path_join_def)

end
