(* ===== verification/Core_Engine.thy ===== *)
theory Core_Engine
  imports Sources
begin

section \<open>The evaluation engine\<close>

text \<open>
  Models \<open>sdk/core\<close>: contexts, factories, the sequential dispatcher with its breaker, the
  resulters, the handler, the engine and the defaults package; and the adapter of
  \<open>sdk/extensions/policy\<close> from policies to evaluators.
  A factory is a function of the factory context. A resulter is an object with private state:
  a record of its initial state, its \<open>Collect\<close> and its \<open>Result\<close>. The contract between the
  dispatcher, which calls \<open>Collect\<close>, and the handler, which reads \<open>Result\<close>, is the locale
  \<open>resulter_contract\<close>. The Go context argument carries no data the code reads and is left out.
\<close>

subsection \<open>Contexts\<close>

record 'p source_context =
  sc_data :: "'p list"
  sc_error :: "go_error option"

definition make_source_context :: "'p list \<Rightarrow> go_error option \<Rightarrow> 'p source_context" where
  "make_source_context data err = \<lparr>sc_data = data, sc_error = err\<rparr>"

record ('p, 'd, 'i) factory_context =
  fc_source :: "'p source_context"
  fc_data :: 'd
  fc_input :: 'i

definition make_factory_context ::
  "'p source_context \<Rightarrow> 'd \<Rightarrow> 'i \<Rightarrow> ('p, 'd, 'i) factory_context" where
  "make_factory_context src data inp = \<lparr>fc_source = src, fc_data = data, fc_input = inp\<rparr>"

lemmas context_defs = make_source_context_def make_factory_context_def

subsection \<open>Breakers and the sequential dispatcher\<close>

type_synonym ('p, 'i, 'o) evaluator = "'p \<Rightarrow> 'i \<Rightarrow> 'o"
type_synonym ('p, 'i, 'o) breaker = "'p \<Rightarrow> 'i \<Rightarrow> 'o \<Rightarrow> bool"

definition never :: "('p, 'i, 'o) breaker" where
  "never policy inp out = False"

definition never_factory :: "('p, 'd, 'i) factory_context \<Rightarrow> ('p, 'i, 'o) breaker" where
  "never_factory fctx = never"

text \<open>
  \<open>collect\<close> is the collector's method, which updates the collector's state \<open>'r\<close>.
\<close>

fun dispatch_loop ::
  "('p, 'i, 'o) evaluator \<Rightarrow> ('p, 'i, 'o) breaker \<Rightarrow> ('p \<Rightarrow> 'i \<Rightarrow> 'o \<Rightarrow> 'r \<Rightarrow> 'r) \<Rightarrow>
   'p list \<Rightarrow> 'i \<Rightarrow> 'r \<Rightarrow> 'r" where
  "dispatch_loop evaluate break_on collect [] inp r = r"
| "dispatch_loop evaluate break_on collect (policy # policies) inp r =
     (let out = evaluate policy inp;
          r' = collect policy inp out r
      in if break_on policy inp out then r'
         else dispatch_loop evaluate break_on collect policies inp r')"

definition sequential ::
  "(('p, 'd, 'i) factory_context \<Rightarrow> ('p, 'i, 'o) evaluator) \<Rightarrow>
   (('p, 'd, 'i) factory_context \<Rightarrow> ('p, 'i, 'o) breaker) option \<Rightarrow>
   ('p, 'd, 'i) factory_context \<Rightarrow> ('p \<Rightarrow> 'i \<Rightarrow> 'o \<Rightarrow> 'r \<Rightarrow> 'r) \<Rightarrow> 'i \<Rightarrow> 'r \<Rightarrow> 'r" where
  "sequential evaluator breaker fctx collect inp r =
     (let mk_breaker = (case breaker of None \<Rightarrow> never_factory | Some b \<Rightarrow> b)
      in dispatch_loop (evaluator fctx) (mk_breaker fctx) collect (sc_data (fc_source fctx)) inp r)"

text \<open>The evaluations a dispatch makes: up to and including the first that breaks.\<close>

fun until_break ::
  "('p, 'i, 'o) evaluator \<Rightarrow> ('p, 'i, 'o) breaker \<Rightarrow> 'i \<Rightarrow> 'p list \<Rightarrow> ('p \<times> 'i \<times> 'o) list" where
  "until_break evaluate break_on inp [] = []"
| "until_break evaluate break_on inp (p # ps) =
     (p, inp, evaluate p inp) #
     (if break_on p inp (evaluate p inp) then [] else until_break evaluate break_on inp ps)"

definition all_evaluations :: "('p, 'i, 'o) evaluator \<Rightarrow> 'i \<Rightarrow> 'p list \<Rightarrow> ('p \<times> 'i \<times> 'o) list" where
  "all_evaluations evaluate inp ps = map (\<lambda>p. (p, inp, evaluate p inp)) ps"

lemma until_break_never: "until_break evaluate never inp ps = all_evaluations evaluate inp ps"
  by (induction ps) (simp_all add: never_def all_evaluations_def)

text \<open>Breaking early does not change the first evaluation that satisfies a predicate the breaker implies.\<close>

lemma find_until_break:
  assumes "\<And>p out. break_on p inp out \<Longrightarrow> P out"
  shows "find P (map (snd \<circ> snd) (until_break evaluate break_on inp ps)) =
         find P (map (\<lambda>p. evaluate p inp) ps)"
  by (induction ps) (use assms in auto)

subsection \<open>Resulters\<close>

record ('p, 'i, 'o, 'res, 'r) resulter =
  r_init :: 'r
  r_collect :: "'p \<Rightarrow> 'i \<Rightarrow> 'o \<Rightarrow> 'r \<Rightarrow> 'r"
  r_result :: "'r \<Rightarrow> 'res"

definition new_appender :: "('p, 'i, 'o, 'o list, 'o list) resulter" where
  "new_appender = \<lparr>r_init = [], r_collect = (\<lambda>_ _ out r. r @ [out]), r_result = (\<lambda>r. r)\<rparr>"

text \<open>\<open>zero\<close> is the zero value of \<open>OUT\<close>, returned when nothing was selected.\<close>

definition new_first :: "('o \<Rightarrow> bool) \<Rightarrow> 'o \<Rightarrow> ('p, 'i, 'o, 'o, 'o option) resulter" where
  "new_first predicate zero = \<lparr>
     r_init = None,
     r_collect = (\<lambda>_ _ out r. case r of
        None \<Rightarrow> if predicate out then Some out else None
      | Some x \<Rightarrow> Some x),
     r_result = (\<lambda>r. case r of None \<Rightarrow> zero | Some out \<Rightarrow> out)\<rparr>"

definition new_transformer ::
  "('p \<Rightarrow> 'i \<Rightarrow> 'o \<Rightarrow> 't) \<Rightarrow> ('res \<Rightarrow> 'tres) \<Rightarrow> ('p, 'i, 't, 'res, 'r) resulter \<Rightarrow>
   ('p, 'i, 'o, 'tres, 'r) resulter" where
  "new_transformer collect res inner = \<lparr>
     r_init = r_init inner,
     r_collect = (\<lambda>policy inp out r. r_collect inner policy inp (collect policy inp out) r),
     r_result = (\<lambda>r. res (r_result inner r))\<rparr>"

definition collect_all ::
  "('p, 'i, 'o, 'res, 'r) resulter \<Rightarrow> ('p \<times> 'i \<times> 'o) list \<Rightarrow> 'r \<Rightarrow> 'r" where
  "collect_all R xs r = fold (\<lambda>(p, i, out). r_collect R p i out) xs r"

lemma collect_all_simps [simp]:
  "collect_all R [] r = r"
  "collect_all R ((p, i, out) # xs) r = collect_all R xs (r_collect R p i out r)"
  by (simp_all add: collect_all_def)

lemma dispatch_loop_collects:
  "dispatch_loop evaluate break_on (r_collect R) ps inp r =
     collect_all R (until_break evaluate break_on inp ps) r"
  by (induction ps arbitrary: r) (simp_all add: Let_def)

subsection \<open>Handler and engine\<close>

definition handler ::
  "(('p, 'd, 'i) factory_context \<Rightarrow> ('p \<Rightarrow> 'i \<Rightarrow> 'o \<Rightarrow> 'r \<Rightarrow> 'r) \<Rightarrow> 'i \<Rightarrow> 'r \<Rightarrow> 'r) \<Rightarrow>
   (('p, 'd, 'i) factory_context \<Rightarrow> ('p, 'i, 'o, 'res, 'r) resulter) \<Rightarrow>
   ('p, 'd, 'i) factory_context \<Rightarrow> 'i \<Rightarrow> 'res" where
  "handler dispatcher resulter fctx inp =
     (let R = resulter fctx
      in r_result R (dispatcher fctx (r_collect R) inp (r_init R)))"

definition new_engine ::
  "('s, 'p) source \<Rightarrow> (('p, 'd, 'i) factory_context \<Rightarrow> 'i \<Rightarrow> 'res) \<Rightarrow> 'd \<Rightarrow> 'i \<Rightarrow> 's \<Rightarrow> 'res \<times> 's" where
  "new_engine src mk_handler data inp s =
     (case src s of ((policies, err), s') \<Rightarrow>
        (let sctx = make_source_context policies err;
             fctx = make_factory_context sctx data inp
         in (mk_handler fctx inp, s')))"

subsection \<open>The contract of a resulter\<close>

text \<open>
  \<open>spec\<close> is what a resulter promises: the result as a function of the sequence of collected
  evaluations alone.
\<close>

locale resulter_contract =
  fixes R :: "('p, 'i, 'o, 'res, 'r) resulter"
    and spec :: "('p \<times> 'i \<times> 'o) list \<Rightarrow> 'res"
  assumes result_spec: "r_result R (collect_all R xs (r_init R)) = spec xs"
begin

lemma handler_spec:
  assumes "resulter fctx = R"
  shows "handler (sequential evaluator breaker) resulter fctx inp =
    spec (until_break (evaluator fctx)
      ((case breaker of None \<Rightarrow> never_factory | Some b \<Rightarrow> b) fctx) inp (sc_data (fc_source fctx)))"
  using assms
  by (simp add: handler_def sequential_def Let_def dispatch_loop_collects result_spec)

end

lemma appender_collects:
  "collect_all new_appender xs r = r @ map (snd \<circ> snd) xs"
  by (induction xs arbitrary: r) (auto simp: new_appender_def)

lemma first_collects:
  "collect_all (new_first P z) xs r =
     (case r of Some x \<Rightarrow> Some x | None \<Rightarrow> find P (map (snd \<circ> snd) xs))"
  by (induction xs arbitrary: r) (auto simp: new_first_def split: option.split)

interpretation appender_r: resulter_contract new_appender "map (snd \<circ> snd)"
  by unfold_locales (simp add: appender_collects, simp add: new_appender_def)

interpretation first_r: resulter_contract "new_first P z"
    "\<lambda>xs. case find P (map (snd \<circ> snd) xs) of None \<Rightarrow> z | Some out \<Rightarrow> out"
  for P z
  by unfold_locales (simp add: first_collects, simp add: new_first_def)

locale transformed_resulter = inner: resulter_contract inner spec
  for inner :: "('p, 'i, 't, 'res, 'r) resulter" and spec :: "('p \<times> 'i \<times> 't) list \<Rightarrow> 'res" +
  fixes collect :: "'p \<Rightarrow> 'i \<Rightarrow> 'o \<Rightarrow> 't"
    and res :: "'res \<Rightarrow> 'tres"
begin

lemma transformer_collects:
  "collect_all (new_transformer collect res inner) xs r =
     collect_all inner (map (\<lambda>(p, i, out). (p, i, collect p i out)) xs) r"
  by (induction xs arbitrary: r) (auto simp: new_transformer_def)

end

sublocale transformed_resulter \<subseteq> resulter_contract "new_transformer collect res inner"
    "\<lambda>xs. res (spec (map (\<lambda>(p, i, out). (p, i, collect p i out)) xs))"
  by unfold_locales
    (simp add: transformer_collects inner.result_spec [symmetric], simp add: new_transformer_def)

subsection \<open>The defaults package\<close>

record 'p source_result =
  sr_data :: "'p list"
  sr_error :: "go_error option"

definition make_source_result :: "'p list \<Rightarrow> go_error option \<Rightarrow> 'p source_result" where
  "make_source_result data err = \<lparr>sr_data = data, sr_error = err\<rparr>"

record ('p, 'i, 'o) policy_result =
  pr_policy :: 'p
  pr_input :: 'i
  pr_out :: 'o

definition make_policy_result :: "'p \<Rightarrow> 'i \<Rightarrow> 'o \<Rightarrow> ('p, 'i, 'o) policy_result" where
  "make_policy_result policy inp out = \<lparr>pr_policy = policy, pr_input = inp, pr_out = out\<rparr>"

record ('p, 'd, 'i, 'o) engine_result =
  er_source :: "'p source_result"
  er_data :: 'd
  er_input :: 'i
  er_policies :: "('p, 'i, 'o) policy_result list"

definition make_result ::
  "'p source_result \<Rightarrow> 'i \<Rightarrow> 'd \<Rightarrow> ('p, 'i, 'o) policy_result list \<Rightarrow> ('p, 'd, 'i, 'o) engine_result" where
  "make_result src inp data policies =
     \<lparr>er_source = src, er_data = data, er_input = inp, er_policies = policies\<rparr>"

definition default_dispatcher ::
  "(('p, 'd, 'i) factory_context \<Rightarrow> ('p, 'i, 'o) evaluator) \<Rightarrow>
   ('p, 'd, 'i) factory_context \<Rightarrow> ('p \<Rightarrow> 'i \<Rightarrow> 'o \<Rightarrow> 'r \<Rightarrow> 'r) \<Rightarrow> 'i \<Rightarrow> 'r \<Rightarrow> 'r" where
  "default_dispatcher evaluator = sequential evaluator (Some never_factory)"

definition default_resulter ::
  "('p, 'd, 'i) factory_context \<Rightarrow>
   ('p, 'i, 'o, ('p, 'd, 'i, 'o) engine_result, ('p, 'i, 'o) policy_result list) resulter" where
  "default_resulter fctx =
     new_transformer
       (\<lambda>policy inp out. make_policy_result policy inp out)
       (\<lambda>results. make_result
          (make_source_result (sc_data (fc_source fctx)) (sc_error (fc_source fctx)))
          (fc_input fctx) (fc_data fctx) results)
       new_appender"

definition default_handler ::
  "(('p, 'd, 'i) factory_context \<Rightarrow> ('p, 'i, 'o) evaluator) \<Rightarrow>
   ('p, 'd, 'i) factory_context \<Rightarrow> 'i \<Rightarrow> ('p, 'd, 'i, 'o) engine_result" where
  "default_handler evaluator = handler (default_dispatcher evaluator) default_resulter"

interpretation default_r: transformed_resulter new_appender "map (snd \<circ> snd)"
    make_policy_result
    "\<lambda>results. make_result
       (make_source_result (sc_data (fc_source fctx)) (sc_error (fc_source fctx)))
       (fc_input fctx) (fc_data fctx) results"
  for fctx
  by unfold_locales

subsection \<open>Policies as evaluators\<close>

type_synonym ('d, 'i, 'o) policy = "'d \<Rightarrow> 'i \<Rightarrow> 'o \<times> go_error option"

record 'o evaluation =
  ev_result :: 'o
  ev_error :: "go_error option"

definition make_evaluation :: "'o \<Rightarrow> go_error option \<Rightarrow> 'o evaluation" where
  "make_evaluation res err = \<lparr>ev_result = res, ev_error = err\<rparr>"

definition evaluator_factory ::
  "(('d, 'i, 'o) policy, 'd, 'i) factory_context \<Rightarrow> (('d, 'i, 'o) policy, 'i, 'o evaluation) evaluator" where
  "evaluator_factory fctx policy inp =
     (case policy (fc_data fctx) inp of (out, err) \<Rightarrow> make_evaluation out err)"

definition policy_engine ::
  "('s, ('d, 'i, 'o) policy) source \<Rightarrow> 'd \<Rightarrow> 'i \<Rightarrow> 's \<Rightarrow>
   (('d, 'i, 'o) policy, 'd, 'i, 'o evaluation) engine_result \<times> 's" where
  "policy_engine src = new_engine src (default_handler evaluator_factory)"

end
