(* ===== verification/Compiled_Policy.thy ===== *)
theory Compiled_Policy
  imports Core_Engine
begin

section \<open>Evaluation of a compiled policy\<close>

text \<open>
  Models \<open>pkg/engine/compiler/policy.go\<close>. A \<open>cel.Program\<close> is third-party code: a parameter, a
  function of the activation (the map of names to values the code builds) that returns a value
  (\<open>None\<close> for a nil \<open>ref.Val\<close>) and an error. The operations of \<open>ref.Val\<close> that the code calls are
  the fields of \<open>cel_ops\<close>. The variables of an activation are the lazy map of the Kubernetes API
  server library: a name is looked up by running its program in the same activation.
\<close>

datatype ('i, 'd, 'l, 'v) binding =
    Object_b 'i
  | Http_b
  | Image_b 'l
  | Resource_b 'd
  | Variables_b "string \<Rightarrow> 'v option option"

type_synonym ('i, 'd, 'l, 'v) activation = "string \<rightharpoonup> ('i, 'd, 'l, 'v) binding"

type_synonym ('i, 'd, 'l, 'v) program =
  "('i, 'd, 'l, 'v) activation \<Rightarrow> 'v option \<times> go_error option"

text \<open>
  \<open>cv_is_null\<close> is \<open>out == types.NullValue\<close>, \<open>cv_value\<close> is \<open>out.Value()\<close>, \<open>cv_to_bool\<close> is
  \<open>utils.ConvertToNative[bool]\<close>, \<open>cv_as_out\<close> is the type assertion \<open>response.(OUT)\<close>, \<open>cv_zero\<close>
  the zero value of \<open>OUT\<close> and \<open>cv_wrap_err\<close> is \<open>types.WrapErr\<close>.
\<close>

record ('v, 'n, 'o) cel_ops =
  cv_is_null :: "'v \<Rightarrow> bool"
  cv_value :: "'v \<Rightarrow> 'n option"
  cv_to_bool :: "'v option \<Rightarrow> go_error + bool"
  cv_as_out :: "'n \<Rightarrow> 'o option"
  cv_zero :: 'o
  cv_wrap_err :: "go_error \<Rightarrow> 'v"

definition HttpKey :: string where "HttpKey = ''http''"
definition ImageDataKey :: string where "ImageDataKey = ''image''"
definition ObjectKey :: string where "ObjectKey = ''object''"
definition VariablesKey :: string where "VariablesKey = ''variables''"
definition ResourceKey :: string where "ResourceKey = ''resource''"

lemmas key_defs = HttpKey_def ImageDataKey_def ObjectKey_def VariablesKey_def ResourceKey_def

definition Fail :: string where "Fail = ''Fail''"

record ('i, 'd, 'l, 'v) compiled_policy =
  cp_failure_policy :: string
  cp_match_conditions :: "('i, 'd, 'l, 'v) program list"
  cp_variables :: "(string, ('i, 'd, 'l, 'v) program) gomap"
  cp_rules :: "('i, 'd, 'l, 'v) program list"

subsection \<open>Match conditions\<close>

fun match_loop ::
  "multierr \<Rightarrow> ('v, 'n, 'o) cel_ops \<Rightarrow> ('i, 'd, 'l, 'v) activation \<Rightarrow>
   ('i, 'd, 'l, 'v) program list \<Rightarrow> go_error list \<Rightarrow> bool \<times> go_error option" where
  "match_loop M ops data [] errs = (True, m_combine M (map Some errs))"
| "match_loop M ops data (match_condition # rest) errs =
     (case match_condition data of
        (out, Some err) \<Rightarrow> match_loop M ops data rest (errs @ [err])
      | (out, None) \<Rightarrow>
          (case cv_to_bool ops out of
             Inl err \<Rightarrow> match_loop M ops data rest (errs @ [err])
           | Inr result \<Rightarrow>
               (if \<not> result then (False, None) else match_loop M ops data rest errs)))"

definition cp_match ::
  "multierr \<Rightarrow> ('v, 'n, 'o) cel_ops \<Rightarrow> ('i, 'd, 'l, 'v) compiled_policy \<Rightarrow> 'i \<Rightarrow>
   bool \<times> go_error option" where
  "cp_match M ops p r = match_loop M ops [ObjectKey \<mapsto> Object_b r] (cp_match_conditions p) []"

subsection \<open>Variables\<close>

text \<open>
  The callback of a variable runs its program in the activation that holds the lazy map
  itself. The depth of nested lookups is bounded by the first argument; at depth 0 a name is
  reported as not found. \<open>setup_variables\<close> allows as many nested lookups as there are
  variables, which is enough when each program only reads variables declared before it.
\<close>

fun var_lookup ::
  "('v, 'n, 'o) cel_ops \<Rightarrow> nat \<Rightarrow> (string, ('i, 'd, 'l, 'v) program) gomap \<Rightarrow>
   ('i, 'd, 'l, 'v) activation \<Rightarrow> string \<Rightarrow> 'v option option" where
  "var_lookup ops 0 variables base name = None"
| "var_lookup ops (Suc depth) variables base name =
     (case map_of variables name of
        None \<Rightarrow> None
      | Some variable \<Rightarrow>
          (case variable (base(VariablesKey \<mapsto> Variables_b (var_lookup ops depth variables base))) of
             (Some out, _) \<Rightarrow> Some (Some out)
           | (None, Some err) \<Rightarrow> Some (Some (cv_wrap_err ops err))
           | (None, None) \<Rightarrow> Some None))"

definition base_activation :: "'l \<Rightarrow> 'i \<Rightarrow> 'd \<Rightarrow> ('i, 'd, 'l, 'v) activation" where
  "base_activation loader r d =
     [HttpKey \<mapsto> Http_b, ImageDataKey \<mapsto> Image_b loader, ObjectKey \<mapsto> Object_b r,
      ResourceKey \<mapsto> Resource_b d]"

definition setup_variables ::
  "('v, 'n, 'o) cel_ops \<Rightarrow> go_error + 'l \<Rightarrow> ('i, 'd, 'l, 'v) compiled_policy \<Rightarrow> 'i \<Rightarrow> 'd \<Rightarrow>
   go_error + ('i, 'd, 'l, 'v) activation" where
  "setup_variables ops image_data p r d =
     (case image_data of
        Inl err \<Rightarrow> Inl err
      | Inr loader \<Rightarrow>
          (let base = base_activation loader r d
           in Inr (base(VariablesKey \<mapsto>
                Variables_b (var_lookup ops (length (cp_variables p)) (cp_variables p) base)))))"

subsection \<open>Rules\<close>

definition evaluate_rule ::
  "('v, 'n, 'o) cel_ops \<Rightarrow> ('i, 'd, 'l, 'v) program \<Rightarrow> ('i, 'd, 'l, 'v) activation \<Rightarrow>
   'n option \<times> go_error option" where
  "evaluate_rule ops rule data =
     (case rule data of
        (out, Some err) \<Rightarrow> (None, Some err)
      | (None, None) \<Rightarrow> (None, None)
      | (Some out, None) \<Rightarrow>
          (if cv_is_null ops out then (None, None)
           else case cv_value ops out of None \<Rightarrow> (None, None) | Some v \<Rightarrow> (Some v, None)))"

fun rules_loop ::
  "('v, 'n, 'o) cel_ops \<Rightarrow> ('i, 'd, 'l, 'v) activation \<Rightarrow> ('i, 'd, 'l, 'v) program list \<Rightarrow>
   'o \<times> go_error option" where
  "rules_loop ops data [] = (cv_zero ops, None)"
| "rules_loop ops data (rule # rules) =
     (case evaluate_rule ops rule data of
        (response, Some err) \<Rightarrow> (cv_zero ops, Some err)
      | (Some response, None) \<Rightarrow>
          (case cv_as_out ops response of
             None \<Rightarrow> (cv_zero ops, Some (Errorf ''rule result is expected to be of the output type''))
           | Some val \<Rightarrow> (val, None))
      | (None, None) \<Rightarrow> rules_loop ops data rules)"

definition evaluate_rules ::
  "multierr \<Rightarrow> ('v, 'n, 'o) cel_ops \<Rightarrow> go_error + 'l \<Rightarrow> ('i, 'd, 'l, 'v) compiled_policy \<Rightarrow>
   'i \<Rightarrow> 'd \<Rightarrow> 'o \<times> go_error option" where
  "evaluate_rules M ops image_data p r dynclient =
     (case cp_match M ops p r of
        (matched, Some err) \<Rightarrow> (cv_zero ops, Some err)
      | (matched, None) \<Rightarrow>
          (if \<not> matched then (cv_zero ops, None)
           else case setup_variables ops image_data p r dynclient of
             Inl err \<Rightarrow> (cv_zero ops, Some err)
           | Inr data \<Rightarrow> rules_loop ops data (cp_rules p)))"

definition cp_evaluate ::
  "multierr \<Rightarrow> ('v, 'n, 'o) cel_ops \<Rightarrow> go_error + 'l \<Rightarrow> ('i, 'd, 'l, 'v) compiled_policy \<Rightarrow>
   ('d, 'i, 'o) policy" where
  "cp_evaluate M ops image_data p dynclient r =
     (case evaluate_rules M ops image_data p r dynclient of
        (response, Some err) \<Rightarrow>
          (if cp_failure_policy p = Fail then (cv_zero ops, Some err) else (response, None))
      | (response, None) \<Rightarrow> (response, None))"

subsection \<open>The meaning of match conditions\<close>

text \<open>What one condition gives: an error (of the program or of the conversion) or a boolean.\<close>

definition cond_result ::
  "('v, 'n, 'o) cel_ops \<Rightarrow> ('i, 'd, 'l, 'v) activation \<Rightarrow> ('i, 'd, 'l, 'v) program \<Rightarrow> go_error + bool" where
  "cond_result ops data c =
     (case c data of (out, Some err) \<Rightarrow> Inl err | (out, None) \<Rightarrow> cv_to_bool ops out)"

fun lefts :: "('a + 'b) list \<Rightarrow> 'a list" where
  "lefts [] = []"
| "lefts (Inl a # xs) = a # lefts xs"
| "lefts (Inr b # xs) = lefts xs"

lemma lefts_Nil: "lefts xs = [] \<longleftrightarrow> (\<forall>x \<in> set xs. isl x = False)"
  by (induction xs rule: lefts.induct) auto

lemma match_loop_eq:
  "match_loop M ops data cs errs =
     (if Inr False \<in> set (map (cond_result ops data) cs) then (False, None)
      else (True, m_combine M (map Some (errs @ lefts (map (cond_result ops data) cs)))))"
  by (induction cs arbitrary: errs)
    (auto simp: cond_result_def split: prod.split option.split sum.split)

lemma match_loop_ok:
  assumes "multierr_ok M"
  shows "snd (match_loop M ops data cs errs) = None \<longleftrightarrow>
    Inr False \<in> set (map (cond_result ops data) cs) \<or>
    errs = [] \<and> lefts (map (cond_result ops data) cs) = []"
  using assms by (simp add: match_loop_eq multierr_combine_Some del: set_map map_append)

subsection \<open>The meaning of the rules\<close>

text \<open>A rule that answers or fails decides; the first such rule gives the result.\<close>

definition rule_silent ::
  "('v, 'n, 'o) cel_ops \<Rightarrow> ('i, 'd, 'l, 'v) activation \<Rightarrow> ('i, 'd, 'l, 'v) program \<Rightarrow> bool" where
  "rule_silent ops data rule \<longleftrightarrow> evaluate_rule ops rule data = (None, None)"

lemma rules_loop_silent:
  "\<forall>rule \<in> set rules. rule_silent ops data rule \<Longrightarrow> rules_loop ops data rules = (cv_zero ops, None)"
  by (induction rules) (simp_all add: rule_silent_def)

lemma rules_loop_skip:
  "\<forall>rule \<in> set silent. rule_silent ops data rule \<Longrightarrow>
   rules_loop ops data (silent @ rules) = rules_loop ops data rules"
  by (induction silent) (simp_all add: rule_silent_def)

lemma rules_loop_answer:
  "evaluate_rule ops rule data = (Some v, None) \<Longrightarrow> cv_as_out ops v = Some out \<Longrightarrow>
   rules_loop ops data (rule # rules) = (out, None)"
  by simp

definition rule_decides ::
  "('v, 'n, 'o) cel_ops \<Rightarrow> ('i, 'd, 'l, 'v) program \<Rightarrow> ('i, 'd, 'l, 'v) activation \<Rightarrow>
   go_error + 'o \<Rightarrow> bool" where
  "rule_decides ops rule act res \<longleftrightarrow>
     (case evaluate_rule ops rule act of
        (_, Some err) \<Rightarrow> res = Inl err
      | (Some v, None) \<Rightarrow> (case cv_as_out ops v of Some out \<Rightarrow> res = Inr out | None \<Rightarrow> False)
      | (None, None) \<Rightarrow> False)"

lemma rules_loop_decides:
  "rule_decides ops rule act res \<Longrightarrow>
   rules_loop ops act (rule # rules) =
     (case res of Inr out \<Rightarrow> (out, None) | Inl err \<Rightarrow> (cv_zero ops, Some err))"
  by (auto simp: rule_decides_def split: prod.splits option.splits)

lemma rules_loop_error: "snd (rules_loop ops data rules) \<noteq> None \<Longrightarrow> fst (rules_loop ops data rules) = cv_zero ops"
  by (induction rules) (auto split: prod.splits option.splits)

lemma evaluate_rules_error:
  "evaluate_rules M ops img p r d = (out, Some err) \<Longrightarrow> out = cv_zero ops"
  using rules_loop_error [of ops _ "cp_rules p"]
  by (auto simp: evaluate_rules_def split: prod.splits option.splits if_splits sum.splits)
    (metis fst_conv option.distinct(1) snd_conv)

subsection \<open>Enough depth for the variables\<close>

text \<open>
  \<open>reads_only N prog\<close>: the program sees the variables only through the names of \<open>N\<close>. The
  compiler registers each variable after it compiled its program, so a program compiles only
  if it reads variables declared before it: \<open>vars_ordered\<close>.
\<close>

definition reads_only :: "string set \<Rightarrow> ('i, 'd, 'l, 'v) program \<Rightarrow> bool" where
  "reads_only N prog \<longleftrightarrow>
     (\<forall>base f g. (\<forall>n \<in> N. f n = g n) \<longrightarrow>
        prog (base(VariablesKey \<mapsto> Variables_b f)) = prog (base(VariablesKey \<mapsto> Variables_b g)))"

fun vars_ordered :: "string set \<Rightarrow> (string, ('i, 'd, 'l, 'v) program) gomap \<Rightarrow> bool" where
  "vars_ordered N [] \<longleftrightarrow> True"
| "vars_ordered N ((n, prog) # vs) \<longleftrightarrow> n \<notin> N \<and> reads_only N prog \<and> vars_ordered (insert n N) vs"

lemma var_lookup_unknown: "map_of vs n = None \<Longrightarrow> var_lookup ops k vs base n = None"
  by (cases k) simp_all

lemma vars_ordered_lookup:
  "vars_ordered N vs \<Longrightarrow> map_of vs n = Some prog \<Longrightarrow>
   \<exists>i < length vs. vs ! i = (n, prog) \<and> reads_only (N \<union> fst ` set (take i vs)) prog"
proof (induction vs arbitrary: N)
  case (Cons v vs)
  show ?case
  proof (cases "fst v = n")
    case True
    with Cons.prems show ?thesis by (intro exI [of _ 0]) (cases v, auto)
  next
    case False
    obtain m q where v: "v = (m, q)" by (cases v)
    have "vars_ordered (insert m N) vs" "map_of vs n = Some prog"
      using Cons.prems False v by simp_all
    from Cons.IH [OF this] obtain i where "i < length vs" "vs ! i = (n, prog)"
      "reads_only (insert m N \<union> fst ` set (take i vs)) prog"
      by auto
    with v show ?thesis by (intro exI [of _ "Suc i"]) auto
  qed
qed simp

lemma vars_ordered_distinct: "vars_ordered N vs \<Longrightarrow> distinct (map fst vs) \<and> N \<inter> fst ` set vs = {}"
  by (induction N vs rule: vars_ordered.induct) auto

text \<open>
  The same lookups with another answer \<open>low\<close> where the depth is used up. A lookup ends by itself if
  its answer does not depend on it: \<open>resolves\<close>.
\<close>

fun var_lookup_at ::
  "('v, 'n, 'o) cel_ops \<Rightarrow> (string \<Rightarrow> 'v option option) \<Rightarrow> nat \<Rightarrow> (string, ('i, 'd, 'l, 'v) program) gomap \<Rightarrow>
   ('i, 'd, 'l, 'v) activation \<Rightarrow> string \<Rightarrow> 'v option option" where
  "var_lookup_at ops low 0 variables base name = low name"
| "var_lookup_at ops low (Suc depth) variables base name =
     (case map_of variables name of
        None \<Rightarrow> None
      | Some variable \<Rightarrow>
          (case variable (base(VariablesKey \<mapsto> Variables_b (var_lookup_at ops low depth variables base))) of
             (Some out, _) \<Rightarrow> Some (Some out)
           | (None, Some err) \<Rightarrow> Some (Some (cv_wrap_err ops err))
           | (None, None) \<Rightarrow> Some None))"

lemma var_lookup_at_None: "var_lookup ops k vs base = var_lookup_at ops (\<lambda>_. None) k vs base"
proof (induction k)
  case (Suc k)
  show ?case by (rule ext) (simp add: Suc split: option.split)
qed (rule ext, simp)

definition resolves ::
  "('v, 'n, 'o) cel_ops \<Rightarrow> nat \<Rightarrow> (string, ('i, 'd, 'l, 'v) program) gomap \<Rightarrow> ('i, 'd, 'l, 'v) activation \<Rightarrow> string \<Rightarrow> bool" where
  "resolves ops depth vs base n \<longleftrightarrow>
     (\<exists>r. \<forall>k \<ge> depth. \<forall>low. var_lookup_at ops low k vs base n = r)"

lemma var_lookup_at_stable:
  assumes "vars_ordered {} vs" and "i < length vs" and "i < k" and "i < l"
  shows "var_lookup_at ops low k vs base (fst (vs ! i)) = var_lookup_at ops low' l vs base (fst (vs ! i))"
  using assms(2-4)
proof (induction i arbitrary: k l rule: less_induct)
  case (less i)
  obtain k' l' where kl: "k = Suc k'" "l = Suc l'" using less.prems by (cases k; cases l) auto
  obtain n prog where v: "vs ! i = (n, prog)" by fastforce
  have dist: "distinct (map fst vs)" using vars_ordered_distinct [OF assms(1)] by simp
  have found: "map_of vs n = Some prog"
    using nth_mem [OF less.prems(1)] v map_of_eq_Some_iff [OF dist] by simp
  obtain j where j: "j < length vs" "vs ! j = (n, prog)" "reads_only (fst ` set (take j vs)) prog"
    using vars_ordered_lookup [OF assms(1) found] by auto
  have "j = i"
    using nth_eq_iff_index_eq [OF dist, of j i] j(1,2) less.prems(1) v by simp
  have "var_lookup_at ops low k' vs base m = var_lookup_at ops low' l' vs base m" if "m \<in> fst ` set (take i vs)" for m
  proof -
    from that obtain h where h: "h < i" "m = fst (vs ! h)"
      by (auto simp: in_set_conv_nth)
    with less.prems kl show ?thesis by (auto intro: less.IH)
  qed
  with j(3) \<open>j = i\<close> have
    "prog (base(VariablesKey \<mapsto> Variables_b (var_lookup_at ops low k' vs base))) =
     prog (base(VariablesKey \<mapsto> Variables_b (var_lookup_at ops low' l' vs base)))"
    by (simp add: reads_only_def)
  with found v kl show ?case by simp
qed

lemma var_lookup_stable:
  assumes "vars_ordered {} vs" and "i < length vs" and "i < k" and "i < l"
  shows "var_lookup ops k vs base (fst (vs ! i)) = var_lookup ops l vs base (fst (vs ! i))"
  unfolding var_lookup_at_None by (rule var_lookup_at_stable [OF assms])

lemma vars_ordered_resolves:
  assumes "vars_ordered {} vs" and "n \<in> fst ` set vs"
  shows "resolves ops (length vs) vs base n"
proof -
  obtain i where "i < length vs" "n = fst (vs ! i)"
    using assms(2) by (auto simp: in_set_conv_nth)
  then have "var_lookup_at ops low k vs base n = var_lookup_at ops (\<lambda>_. None) (length vs) vs base n"
    if "length vs \<le> k" for k low
    using var_lookup_at_stable [OF assms(1), of i k "length vs" ops low base "\<lambda>_. None"] that by simp
  then show ?thesis unfolding resolves_def by blast
qed

text \<open>A variable whose program returns the value of the variable itself does not end at any depth.\<close>

definition reads_itself :: "string \<Rightarrow> ('i, 'd, 'l, 'v) program \<Rightarrow> bool" where
  "reads_itself n prog \<longleftrightarrow>
     (\<forall>base f v. f n = Some (Some v) \<longrightarrow> prog (base(VariablesKey \<mapsto> Variables_b f)) = (Some v, None))"

lemma reads_itself_lookup:
  assumes "map_of vs n = Some prog" and "reads_itself n prog"
  shows "low n = Some (Some v) \<Longrightarrow> var_lookup_at ops low k vs base n = Some (Some v)"
  by (induction k) (use assms in \<open>auto simp: reads_itself_def\<close>)

lemma reads_itself_unresolved:
  fixes vs :: "(string, ('i, 'd, 'l, 'v) program) gomap"
  assumes "map_of vs n = Some prog" and "reads_itself n prog" and "(v :: 'v) \<noteq> w"
  shows "\<not> resolves ops depth vs base n"
proof
  assume "resolves ops depth vs base n"
  then obtain r where "\<And>low. var_lookup_at ops low depth vs base n = r"
    unfolding resolves_def by blast
  with reads_itself_lookup [OF assms(1,2), of "\<lambda>_. Some (Some v)" v ops depth base]
    reads_itself_lookup [OF assms(1,2), of "\<lambda>_. Some (Some w)" w ops depth base] assms(3)
  show False by simp
qed

lemma var_lookup_enough:
  assumes "vars_ordered {} vs" and "n \<in> fst ` set vs" and "length vs \<le> k"
  shows "var_lookup ops (length vs) vs base n \<noteq> None \<and>
         var_lookup ops k vs base n = var_lookup ops (length vs) vs base n"
proof -
  obtain i where i: "i < length vs" "n = fst (vs ! i)"
    using assms(2) by (auto simp: in_set_conv_nth)
  then obtain prog where "map_of vs n = Some prog"
    using assms(2) by (metis map_of_eq_None_iff not_Some_eq)
  moreover obtain m where "length vs = Suc m" using i(1) by (cases "length vs") auto
  ultimately have "var_lookup ops (length vs) vs base n \<noteq> None"
    by (simp split: prod.split option.split)
  moreover have "var_lookup ops k vs base n = var_lookup ops (length vs) vs base n"
    using var_lookup_stable [OF assms(1) i(1), of k "length vs" ops base] i assms(3) by simp
  ultimately show ?thesis ..
qed

subsection \<open>Properties\<close>

text \<open>Values for the concrete instances: numbers, with 0 the null value and 1 for true.\<close>

definition nat_ops :: "(nat, nat, nat) cel_ops" where
  "nat_ops = \<lparr>
     cv_is_null = (\<lambda>v. v = 0),
     cv_value = Some,
     cv_to_bool = (\<lambda>v. case v of None \<Rightarrow> Inl (Errorf ''nil'') | Some n \<Rightarrow> Inr (n = 1)),
     cv_as_out = (\<lambda>n. if n < 100 then Some n else None),
     cv_zero = 0,
     cv_wrap_err = (\<lambda>_. 99)\<rparr>"

lemma nat_ops_sel [simp]:
  "cv_is_null nat_ops v \<longleftrightarrow> v = 0"
  "cv_value nat_ops = Some"
  "cv_to_bool nat_ops x = (case x of None \<Rightarrow> Inl (Errorf ''nil'') | Some n \<Rightarrow> Inr (n = 1))"
  "cv_as_out nat_ops n = (if n < 100 then Some n else None)"
  "cv_zero nat_ops = 0"
  "cv_wrap_err nat_ops e = 99"
  by (simp_all add: nat_ops_def)

abbreviation cond_results ::
  "('v, 'n, 'o) cel_ops \<Rightarrow> ('i, 'd, 'l, 'v) compiled_policy \<Rightarrow> 'i \<Rightarrow> (go_error + bool) list" where
  "cond_results ops p r \<equiv>
     map (cond_result ops [ObjectKey \<mapsto> Object_b r]) (cp_match_conditions p)"

lemma match_conditions_result:
  assumes "multierr_ok M" and "\<exists>c \<in> set (cond_results ops p r). c \<noteq> Inr True"
  shows "cp_evaluate M ops img p d r =
    (if Inr False \<in> set (cond_results ops p r) then (cv_zero ops, None)
     else (cv_zero ops,
           if cp_failure_policy p = Fail
           then m_combine M (map Some (lefts (cond_results ops p r))) else None))"
proof (cases "Inr False \<in> set (cond_results ops p r)")
  case True
  then show ?thesis
    by (simp add: cp_evaluate_def evaluate_rules_def cp_match_def match_loop_eq del: set_map)
next
  case False
  have "lefts (cond_results ops p r) \<noteq> []"
  proof
    assume "lefts (cond_results ops p r) = []"
    then have "\<forall>c \<in> set (cond_results ops p r). \<not> isl c" by (simp add: lefts_Nil del: set_map)
    with False have "\<forall>c \<in> set (cond_results ops p r). c = Inr True"
      by (metis (full_types) isl_def sum.exhaust)
    with assms(2) show False by blast
  qed
  with assms(1) obtain e where "m_combine M (map Some (lefts (cond_results ops p r))) = Some e"
    using multierr_combine_Some [OF assms(1)] by blast
  with False show ?thesis
    by (simp add: cp_evaluate_def evaluate_rules_def cp_match_def match_loop_eq del: set_map)
qed

text \<open>C1:
  Match conditions decide before errors do. A condition that is false skips the policy (no
  response, no error) whatever the other conditions give, errors included; otherwise, if some
  condition failed, the policy reports all the errors, in order, when its failure policy is
  Fail, and is skipped without an error when it is not.\<close>

theorem match_conditions_decide:
  assumes "multierr_ok M" and "\<exists>c \<in> set (cond_results ops p r). c \<noteq> Inr True"
  shows "cp_evaluate M ops img p d r =
    (if Inr False \<in> set (cond_results ops p r) then (cv_zero ops, None)
     else (cv_zero ops,
           if cp_failure_policy p = Fail
           then m_combine M (map Some (lefts (cond_results ops p r))) else None))"
  using assms by (rule match_conditions_result)

theorem match_conditions_decide_witness:
  "cp_evaluate multierr_list nat_ops (Inr ())
     \<lparr>cp_failure_policy = ''Fail'',
      cp_match_conditions = [(\<lambda>_. (None, Some (Errorf ''boom''))), (\<lambda>_. (Some 1, None))],
      cp_variables = [], cp_rules = [(\<lambda>_. (Some 7, None))]\<rparr> () () =
   (0, Some (Multi [Errorf ''boom'']))"
  using match_conditions_decide [where M = multierr_list and ops = nat_ops and img = "Inr ()"
      and d = "()" and r = "()" and p = "\<lparr>cp_failure_policy = ''Fail'',
      cp_match_conditions = [(\<lambda>_. (None, Some (Errorf ''boom''))), (\<lambda>_. (Some 1, None))],
      cp_variables = [], cp_rules = [(\<lambda>_. (Some 7, None))]\<rparr>"]
  by (simp add: cond_result_def Fail_def)

lemma first_rule_result:
  assumes "multierr_ok M"
    and "list_all (\<lambda>c. c = Inr True) (cond_results ops p r)"
    and "setup_variables ops img p r d = Inr act"
    and "cp_rules p = silent @ rule # rest"
    and "\<forall>q \<in> set silent. rule_silent ops act q"
    and "rule_decides ops rule act res"
  shows "cp_evaluate M ops img p d r =
    (case res of Inr out \<Rightarrow> (out, None)
     | Inl err \<Rightarrow> (cv_zero ops, if cp_failure_policy p = Fail then Some err else None))"
proof -
  have "lefts (cond_results ops p r) = []" "Inr False \<notin> set (cond_results ops p r)"
    using assms(2) by (auto simp: lefts_Nil list_all_iff simp del: set_map)
  with assms(1) have m: "cp_match M ops p r = (True, None)"
    using multierr_combine_Some [OF assms(1), of "[]"] by (simp add: cp_match_def match_loop_eq del: set_map)
  with assms(3,4) rules_loop_skip [OF assms(5)] rules_loop_decides [OF assms(6)]
  show ?thesis by (simp add: cp_evaluate_def evaluate_rules_def split: sum.split)
qed

text \<open>C2:
  When every match condition holds, the first rule that is not silent decides: rules before
  it that give null are skipped, and rules after it are not consulted. If it gives a response
  of the output type, that is the policy's response; if it fails, the failure policy turns
  the error into an error or into no response.\<close>

theorem first_rule_decides:
  assumes "multierr_ok M"
    and "list_all (\<lambda>c. c = Inr True) (cond_results ops p r)"
    and "setup_variables ops img p r d = Inr act"
    and "cp_rules p = silent @ rule # rest"
    and "\<forall>q \<in> set silent. rule_silent ops act q"
    and "rule_decides ops rule act res"
  shows "cp_evaluate M ops img p d r =
    (case res of Inr out \<Rightarrow> (out, None)
     | Inl err \<Rightarrow> (cv_zero ops, if cp_failure_policy p = Fail then Some err else None))"
  using assms by (rule first_rule_result)

theorem first_rule_decides_witness:
  "cp_evaluate multierr_list nat_ops (Inr ())
     \<lparr>cp_failure_policy = ''Ignore'', cp_match_conditions = [(\<lambda>_. (Some 1, None))],
      cp_variables = [], cp_rules = [(\<lambda>_. (Some 0, None)), (\<lambda>_. (Some 7, None)), (\<lambda>_. (Some 8, None))]\<rparr>
     () () = (7, None)"
proof -
  define p :: "(unit, unit, unit, nat) compiled_policy" where
    "p = \<lparr>cp_failure_policy = ''Ignore'', cp_match_conditions = [(\<lambda>_. (Some 1, None))],
      cp_variables = [], cp_rules = [(\<lambda>_. (Some 0, None)), (\<lambda>_. (Some 7, None)), (\<lambda>_. (Some 8, None))]\<rparr>"
  obtain act where act: "setup_variables nat_ops (Inr ()) p () () = Inr act"
    by (simp add: setup_variables_def Let_def)
  have "cp_evaluate multierr_list nat_ops (Inr ()) p () () = (7, None)"
    using first_rule_decides [where silent = "[(\<lambda>_. (Some 0, None))]" and rule = "\<lambda>_. (Some 7, None)"
          and rest = "[(\<lambda>_. (Some 8, None))]" and res = "Inr 7", OF multierr_list_ok _ act]
    by (simp add: p_def cond_result_def rule_silent_def rule_decides_def evaluate_rule_def)
  then show ?thesis by (simp add: p_def)
qed

text \<open>
  Resolving variables ends: when every variable reads only variables declared before it, the
  depth \<open>setup_variables\<close> allows (the number of variables) resolves each declared variable, and
  allowing any larger depth gives the same value.\<close>

theorem variables_depth_enough:
  assumes "vars_ordered {} vs" and "n \<in> fst ` set vs" and "length vs \<le> k"
  shows "var_lookup ops (length vs) vs base n \<noteq> None \<and>
         var_lookup ops k vs base n = var_lookup ops (length vs) vs base n"
  using assms by (rule var_lookup_enough)

text \<open>Two variables: the second doubles the first.\<close>

definition var_a :: "(unit, unit, unit, nat) program" where
  "var_a act = (Some 3, None)"

definition var_b :: "(unit, unit, unit, nat) program" where
  "var_b act = (case act VariablesKey of
      Some (Variables_b f) \<Rightarrow> (case f ''a'' of Some (Some n) \<Rightarrow> (Some (2 * n), None) | _ \<Rightarrow> (None, None))
    | _ \<Rightarrow> (None, None))"

theorem variables_depth_enough_witness:
  "var_lookup nat_ops 5 [(''a'', var_a), (''b'', var_b)] Map.empty ''b'' = Some (Some 6)"
proof -
  have "vars_ordered {} [(''a'', var_a), (''b'', var_b)]"
    by (simp add: reads_only_def var_a_def var_b_def)
  from variables_depth_enough [OF this, of "''b''" 5 nat_ops Map.empty]
  show ?thesis by (simp add: numeral_2_eq_2 var_a_def var_b_def)
qed

end
