(* ===== verification/Stateful_Sources.thy ===== *)
theory Stateful_Sources
  imports Sources
begin

section \<open>Composite, once and cached sources\<close>

text \<open>
  Models \<open>sdk/core/sources/composite.go\<close>, \<open>once.go\<close> and \<open>cache.go\<close>. Each keeps the
  state the Go closure or struct keeps: the memo of \<open>once\<close>, the two buffers of the cache.
  \<open>once\<close> loads under its lock, so one \<open>Load\<close> is one step. The cache loads its inner source
  before it takes the lock; here one load at a time is a step, and \<open>Concurrent_Loads\<close> takes
  the two halves of a load apart and interleaves them.
\<close>

subsection \<open>Composite\<close>

fun composite_loop ::
  "multierr \<Rightarrow> ('s, 'd) source list \<Rightarrow> 'd list \<Rightarrow> go_error option \<Rightarrow> ('s, 'd) source" where
  "composite_loop M [] out errs s = ((out, errs), s)"
| "composite_loop M (source # sources) out errs s =
     (case source s of ((items, err), s') \<Rightarrow>
        (case err of
           Some e \<Rightarrow> composite_loop M sources out (m_append M errs (Some e)) s'
         | None \<Rightarrow> composite_loop M sources (out @ items) errs s'))"

definition composite_load :: "multierr \<Rightarrow> ('s, 'd) source list \<Rightarrow> ('s, 'd) source" where
  "composite_load M sources = composite_loop M sources [] None"

text \<open>The results of the sub-sources, each loaded in the state the previous one left.\<close>

fun load_all :: "('s, 'd) source list \<Rightarrow> 's \<Rightarrow> 'd load list \<times> 's" where
  "load_all [] s = ([], s)"
| "load_all (source # sources) s =
     (case source s of (r, s') \<Rightarrow> (case load_all sources s' of (rs, s'') \<Rightarrow> (r # rs, s'')))"

lemma composite_loop_items:
  "items_of (composite_loop M sources out errs s) =
     out @ concat (map fst (filter (\<lambda>r. snd r = None) (fst (load_all sources s))))"
  by (induction sources arbitrary: out errs s) (auto split: prod.split option.split)

lemma composite_loop_errors:
  "multierr_ok M \<Longrightarrow>
   m_errors M (error_of (composite_loop M sources out errs s)) =
     m_errors M errs @ concat (map (\<lambda>r. m_errors M (snd r)) (fst (load_all sources s)))"
  by (induction sources arbitrary: out errs s)
    (auto simp: multierr_errors_append multierr_errors_Nil split: prod.split option.split)

lemma composite_loop_state:
  "snd (composite_loop M sources out errs s) = snd (load_all sources s)"
  by (induction sources arbitrary: out errs s) (auto split: prod.split option.split)

lemma composite_single:
  assumes "src s = ((items, err), s')"
  shows "composite_load M [src] s =
    (case err of None \<Rightarrow> ((items, None), s') | Some e \<Rightarrow> (([], m_append M None (Some e)), s'))"
  using assms by (simp add: composite_load_def split: option.split)

subsection \<open>Once\<close>

record 'd once =
  once_called :: bool
  once_data :: "'d list"
  once_err :: "go_error option"

definition new_once :: "'d once" where
  "new_once = \<lparr>once_called = False, once_data = [], once_err = None\<rparr>"

fun once_load :: "('s, 'd) source \<Rightarrow> ('d once \<times> 's, 'd) source" where
  "once_load inner (p, s) =
     (if once_called p then ((once_data p, once_err p), (p, s))
      else (case inner s of ((data, err), s') \<Rightarrow>
        ((data, err), (p\<lparr>once_data := data, once_err := err, once_called := True\<rparr>, s'))))"

text \<open>A source loaded \<open>n\<close> times in a row: its results, and the state it ends in.\<close>

fun load_n :: "nat \<Rightarrow> ('s, 'd) source \<Rightarrow> 's \<Rightarrow> 'd load list \<times> 's" where
  "load_n 0 src s = ([], s)"
| "load_n (Suc n) src s =
     (case src s of (r, s') \<Rightarrow> (case load_n n src s' of (rs, s'') \<Rightarrow> (r # rs, s'')))"

lemma once_called_stable:
  "once_called p \<Longrightarrow>
   load_n n (once_load inner) (p, s) = (replicate n (once_data p, once_err p), (p, s))"
  by (induction n) simp_all

lemma once_load_first:
  "\<not> once_called p \<Longrightarrow> inner s = ((data, err), s') \<Longrightarrow>
   load_n (Suc n) (once_load inner) (p, s) =
     (replicate (Suc n) (data, err),
      (p\<lparr>once_data := data, once_err := err, once_called := True\<rparr>, s'))"
  by (simp add: once_called_stable)

subsection \<open>The double-buffered cache\<close>

text \<open>
  \<open>readBuffer\<close> holds what the previous load served, \<open>writeBuffer\<close> what the current one has
  served so far; at the end the two are swapped and the new write buffer is cleared.
\<close>

record ('k, 'i) cache =
  read_buffer :: "('k, 'i) gomap"
  write_buffer :: "('k, 'i) gomap"

definition new_cache :: "('k, 'i) cache" where
  "new_cache = \<lparr>read_buffer = [], write_buffer = []\<rparr>"

fun cache_loop ::
  "multierr \<Rightarrow> ('d \<Rightarrow> go_error + 'k) \<Rightarrow> ('k \<Rightarrow> 'd \<Rightarrow> go_error + 'i) \<Rightarrow> ('k, 'i) gomap \<Rightarrow>
   'd list \<Rightarrow> 'i list \<Rightarrow> go_error option \<Rightarrow> ('k, 'i) gomap \<Rightarrow> 'i load \<times> ('k, 'i) gomap" where
  "cache_loop M key_func cache_func rb [] out errs wb = ((out, errs), wb)"
| "cache_loop M key_func cache_func rb (item # data) out errs wb =
     (case key_func item of
        Inl err \<Rightarrow> cache_loop M key_func cache_func rb data out
          (m_append M errs (Some (Wrapf ''key error for item'' err))) wb
      | Inr key \<Rightarrow>
          (case map_of rb key of
             Some cached \<Rightarrow> cache_loop M key_func cache_func rb data (out @ [cached]) errs
               (AList.update key cached wb)
           | None \<Rightarrow>
               (case cache_func key item of
                  Inl err \<Rightarrow> cache_loop M key_func cache_func rb data out
                    (m_append M errs (Some (Wrapf ''cache error for key'' err))) wb
                | Inr cached \<Rightarrow> cache_loop M key_func cache_func rb data (out @ [cached]) errs
                    (AList.update key cached wb))))"

fun cache_load ::
  "multierr \<Rightarrow> ('d \<Rightarrow> go_error + 'k) \<Rightarrow> ('k \<Rightarrow> 'd \<Rightarrow> go_error + 'i) \<Rightarrow> ('s, 'd) source \<Rightarrow>
   (('k, 'i) cache \<times> 's, 'i) source" where
  "cache_load M key_func cache_func inner (c, s) =
     (case inner s of ((data, inner_err), s') \<Rightarrow>
        (let errs = (case inner_err of None \<Rightarrow> None | Some e \<Rightarrow> m_append M None (Some e))
         in (case cache_loop M key_func cache_func (read_buffer c) data [] errs (write_buffer c) of
               (r, wb) \<Rightarrow> (r, (\<lparr>read_buffer = wb, write_buffer = []\<rparr>, s')))))"

text \<open>What one item yields: a served value, from the read buffer or freshly computed.\<close>

definition serve ::
  "('d \<Rightarrow> go_error + 'k) \<Rightarrow> ('k \<Rightarrow> 'd \<Rightarrow> go_error + 'i) \<Rightarrow> ('k, 'i) gomap \<Rightarrow> 'd \<Rightarrow> ('k \<times> 'i) option" where
  "serve key_func cache_func rb item =
     (case key_func item of
        Inl _ \<Rightarrow> None
      | Inr key \<Rightarrow>
          (case map_of rb key of
             Some cached \<Rightarrow> Some (key, cached)
           | None \<Rightarrow> (case cache_func key item of Inl _ \<Rightarrow> None | Inr cached \<Rightarrow> Some (key, cached))))"

definition served ::
  "('d \<Rightarrow> go_error + 'k) \<Rightarrow> ('k \<Rightarrow> 'd \<Rightarrow> go_error + 'i) \<Rightarrow> ('k, 'i) gomap \<Rightarrow> 'd list \<Rightarrow> ('k \<times> 'i) list" where
  "served key_func cache_func rb data = List.map_filter (serve key_func cache_func rb) data"

lemma served_simps [simp]:
  "served kf cf rb [] = []"
  "served kf cf rb (x # xs) =
     (case serve kf cf rb x of None \<Rightarrow> [] | Some e \<Rightarrow> [e]) @ served kf cf rb xs"
  by (simp_all add: served_def map_filter_simps split: option.split)

definition update_all :: "('k, 'i) gomap \<Rightarrow> ('k \<times> 'i) list \<Rightarrow> ('k, 'i) gomap" where
  "update_all wb es = fold (\<lambda>(k, v). AList.update k v) es wb"

lemma update_all_simps [simp]:
  "update_all wb [] = wb"
  "update_all wb ((k, v) # es) = update_all (AList.update k v wb) es"
  "update_all wb (es @ fs) = update_all (update_all wb es) fs"
  by (simp_all add: update_all_def)

lemma cache_loop_serves:
  "items_of (cache_loop M kf cf rb data out errs wb) = out @ map snd (served kf cf rb data)"
  "snd (cache_loop M kf cf rb data out errs wb) = update_all wb (served kf cf rb data)"
  by (induction data arbitrary: out errs wb)
    (auto simp: serve_def split: sum.split option.split)

lemma map_of_update_all:
  "map_of (update_all wb es) k = (case map_of (rev es) k of None \<Rightarrow> map_of wb k | Some v \<Rightarrow> Some v)"
  by (induction es arbitrary: wb)
    (auto simp: map_add_def split: option.split)

lemma keys_update_all [simp]: "fst ` set (update_all wb es) = fst ` set wb \<union> fst ` set es"
proof (induction es arbitrary: wb)
  case (Cons e es)
  then show ?case by (cases e) simp
qed simp

lemma gomap_ok_update_all [go_inv]: "gomap_ok wb \<Longrightarrow> gomap_ok (update_all wb es)"
  by (induction es arbitrary: wb) auto

text \<open>Loads keep the cache well formed: the write buffer is empty between loads.\<close>

definition cache_ok :: "('k, 'i) cache \<Rightarrow> bool" where
  "cache_ok c \<longleftrightarrow> gomap_ok (read_buffer c) \<and> write_buffer c = []"

lemma cache_ok_new [go_inv]: "cache_ok new_cache"
  by (simp add: cache_ok_def new_cache_def)

lemma cache_load_result:
  assumes "inner s = ((data, ierr), s')"
  shows "items_of (cache_load M kf cf inner (c, s)) = map snd (served kf cf (read_buffer c) data)"
    and "read_buffer (fst (snd (cache_load M kf cf inner (c, s)))) =
           update_all (write_buffer c) (served kf cf (read_buffer c) data)"
    and "write_buffer (fst (snd (cache_load M kf cf inner (c, s)))) = []"
    and "snd (snd (cache_load M kf cf inner (c, s))) = s'"
  using assms by (simp_all add: Let_def case_prod_beta cache_loop_serves)

declare cache_load.simps [simp del]

lemma cache_ok_load [go_inv]:
  assumes "cache_ok c"
  shows "cache_ok (fst (snd (cache_load M kf cf inner (c, s))))"
proof -
  obtain data ierr s' where "inner s = ((data, ierr), s')" by (metis prod.collapse)
  with assms show ?thesis
    by (simp add: cache_ok_def cache_load_result gomap_ok_update_all)
qed

text \<open>
  The invariant behind the cache, relative to a set \<open>D\<close> of items: every buffered value is what
  the cache function gives for some item of \<open>D\<close> with that key. Where the key determines the
  value on \<open>D\<close>, loading items of \<open>D\<close> with the cache gives what loading without it would.
\<close>

definition cache_sound ::
  "'d set \<Rightarrow> ('d \<Rightarrow> go_error + 'k) \<Rightarrow> ('k \<Rightarrow> 'd \<Rightarrow> go_error + 'i) \<Rightarrow> ('k, 'i) gomap \<Rightarrow> bool" where
  "cache_sound D kf cf rb \<longleftrightarrow>
     (\<forall>k v. map_of rb k = Some v \<longrightarrow> (\<exists>d \<in> D. kf d = Inr k \<and> cf k d = Inr v))"

definition key_determines ::
  "'d set \<Rightarrow> ('d \<Rightarrow> go_error + 'k) \<Rightarrow> ('k \<Rightarrow> 'd \<Rightarrow> go_error + 'i) \<Rightarrow> bool" where
  "key_determines D kf cf \<longleftrightarrow>
     (\<forall>d \<in> D. \<forall>d' \<in> D. \<forall>k. kf d = Inr k \<and> kf d' = Inr k \<longrightarrow> cf k d = cf k d')"

lemma cache_sound_Nil [simp, go_inv]: "cache_sound D kf cf []"
  by (simp add: cache_sound_def)

lemma sound_hit:
  assumes "cache_sound D kf cf rb" and "key_determines D kf cf" and "d \<in> D"
    and "kf d = Inr k" and "map_of rb k = Some v"
  shows "cf k d = Inr v"
proof -
  from assms(1,5) obtain d' where "d' \<in> D" "kf d' = Inr k" "cf k d' = Inr v"
    by (auto simp: cache_sound_def)
  with assms(2-4) show ?thesis unfolding key_determines_def by metis
qed

lemma serve_sound:
  assumes "cache_sound D kf cf rb" and "key_determines D kf cf" and "d \<in> D"
  shows "serve kf cf rb d = serve kf cf [] d"
  using sound_hit [OF assms] by (auto simp: serve_def split: sum.split option.split)

lemma served_sound:
  assumes "cache_sound D kf cf rb" and "key_determines D kf cf" and "set data \<subseteq> D"
  shows "served kf cf rb data = served kf cf [] data"
  using assms(3) by (induction data) (simp_all add: serve_sound [OF assms(1,2)])

lemma serve_fresh: "serve kf cf [] d = Some (k, v) \<Longrightarrow> kf d = Inr k \<and> cf k d = Inr v"
  by (auto simp: serve_def split: sum.splits)

lemma in_served: "(k, v) \<in> set (served kf cf rb data) \<longleftrightarrow> (\<exists>d \<in> set data. serve kf cf rb d = Some (k, v))"
  by (induction data) (auto split: option.splits)

lemma in_served_fresh:
  "(k, v) \<in> set (served kf cf [] data) \<Longrightarrow> \<exists>d \<in> set data. kf d = Inr k \<and> cf k d = Inr v"
  by (auto simp: in_served dest: serve_fresh)

lemma cache_sound_update_all:
  assumes "cache_sound D kf cf wb" and "set data \<subseteq> D"
  shows "cache_sound D kf cf (update_all wb (served kf cf [] data))"
  unfolding cache_sound_def
proof (intro allI impI)
  fix k v assume "map_of (update_all wb (served kf cf [] data)) k = Some v"
  then consider "(k, v) \<in> set (served kf cf [] data)" | "map_of wb k = Some v"
    by (auto simp: map_of_update_all dest: map_of_SomeD split: option.splits)
  then show "\<exists>d \<in> D. kf d = Inr k \<and> cf k d = Inr v"
  proof cases
    case 1
    with assms(2) show ?thesis by (blast dest: in_served_fresh)
  next
    case 2
    with assms(1) show ?thesis by (simp add: cache_sound_def)
  qed
qed

lemma cache_sound_load [go_inv]:
  assumes "cache_ok c" and "cache_sound D kf cf (read_buffer c)" and "key_determines D kf cf"
    and "set (items_of (inner s)) \<subseteq> D"
  shows "cache_sound D kf cf (read_buffer (fst (snd (cache_load M kf cf inner (c, s)))))"
proof -
  obtain data ierr s' where "inner s = ((data, ierr), s')" by (metis prod.collapse)
  then show ?thesis
    using assms served_sound [OF assms(2,3), of data]
    by (simp add: cache_load_result cache_sound_update_all cache_ok_def)
qed

text \<open>A key served by the last load is served from the buffer, whatever the cache function.\<close>

lemma serve_hit: "kf d = Inr k \<Longrightarrow> map_of rb k = Some v \<Longrightarrow> serve kf cf rb d = Some (k, v)"
  by (simp add: serve_def)

subsection \<open>The reference without buffers\<close>

fun uncached_loop ::
  "multierr \<Rightarrow> ('d \<Rightarrow> go_error + 'k) \<Rightarrow> ('k \<Rightarrow> 'd \<Rightarrow> go_error + 'i) \<Rightarrow>
   'd list \<Rightarrow> 'i list \<Rightarrow> go_error option \<Rightarrow> 'i load" where
  "uncached_loop M kf cf [] out errs = (out, errs)"
| "uncached_loop M kf cf (d # data) out errs =
     (case kf d of
        Inl err \<Rightarrow> uncached_loop M kf cf data out
          (m_append M errs (Some (Wrapf ''key error for item'' err)))
      | Inr k \<Rightarrow>
          (case cf k d of
             Inl err \<Rightarrow> uncached_loop M kf cf data out
               (m_append M errs (Some (Wrapf ''cache error for key'' err)))
           | Inr v \<Rightarrow> uncached_loop M kf cf data (out @ [v]) errs))"

definition uncached_load ::
  "multierr \<Rightarrow> ('d \<Rightarrow> go_error + 'k) \<Rightarrow> ('k \<Rightarrow> 'd \<Rightarrow> go_error + 'i) \<Rightarrow> ('s, 'd) source \<Rightarrow> ('s, 'i) source" where
  "uncached_load M kf cf inner s =
     (case inner s of ((data, inner_err), s') \<Rightarrow>
        (uncached_loop M kf cf data []
           (case inner_err of None \<Rightarrow> None | Some e \<Rightarrow> m_append M None (Some e)), s'))"

lemma cache_loop_uncached:
  assumes "cache_sound D kf cf rb" and "key_determines D kf cf" and "set data \<subseteq> D"
  shows "fst (cache_loop M kf cf rb data out errs wb) = uncached_loop M kf cf data out errs"
  using assms(3)
proof (induction data arbitrary: out errs wb)
  case (Cons d data)
  then have "map_of rb k = Some v \<Longrightarrow> kf d = Inr k \<Longrightarrow> cf k d = Inr v" for k v
    using sound_hit [OF assms(1,2)] by simp
  with Cons show ?case by (auto split: sum.split option.split)
qed simp

lemma cache_load_uncached:
  assumes "cache_ok c" and "cache_sound D kf cf (read_buffer c)" and "key_determines D kf cf"
    and "set (items_of (inner s)) \<subseteq> D"
  shows "fst (cache_load M kf cf inner (c, s)) = fst (uncached_load M kf cf inner s)"
    and "snd (snd (cache_load M kf cf inner (c, s))) = snd (uncached_load M kf cf inner s)"
  using cache_loop_uncached [OF assms(2,3)] assms(4)
  by (simp_all add: cache_load.simps uncached_load_def Let_def case_prod_beta)

lemma cache_run_uncached:
  assumes "cache_ok c" and "cache_sound UNIV kf cf (read_buffer c)" and "key_determines UNIV kf cf"
  shows "fst (load_n n (cache_load M kf cf inner) (c, s)) = fst (load_n n (uncached_load M kf cf inner) s)"
  using assms(1,2)
proof (induction n arbitrary: c s)
  case (Suc n)
  obtain r c' s' where step: "cache_load M kf cf inner (c, s) = (r, (c', s'))"
    by (metis prod.collapse)
  from step Suc.prems have ok: "cache_ok c'" using cache_ok_load [of c M kf cf inner s] by simp
  from step Suc.prems assms(3) have sound: "cache_sound UNIV kf cf (read_buffer c')"
    using cache_sound_load [of c UNIV kf cf inner s M] by simp
  from step Suc.prems assms(3) have "uncached_load M kf cf inner s = (r, s')"
    using cache_load_uncached [of c UNIV kf cf inner s M] by (metis fst_conv prod.collapse snd_conv subset_UNIV)
  with step Suc.IH [OF ok sound, of s'] show ?case by (simp add: case_prod_beta)
qed simp

subsection \<open>Properties\<close>

text \<open>C17:
  A composite loads every sub-source once, in order, each in the state its predecessor left.
  Its items are those of the sub-sources that reported no error; a sub-source that reports
  an error contributes its error and none of its items; no error is lost or reordered.\<close>

theorem composite_load_spec:
  assumes "multierr_ok M" and "load_all sources s = (rs, s')"
  shows "items_of (composite_load M sources s) = concat (map fst (filter (\<lambda>r. snd r = None) rs)) \<and>
    m_errors M (error_of (composite_load M sources s)) = concat (map (\<lambda>r. m_errors M (snd r)) rs) \<and>
    snd (composite_load M sources s) = s'"
  using assms multierr_errors_Nil [OF assms(1), of None]
  by (simp_all add: composite_load_def composite_loop_items composite_loop_errors composite_loop_state)

theorem composite_load_spec_witness:
  "items_of (composite_load multierr_list
      [make_source [1::nat, 2], (\<lambda>s. (([3], Some (Errorf ''e'')), s)), make_source [4]] ()) = [1, 2, 4]"
  using composite_load_spec [of multierr_list
      "[make_source [1::nat, 2], (\<lambda>s. (([3], Some (Errorf ''e'')), s)), make_source [4]]" "()"
      "[([1, 2], None), ([3], Some (Errorf ''e'')), ([4], None)]" "()"]
  by (simp add: make_source_def make_source_func_def)

text \<open>
  A source wrapped by \<open>once\<close> is loaded by the first call only: every one of \<open>n + 1\<close> calls
  returns the items and the error of that first load, and the inner source has made one step.\<close>

theorem once_loads_inner_once:
  "load_n (Suc n) (once_load inner) (new_once, s) =
     (replicate (Suc n) (fst (inner s)),
      (\<lparr>once_called = True, once_data = items_of (inner s), once_err = error_of (inner s)\<rparr>,
       snd (inner s)))"
proof -
  obtain data err s' where "inner s = ((data, err), s')" by (metis prod.collapse)
  then show ?thesis
    using once_load_first [of new_once inner s data err s' n] by (simp add: new_once_def)
qed

text \<open>
  Where the key of an item determines what the cache function gives for it, any number of
  loads through the double-buffered cache, from an empty cache, returns exactly the items
  and errors that loading without a cache returns.\<close>

theorem cache_refines_uncached:
  assumes "key_determines UNIV kf cf"
  shows "fst (load_n n (cache_load M kf cf inner) (new_cache, s)) =
         fst (load_n n (uncached_load M kf cf inner) s)"
  using cache_run_uncached [OF cache_ok_new _ assms, where M = M and n = n and inner = inner and s = s]
  by (simp add: new_cache_def)

theorem cache_refines_uncached_witness:
  "fst (load_n 2 (cache_load multierr_list (\<lambda>d::nat. if d = 0 then Inl (Errorf ''k'') else Inr d)
      (\<lambda>k d. Inr (k * k)) (make_source [1, 0, 2])) (new_cache, ())) =
   [([1, 4], Some (Multi [Wrapf ''key error for item'' (Errorf ''k'')])),
    ([1, 4], Some (Multi [Wrapf ''key error for item'' (Errorf ''k'')]))]"
proof -
  have "key_determines UNIV (\<lambda>d::nat. if d = 0 then Inl (Errorf ''k'') else Inr d) (\<lambda>k d. Inr (k * k))"
    by (simp add: key_determines_def)
  from cache_refines_uncached [OF this, of 2 multierr_list "make_source [1, 0, 2]" "()"]
  show ?thesis
    by (simp add: numeral_2_eq_2 uncached_load_def make_source_def make_source_func_def)
qed

text \<open>
  After a load the buffer holds exactly the keys served by that load: entries of items that
  are gone (or whose key changed) are evicted, whatever the buffer held before.\<close>

theorem cache_evicts_unserved:
  assumes "cache_ok c" and "inner s = ((data, ierr), s')"
  shows "fst ` set (read_buffer (fst (snd (cache_load M kf cf inner (c, s))))) =
         fst ` set (served kf cf (read_buffer c) data)"
  using assms by (simp add: cache_load_result cache_ok_def)

theorem cache_evicts_unserved_witness:
  "fst ` set (read_buffer (fst (snd (cache_load multierr_list (Inr :: nat \<Rightarrow> go_error + nat) (\<lambda>k d. Inr d)
      (make_source [5, 6]) (\<lparr>read_buffer = [(7, 7), (5, 5)], write_buffer = []\<rparr>, ()))))) = {5, 6}"
  using cache_evicts_unserved [of "\<lparr>read_buffer = [(7::nat, 7::nat), (5, 5)], write_buffer = []\<rparr>"
      "make_source [5, 6]" "()" "[5, 6]" None "()" multierr_list Inr "\<lambda>k d. Inr d"]
  by (simp add: cache_ok_def gomap_ok_def make_source_def make_source_func_def serve_def)

end
