(* ===== verification/Policy_Types.thy ===== *)
theory Policy_Types
  imports Prelude
begin

section \<open>Validating policies and their CEL types\<close>

text \<open>
  The Kyverno \<open>ValidatingPolicy\<close> resource (the Go type is declared by Kyverno) with the fields the
  code reads one by one and the others together, the constants of \<open>apis/v1alpha1\<close>, the CEL types the libraries declare
  and the errors of \<open>field.ErrorList\<close>. Two methods of the resource are Kyverno's:
  \<open>Spec.EvaluationMode()\<close> and \<open>GetFailurePolicy()\<close> are the fields of \<open>vpol_api\<close>.
\<close>

subsection \<open>The resource\<close>

record validation =
  vl_expression :: string
  vl_message :: string
  vl_reason :: "string option"
  vl_message_expression :: string

record policy_variable =
  vr_name :: string
  vr_expression :: string

record match_condition =
  mc_name :: string
  mc_expression :: string

text \<open>
  \<open>sp_evaluation\<close> is the mode of the evaluation configuration, \<open>None\<close> when it is nil. Fields that
  no code of the repository reads are kept by name with their JSON text: in \<open>sp_other\<close> those of the
  spec (match constraints, audit annotations, validation actions, webhook configuration and the rest
  of the evaluation configuration), in \<open>vp_meta\<close> the labels, annotations and other metadata.
\<close>

record vpol_spec =
  sp_evaluation :: "string option"
  sp_validations :: "validation list"
  sp_variables :: "policy_variable list"
  sp_match_conditions :: "match_condition list"
  sp_failure_policy :: "string option"
  sp_other :: "(string, string) gomap"

record vpol =
  vp_name :: string
  vp_resource_version :: string
  vp_meta :: "(string, string) gomap"
  vp_spec :: vpol_spec

definition EvaluationModeEnvoy :: string where "EvaluationModeEnvoy = ''Envoy''"
definition EvaluationModeHTTP :: string where "EvaluationModeHTTP = ''HTTP''"

record vpol_api =
  api_evaluation_mode :: "vpol_spec \<Rightarrow> string"
  api_failure_policy :: "vpol \<Rightarrow> string"

text \<open>Documented: a mode that is set is the evaluation mode, a policy that is set is the failure policy.\<close>

definition vpol_api_ok :: "vpol_api \<Rightarrow> bool" where
  "vpol_api_ok A \<longleftrightarrow>
     (\<forall>s m. sp_evaluation s = Some m \<and> m \<noteq> [] \<longrightarrow> api_evaluation_mode A s = m) \<and>
     (\<forall>p f. sp_failure_policy (vp_spec p) = Some f \<longrightarrow> api_failure_policy A p = f)"

text \<open>An instance for concrete inputs: Kubernetes mode and \<open>Fail\<close> are the defaults.\<close>

definition kyverno_api :: vpol_api where
  "kyverno_api = \<lparr>
     api_evaluation_mode = (\<lambda>s. case sp_evaluation s of
        Some m \<Rightarrow> if m = [] then ''Kubernetes'' else m | None \<Rightarrow> ''Kubernetes''),
     api_failure_policy = (\<lambda>p. case sp_failure_policy (vp_spec p) of
        Some f \<Rightarrow> f | None \<Rightarrow> ''Fail'')\<rparr>"

lemma kyverno_api_ok [simp]: "vpol_api_ok kyverno_api"
  by (simp add: vpol_api_ok_def kyverno_api_def)

subsection \<open>CEL types\<close>

datatype cel_type =
    Bool_t | Null_t | Int_t | String_t | Bytes_t | Double_t | Dyn_t
  | List_t cel_type
  | Object_t string
  | Opaque_t string
  | Type_t cel_type

subsection \<open>Field errors\<close>

datatype path_elem = Child string | Index nat

datatype field_error =
    Invalid "path_elem list" string string
  | Internal_error go_error

text \<open>
  \<open>ErrorList.ToAggregate\<close> is a method of the Kubernetes API machinery: a parameter. Documented:
  it is nil exactly for an empty list.
\<close>

definition aggregate_ok :: "(field_error list \<Rightarrow> go_error option) \<Rightarrow> bool" where
  "aggregate_ok agg \<longleftrightarrow> (\<forall>errs. agg errs = None \<longleftrightarrow> errs = [])"

definition aggregate_list :: "field_error list \<Rightarrow> go_error option" where
  "aggregate_list errs =
     (if errs = [] then None
      else Some (Multi (map (\<lambda>e. case e of
        Invalid path v d \<Rightarrow> Errorf d | Internal_error err \<Rightarrow> Wrapf ''Internal error'' err) errs)))"

lemma aggregate_list_ok [simp]: "aggregate_ok aggregate_list"
  by (simp add: aggregate_ok_def aggregate_list_def)

end
