(* ===== verification/Policy_Proto.thy ===== *)
theory Policy_Proto
  imports Policy_Types
begin

section \<open>Policies on the wire\<close>

text \<open>
  Models \<open>pkg/control-plane/validating_policy.go\<close>: the conversion of a policy to the protobuf
  message the control plane sends, and back. The message types mirror the generated Go
  structs; a nil pointer is \<open>None\<close>. \<open>from_proto\<close> panics where the Go code dereferences nil.
\<close>

record proto_validation =
  pv_expression :: string
  pv_message :: "string option"
  pv_reason :: "string option"
  pv_message_expression :: "string option"

record proto_variable =
  pr_name :: string
  pr_expression :: string

record proto_match_condition =
  pm_name :: string
  pm_expression :: string

record proto_spec =
  ps_evaluation_mode :: string
  ps_validations :: "proto_validation list"
  ps_variables :: "proto_variable list"
  ps_match_conditions :: "proto_match_condition list"
  ps_failure_policy :: "string option"
  ps_validation_actions :: string

record proto_policy =
  pp_name :: string
  pp_spec :: "proto_spec option"
  pp_delete :: bool

definition to_proto :: "vpol_api \<Rightarrow> vpol \<Rightarrow> proto_policy" where
  "to_proto api pol =
     (let spec = vp_spec pol;
          validations = map (\<lambda>v. \<lparr>pv_expression = vl_expression v, pv_message = Some (vl_message v),
                                  pv_reason = vl_reason v, pv_message_expression = None\<rparr>) (sp_validations spec);
          variables = map (\<lambda>v. \<lparr>pr_name = vr_name v, pr_expression = vr_expression v\<rparr>) (sp_variables spec);
          match_conds = map (\<lambda>m. \<lparr>pm_name = mc_name m, pm_expression = mc_expression m\<rparr>)
                          (sp_match_conditions spec);
          fp = (case sp_failure_policy spec of Some f \<Rightarrow> f | None \<Rightarrow> ''Ignore'')
      in \<lparr>pp_name = vp_name pol,
          pp_spec = Some \<lparr>
            ps_evaluation_mode = api_evaluation_mode api spec,
            ps_validations = validations,
            ps_variables = variables,
            ps_match_conditions = match_conds,
            ps_failure_policy = Some fp,
            ps_validation_actions = []\<rparr>,
          pp_delete = False\<rparr>)"

fun from_validations :: "proto_validation list \<Rightarrow> validation list \<Rightarrow> validation list outcome" where
  "from_validations [] validations = Ret validations"
| "from_validations (v # vs) validations =
     (case pv_message v of
        None \<Rightarrow> Panic ''nil pointer dereference''
      | Some message \<Rightarrow>
          from_validations vs (validations @
            [\<lparr>vl_expression = pv_expression v, vl_message = message, vl_reason = pv_reason v,
               vl_message_expression = []\<rparr>]))"

definition from_proto :: "proto_policy \<Rightarrow> vpol outcome" where
  "from_proto pol =
     (case pp_spec pol of
        None \<Rightarrow> Panic ''nil pointer dereference''
      | Some spec \<Rightarrow>
          bind_outcome (from_validations (ps_validations spec) []) (\<lambda>validations.
            let variables = map (\<lambda>v. \<lparr>vr_name = pr_name v, vr_expression = pr_expression v\<rparr>) (ps_variables spec);
                match_conds = map (\<lambda>m. \<lparr>mc_name = pm_name m, mc_expression = pm_expression m\<rparr>)
                                (ps_match_conditions spec);
                eval_mode = (if ps_evaluation_mode spec = ''Envoy'' then EvaluationModeEnvoy
                             else if ps_evaluation_mode spec = ''HTTP'' then EvaluationModeHTTP else []);
                fp = (case ps_failure_policy spec of Some f \<Rightarrow> f | None \<Rightarrow> ''Ignore'')
            in Ret \<lparr>vp_name = pp_name pol, vp_resource_version = [], vp_meta = [],
                    vp_spec = \<lparr>
                      sp_evaluation = Some eval_mode,
                      sp_validations = validations,
                      sp_variables = variables,
                      sp_match_conditions = match_conds,
                      sp_failure_policy = Some fp,
                      sp_other = []\<rparr>\<rparr>))"

lemma map_rebuilt [simp]:
  "map (\<lambda>v. \<lparr>vr_name = vr_name v, vr_expression = vr_expression v\<rparr>) vs = vs"
  "map (\<lambda>m. \<lparr>mc_name = mc_name m, mc_expression = mc_expression m\<rparr>) ms = ms"
  "map (\<lambda>v. \<lparr>pr_name = pr_name v, pr_expression = pr_expression v\<rparr>) pvs = pvs"
  "map (\<lambda>m. \<lparr>pm_name = pm_name m, pm_expression = pm_expression m\<rparr>) pms = pms"
  by (rule map_idI; simp)+

subsection \<open>Properties\<close>

lemma from_validations_eq:
  "from_validations vs out = Ret res \<longleftrightarrow>
   list_all (\<lambda>v. pv_message v \<noteq> None) vs \<and>
   res = out @ map (\<lambda>v. \<lparr>vl_expression = pv_expression v, vl_message = the (pv_message v), vl_reason = pv_reason v,
     vl_message_expression = []\<rparr>) vs"
  by (induction vs arbitrary: out) (auto split: option.split)

definition authz_mode :: "string \<Rightarrow> bool" where
  "authz_mode mode \<longleftrightarrow> mode = EvaluationModeEnvoy \<or> mode = EvaluationModeHTTP"

lemmas mode_defs = authz_mode_def EvaluationModeEnvoy_def EvaluationModeHTTP_def

text \<open>What is left of a policy after it was sent.\<close>

definition transported :: "vpol_api \<Rightarrow> vpol \<Rightarrow> vpol" where
  "transported api pol = pol\<lparr>vp_resource_version := [], vp_meta := [],
     vp_spec := (vp_spec pol)\<lparr>
       sp_validations := map (\<lambda>v. v\<lparr>vl_message_expression := []\<rparr>) (sp_validations (vp_spec pol)), sp_other := [],
       sp_evaluation := Some (api_evaluation_mode api (vp_spec pol)),
       sp_failure_policy := Some (case sp_failure_policy (vp_spec pol) of Some f \<Rightarrow> f | None \<Rightarrow> ''Ignore'')\<rparr>\<rparr>"

lemma validation_update:
  "v\<lparr>vl_message_expression := e\<rparr> = \<lparr>vl_expression = vl_expression v, vl_message = vl_message v,
     vl_reason = vl_reason v, vl_message_expression = e\<rparr>"
  by simp

lemma from_to_proto:
  assumes "authz_mode (api_evaluation_mode api (vp_spec pol))"
  shows "from_proto (to_proto api pol) = Ret (transported api pol)"
proof -
  have "from_validations (map (\<lambda>v. \<lparr>pv_expression = vl_expression v, pv_message = Some (vl_message v),
      pv_reason = vl_reason v, pv_message_expression = None\<rparr>) vs) [] =
      Ret (map (\<lambda>v. v\<lparr>vl_message_expression := []\<rparr>) vs)" for vs :: "validation list"
    unfolding from_validations_eq by (simp add: list_all_iff)
  with assms show ?thesis
    by (cases pol; cases "vp_spec pol")
      (auto simp: from_proto_def to_proto_def transported_def Let_def comp_def mode_defs)
qed

text \<open>C21:
  What a policy of the Envoy or HTTP mode is after it was sent to an authorization server and read
  back: it has its name, its evaluation mode, its variables and match conditions, of each
  validation the expression, message and reason, and its failure policy, Ignore when it had none.
  Everything else is lost: the message expressions, the resource version, the labels, annotations
  and other metadata, and the other fields of the spec, such as its match constraints.\<close>

theorem proto_round_trip:
  assumes "authz_mode (api_evaluation_mode api (vp_spec pol))"
  shows "from_proto (to_proto api pol) = Ret \<lparr>vp_name = vp_name pol, vp_resource_version = [], vp_meta = [],
    vp_spec = \<lparr>sp_evaluation = Some (api_evaluation_mode api (vp_spec pol)),
      sp_validations = map (\<lambda>v. \<lparr>vl_expression = vl_expression v, vl_message = vl_message v,
        vl_reason = vl_reason v, vl_message_expression = []\<rparr>) (sp_validations (vp_spec pol)),
      sp_variables = sp_variables (vp_spec pol),
      sp_match_conditions = sp_match_conditions (vp_spec pol),
      sp_failure_policy = Some (case sp_failure_policy (vp_spec pol) of Some f \<Rightarrow> f | None \<Rightarrow> ''Ignore''),
      sp_other = []\<rparr>\<rparr>"
  using from_to_proto [OF assms] by (simp add: transported_def validation_update)

definition sample_policy :: vpol where
  "sample_policy = \<lparr>vp_name = ''p'', vp_resource_version = ''7'', vp_meta = [(''labels'', ''{}'')], vp_spec = \<lparr>
     sp_evaluation = Some ''HTTP'',
     sp_validations = [\<lparr>vl_expression = ''http.Allowed().Response()'', vl_message = ''m'', vl_reason = None,
       vl_message_expression = ''object.host''\<rparr>],
     sp_variables = [\<lparr>vr_name = ''a'', vr_expression = ''1''\<rparr>],
     sp_match_conditions = [\<lparr>mc_name = ''c'', mc_expression = ''true''\<rparr>],
     sp_failure_policy = None, sp_other = [(''matchConstraints'', ''{}'')]\<rparr>\<rparr>"

lemma sample_mode: "authz_mode (api_evaluation_mode kyverno_api (vp_spec sample_policy))"
  by (simp add: sample_policy_def kyverno_api_def mode_defs)

theorem proto_round_trip_witness:
  "from_proto (to_proto kyverno_api sample_policy) =
   Ret (sample_policy\<lparr>vp_resource_version := [], vp_meta := [], vp_spec := (vp_spec sample_policy)\<lparr>
     sp_validations := [\<lparr>vl_expression = ''http.Allowed().Response()'', vl_message = ''m'', vl_reason = None,
       vl_message_expression = []\<rparr>],
     sp_failure_policy := Some ''Ignore'', sp_other := []\<rparr>\<rparr>)"
  using proto_round_trip [OF sample_mode] by (simp add: sample_policy_def kyverno_api_def)

lemma from_proto_ok:
  "(\<exists>p. from_proto q = Ret p) \<longleftrightarrow>
   (\<exists>spec. pp_spec q = Some spec \<and> list_all (\<lambda>v. pv_message v \<noteq> None) (ps_validations spec))"
  by (auto simp: from_proto_def bind_outcome_eq_Ret from_validations_eq Let_def split: option.splits)

text \<open>The fields of a message that the conversion leaves alone.\<close>

definition unused_fields_empty :: "proto_spec \<Rightarrow> bool" where
  "unused_fields_empty spec \<longleftrightarrow>
     ps_validation_actions spec = [] \<and> list_all (\<lambda>v. pv_message_expression v = None) (ps_validations spec)"

lemma to_from_proto:
  assumes "vpol_api_ok api" and "from_proto q = Ret p" and "pp_spec q = Some spec" and "unused_fields_empty spec"
    and "authz_mode (ps_evaluation_mode spec)" and "ps_failure_policy spec = Some fp" and "\<not> pp_delete q"
  shows "to_proto api p = q"
proof -
  let ?read = "\<lambda>v. \<lparr>vl_expression = pv_expression v, vl_message = the (pv_message v), vl_reason = pv_reason v,
    vl_message_expression = []\<rparr>"
  have p: "vp_name p = pp_name q" "sp_validations (vp_spec p) = map ?read (ps_validations spec)"
      "sp_variables (vp_spec p) = map (\<lambda>v. \<lparr>vr_name = pr_name v, vr_expression = pr_expression v\<rparr>) (ps_variables spec)"
      "sp_match_conditions (vp_spec p) = map (\<lambda>m. \<lparr>mc_name = pm_name m, mc_expression = pm_expression m\<rparr>)
         (ps_match_conditions spec)"
      "sp_failure_policy (vp_spec p) = Some fp" "sp_evaluation (vp_spec p) = Some (ps_evaluation_mode spec)"
    and read: "list_all (\<lambda>v. pv_message v \<noteq> None) (ps_validations spec)"
    using assms(2,3,5,6)
    by (auto simp: from_proto_def bind_outcome_eq_Ret from_validations_eq Let_def mode_defs)
  have validations: "map (\<lambda>v. \<lparr>pv_expression = vl_expression (?read v), pv_message = Some (vl_message (?read v)),
      pv_reason = vl_reason (?read v), pv_message_expression = None\<rparr>) (ps_validations spec) = ps_validations spec"
    using read assms(4) by (intro map_idI) (auto simp: list_all_iff unused_fields_empty_def)
  have "api_evaluation_mode api (vp_spec p) = ps_evaluation_mode spec"
    using assms(1,5) p(6) by (auto simp: vpol_api_ok_def mode_defs)
  then show ?thesis
    using assms(3,4,6,7) p validations by (simp add: to_proto_def Let_def comp_def unused_fields_empty_def)
qed

text \<open>
  Reading a message and sending it again gives the same message, for every message that is a
  policy of the Envoy or HTTP mode with a failure policy and without the two fields that are never
  read, the validation actions and the message expressions; and reading a message succeeds
  exactly when it has a spec whose validations all carry a message text. A message that lacks
  one of them, such as a deletion, makes the reader panic.\<close>

theorem proto_reads_complete_messages:
  assumes "vpol_api_ok api"
  shows "((\<exists>p. from_proto q = Ret p) \<longleftrightarrow>
     (\<exists>spec. pp_spec q = Some spec \<and> list_all (\<lambda>v. pv_message v \<noteq> None) (ps_validations spec))) \<and>
   (\<forall>p spec. from_proto q = Ret p \<and> pp_spec q = Some spec \<and> authz_mode (ps_evaluation_mode spec) \<and>
      unused_fields_empty spec \<and> ps_failure_policy spec \<noteq> None \<and> \<not> pp_delete q \<longrightarrow> to_proto api p = q)"
  using from_proto_ok [of q] to_from_proto [OF assms, of q] by auto

theorem proto_reads_complete_messages_witness:
  "\<not> (\<exists>p. from_proto \<lparr>pp_name = ''p'', pp_spec = None, pp_delete = True\<rparr> = Ret p)"
  using proto_reads_complete_messages [OF kyverno_api_ok, of "\<lparr>pp_name = ''p'', pp_spec = None, pp_delete = True\<rparr>"]
  by simp

text \<open>
  A policy without a failure policy, which fails closed where it is read from the cluster (the
  default of the resource is Fail), fails open where it is read from the control plane.\<close>

theorem transport_opens_failure_policy:
  assumes "vpol_api_ok api" and "authz_mode (api_evaluation_mode api (vp_spec pol))"
    and "sp_failure_policy (vp_spec pol) = None"
  shows "\<exists>p. from_proto (to_proto api pol) = Ret p \<and> api_failure_policy api p = ''Ignore''"
  using assms from_to_proto [OF assms(2)] by (auto simp: vpol_api_ok_def transported_def)

theorem transport_opens_failure_policy_witness:
  "api_failure_policy kyverno_api sample_policy = ''Fail'' \<and>
   (\<exists>p. from_proto (to_proto kyverno_api sample_policy) = Ret p \<and> api_failure_policy kyverno_api p = ''Ignore'')"
  using transport_opens_failure_policy [OF kyverno_api_ok sample_mode]
  by (simp add: sample_policy_def kyverno_api_def)

end
