(* ===== verification/Keyed_Sources.thy ===== *)
theory Keyed_Sources
  imports Sources Policy_Proto
begin

section \<open>Sources that track objects by key\<close>

text \<open>
  Models \<open>sdk/extensions/controller-runtime/source.go\<close>, \<open>pkg/engine/sources/listener.go\<close> and
  \<open>pkg/utils/map.go\<close>. Both sources keep a map guarded by a lock, change it on events and load
  its values in the order of the sorted keys. What an event says is the function \<open>change\<close> of
  the locale \<open>keyed_store\<close>; its laws are the contract of the two handlers (and of the policy
  map of the control plane's sender), and its snapshot lemma gives the meaning of \<open>Load\<close>.
  Each handler body runs under the lock, so one event is one atomic step. Keys are compared
  bytewise, as Go compares strings.
\<close>

definition sorted_values :: "('k::linorder, 'v) gomap \<Rightarrow> 'v list" where
  "sorted_values m = map (\<lambda>k. the (map_of m k)) (sort (map fst m))"

definition to_sorted_slice :: "('k::linorder, 'v) gomap option \<Rightarrow> 'v list" where
  "to_sorted_slice m = (case m of None \<Rightarrow> [] | Some m \<Rightarrow> sorted_values m)"

text \<open>The values of a finite map in the order of its keys.\<close>

definition values_by_key :: "('k::linorder \<Rightarrow> 'v option) \<Rightarrow> 'v list" where
  "values_by_key f = map (\<lambda>k. the (f k)) (sorted_list_of_set (dom f))"

lemma sort_keys: "gomap_ok m \<Longrightarrow> sort (map fst m) = sorted_list_of_set (fst ` set m)"
  by (metis distinct_remdups_id gomap_ok_def list.set_map sorted_list_of_set_sort_remdups)

lemma sorted_values_by_key: "gomap_ok m \<Longrightarrow> sorted_values m = values_by_key (map_of m)"
  by (simp add: sorted_values_def values_by_key_def sort_keys dom_map_of_conv_image_fst)

subsection \<open>The contract of an event handler\<close>

lemma update_values: "snd ` set (AList.update k v m) \<subseteq> insert v (snd ` set m)"
  by (induction m) auto

lemma delete_values: "snd ` set (AList.delete k m) \<subseteq> snd ` set m"
  by (induction m) auto

text \<open>What a sequence of events leaves for a key: the last change of that key.\<close>

definition last_changes :: "('ev \<Rightarrow> ('k \<times> 'v option) option) \<Rightarrow> 'ev list \<Rightarrow> 'k \<Rightarrow> 'v option" where
  "last_changes change evs k =
     (case map_of (rev (List.map_filter change evs)) k of Some v \<Rightarrow> v | None \<Rightarrow> None)"

lemma last_changes_Nil [simp]: "last_changes change [] k = None"
  by (simp add: last_changes_def map_filter_simps)

lemma last_changes_snoc [simp]:
  "last_changes change (evs @ [ev]) k =
     (case change ev of
        Some (k', v) \<Rightarrow> if k = k' then v else last_changes change evs k
      | None \<Rightarrow> last_changes change evs k)"
  by (auto simp: last_changes_def List.map_filter_def split: option.splits)

lemma last_changes_append:
  "last_changes change (evs @ evs') k =
     (if \<exists>ev \<in> set evs'. \<exists>v. change ev = Some (k, v) then last_changes change evs' k else last_changes change evs k)"
proof (induction evs' rule: rev_induct)
  case (snoc ev evs')
  have "last_changes change (evs @ evs' @ [ev]) k = last_changes change ((evs @ evs') @ [ev]) k" by simp
  also have "\<dots> = (if \<exists>ev \<in> set (evs' @ [ev]). \<exists>v. change ev = Some (k, v)
      then last_changes change (evs' @ [ev]) k else last_changes change evs k)"
    unfolding last_changes_snoc by (auto simp: snoc.IH split: option.split)
  finally show ?case .
qed simp

lemma last_changes_cong:
  assumes "\<forall>ev \<in> set evs. \<forall>v. change ev = Some (k, v) \<longrightarrow> v = w"
  shows "last_changes change evs k = (if \<exists>ev \<in> set evs. \<exists>v. change ev = Some (k, v) then w else None)"
  using assms by (induction evs rule: rev_induct) (auto split: option.split)

lemma last_changes_filter:
  "(\<forall>ev v. change ev = Some (k, v) \<longrightarrow> P ev) \<Longrightarrow> last_changes change (filter P evs) k = last_changes change evs k"
  by (induction evs rule: rev_induct) (auto split: option.split)

locale keyed_store =
  fixes apply_event :: "'ev \<Rightarrow> ('k::linorder, 'v) gomap \<Rightarrow> ('k, 'v) gomap"
    and change :: "'ev \<Rightarrow> ('k \<times> 'v option) option"
  assumes event_ok: "gomap_ok m \<Longrightarrow> gomap_ok (apply_event ev m)"
    and event_lookup: "map_of (apply_event ev m) k =
      (case change ev of None \<Rightarrow> map_of m k | Some (k', v) \<Rightarrow> if k = k' then v else map_of m k)"
begin

lemma events_ok: "gomap_ok m \<Longrightarrow> gomap_ok (fold apply_event evs m)"
  by (induction evs arbitrary: m) (simp_all add: event_ok)

lemma events_lookup: "map_of (fold apply_event evs []) k = last_changes change evs k"
  by (induction evs rule: rev_induct) (auto simp: event_lookup split: option.split)

lemma events_lookup_from:
  "map_of (fold apply_event evs m) k =
     (if \<exists>ev \<in> set evs. \<exists>v. change ev = Some (k, v) then last_changes change evs k else map_of m k)"
  by (induction evs rule: rev_induct) (auto simp: event_lookup split: option.split)

lemma snapshot: "sorted_values (fold apply_event evs []) = values_by_key (last_changes change evs)"
proof -
  have "map_of (fold apply_event evs []) = last_changes change evs"
    by (rule ext) (rule events_lookup)
  then show ?thesis by (simp add: sorted_values_by_key events_ok)
qed

end

subsection \<open>The source of a controller\<close>

text \<open>
  The client is third-party: \<open>Found\<close>, \<open>Not_found\<close> and \<open>Get_error\<close> are the answers of its \<open>Get\<close>.
  The state is the map of resources; a reconciliation returns its error.
\<close>

datatype 'v get_result = Found 'v | Not_found | Get_error go_error

definition new_api_source :: "(string, 'v) gomap" where
  "new_api_source = []"

definition api_reconcile ::
  "(string \<Rightarrow> 'v get_result) \<Rightarrow> string \<Rightarrow> (string, 'v) gomap \<Rightarrow> go_error option \<times> (string, 'v) gomap" where
  "api_reconcile get req resources =
     (case get req of
        Not_found \<Rightarrow> (None, AList.delete req resources)
      | Get_error err \<Rightarrow> (Some err, resources)
      | Found obj \<Rightarrow> (None, AList.update req obj resources))"

definition api_load :: "((string, 'v) gomap, 'v) source" where
  "api_load resources = ((sorted_values resources, None), resources)"

text \<open>An event is a request with the answer the client gave to it.\<close>

definition api_event :: "string \<times> 'v get_result \<Rightarrow> (string, 'v) gomap \<Rightarrow> (string, 'v) gomap" where
  "api_event ev m = (case ev of (req, res) \<Rightarrow> snd (api_reconcile (\<lambda>_. res) req m))"

fun api_change :: "string \<times> 'v get_result \<Rightarrow> (string \<times> 'v option) option" where
  "api_change (req, Found obj) = Some (req, Some obj)"
| "api_change (req, Not_found) = Some (req, None)"
| "api_change (req, Get_error err) = None"

interpretation api: keyed_store api_event api_change
proof
  fix m :: "(string, 'v) gomap" and ev :: "string \<times> 'v get_result" and k
  show "gomap_ok m \<Longrightarrow> gomap_ok (api_event ev m)"
    by (cases ev; cases "snd ev") (auto simp: api_event_def api_reconcile_def)
  show "map_of (api_event ev m) k = (case api_change ev of None \<Rightarrow> map_of m k
      | Some (k', v) \<Rightarrow> if k = k' then v else map_of m k)"
    by (cases ev; cases "snd ev") (auto simp: api_event_def api_reconcile_def)
qed

subsection \<open>The source of a listener\<close>

definition new_listener :: "(string, vpol) gomap" where
  "new_listener = []"

definition listener_process :: "proto_policy \<Rightarrow> (string, vpol) gomap \<Rightarrow> (string, vpol) gomap outcome" where
  "listener_process req resources =
     (if pp_delete req then Ret (AList.delete (pp_name req) resources)
      else bind_outcome (from_proto req) (\<lambda>pol. Ret (AList.update (pp_name req) pol resources)))"

definition listener_load :: "((string, vpol) gomap, vpol) source" where
  "listener_load resources = ((sorted_values resources, None), resources)"

text \<open>The messages a control plane sends: policies it converted, and deletions.\<close>

definition deletion :: "string \<Rightarrow> proto_policy" where
  "deletion name = \<lparr>pp_name = name, pp_spec = None, pp_delete = True\<rparr>"

datatype wire_event = Sent vpol | Deleted string

fun wire_message :: "vpol_api \<Rightarrow> wire_event \<Rightarrow> proto_policy" where
  "wire_message api (Sent p) = to_proto api p"
| "wire_message api (Deleted n) = deletion n"

text \<open>A message that panics ends the process; the model keeps the map as it was.\<close>

definition listener_event :: "proto_policy \<Rightarrow> (string, vpol) gomap \<Rightarrow> (string, vpol) gomap" where
  "listener_event req m = (case listener_process req m of Ret m' \<Rightarrow> m' | Panic _ \<Rightarrow> m)"

definition listener_change :: "proto_policy \<Rightarrow> (string \<times> vpol option) option" where
  "listener_change req =
     (if pp_delete req then Some (pp_name req, None)
      else case from_proto req of Ret p \<Rightarrow> Some (pp_name req, Some p) | Panic _ \<Rightarrow> None)"

interpretation listener: keyed_store listener_event listener_change
proof
  fix m and ev :: proto_policy and k
  show "gomap_ok m \<Longrightarrow> gomap_ok (listener_event ev m)"
    by (cases "from_proto ev") (auto simp: listener_event_def listener_process_def)
  show "map_of (listener_event ev m) k = (case listener_change ev of None \<Rightarrow> map_of m k
      | Some (k', v) \<Rightarrow> if k = k' then v else map_of m k)"
    by (cases "from_proto ev") (auto simp: listener_event_def listener_process_def listener_change_def)
qed

subsection \<open>Properties\<close>

lemma to_proto_sel: "pp_name (to_proto api p) = vp_name p" "\<not> pp_delete (to_proto api p)"
  by (simp_all add: to_proto_def Let_def)

text \<open>C20:
  The Kubernetes source follows the cluster: after any sequence of reconciliations a load
  returns, with no error, for each object the value the client answered last, none for an
  object last reported as not found, in the order of the keys; a request that failed changes
  nothing and is reported to the controller, which retries it.\<close>

theorem api_source_follows_cluster:
  "fst (api_load (fold api_event evs new_api_source)) = (values_by_key (last_changes api_change evs), None) \<and>
   (fst (api_reconcile get req m) \<noteq> None \<longleftrightarrow> (\<exists>e. get req = Get_error e)) \<and>
   (\<forall>e. get req = Get_error e \<longrightarrow> snd (api_reconcile get req m) = m)"
  by (auto simp: api_load_def new_api_source_def api.snapshot api_reconcile_def split: get_result.splits)

theorem api_source_follows_cluster_witness:
  "fst (api_load (fold api_event
      [(''b'', Found ''1''), (''a'', Found ''2''), (''b'', Found ''4''), (''c'', Found ''3''), (''c'', Not_found),
       (''a'', Get_error (Errorf ''timeout''))] new_api_source)) =
   (values_by_key [''a'' \<mapsto> ''2'', ''b'' \<mapsto> ''4''], None)"
proof -
  let ?evs = "[(''b'', Found ''1''), (''a'', Found ''2''), (''b'', Found ''4''), (''c'', Found ''3''), (''c'', Not_found),
       (''a'', Get_error (Errorf ''timeout''))]"
  have "last_changes api_change ?evs = [''a'' \<mapsto> ''2'', ''b'' \<mapsto> ''4'']"
    by (rule ext) (simp add: last_changes_def List.map_filter_def)
  then show ?thesis
    using api_source_follows_cluster [of ?evs "\<lambda>_. Not_found" "[]" "[]"] by metis
qed

text \<open>
  Where the messages of a control plane arrive in the order they were sent, the listener holds
  for each policy what was sent last: a load returns, in the order of the names, the policies
  not deleted since, as the transport leaves them; and no message makes the listener panic.\<close>

theorem listener_follows_control_plane:
  assumes "\<forall>p. Sent p \<in> set evs \<longrightarrow> authz_mode (api_evaluation_mode api (vp_spec p))"
  shows "fst (listener_load (fold listener_event (map (wire_message api) evs) new_listener)) =
     (values_by_key (last_changes (\<lambda>ev. case ev of
         Sent p \<Rightarrow> Some (vp_name p, Some (transported api p)) | Deleted n \<Rightarrow> Some (n, None)) evs), None) \<and>
   (\<forall>ev \<in> set evs. \<exists>m'. listener_process (wire_message api ev) m = Ret m')"
proof -
  have change: "listener_change (wire_message api ev) = (case ev of
      Sent p \<Rightarrow> Some (vp_name p, Some (transported api p)) | Deleted n \<Rightarrow> Some (n, None))"
    if "ev \<in> set evs" for ev
  proof (cases ev)
    case (Sent p)
    with that assms have "from_proto (to_proto api p) = Ret (transported api p)"
      by (intro from_to_proto) simp
    with Sent show ?thesis by (simp add: listener_change_def to_proto_sel)
  qed (simp add: listener_change_def deletion_def)
  have filt: "List.map_filter listener_change (map (wire_message api) evs) =
    List.map_filter (\<lambda>ev. case ev of Sent p \<Rightarrow> Some (vp_name p, Some (transported api p)) | Deleted n \<Rightarrow> Some (n, None)) evs"
    using change by (induction evs) (auto simp: map_filter_simps split: option.split)
  have "last_changes listener_change (map (wire_message api) evs) =
    last_changes (\<lambda>ev. case ev of Sent p \<Rightarrow> Some (vp_name p, Some (transported api p)) | Deleted n \<Rightarrow> Some (n, None)) evs"
    by (intro ext) (simp add: last_changes_def filt)
  moreover have "\<exists>m'. listener_process (wire_message api ev) m = Ret m'" if "ev \<in> set evs" for ev
    using change [OF that]
    by (cases ev) (auto simp: listener_process_def listener_change_def split: if_splits outcome.splits)
  ultimately show ?thesis
    by (simp add: listener_load_def new_listener_def listener.snapshot)
qed

theorem listener_follows_control_plane_witness:
  "fst (listener_load (fold listener_event
      (map (wire_message kyverno_api) [Sent sample_policy, Deleted ''q'']) new_listener)) =
   ([transported kyverno_api sample_policy], None)"
proof -
  let ?c = "\<lambda>ev. case ev of Sent p \<Rightarrow> Some (vp_name p, Some (transported kyverno_api p)) | Deleted n \<Rightarrow> Some (n, None)"
  have changes: "last_changes ?c [Sent sample_policy, Deleted ''q''] = [''p'' \<mapsto> transported kyverno_api sample_policy]"
    by (rule ext) (simp add: last_changes_def List.map_filter_def sample_policy_def)
  have "\<forall>p. Sent p \<in> set [Sent sample_policy, Deleted ''q''] \<longrightarrow> authz_mode (api_evaluation_mode kyverno_api (vp_spec p))"
    using sample_mode by simp
  then have "fst (listener_load (fold listener_event
      (map (wire_message kyverno_api) [Sent sample_policy, Deleted ''q'']) new_listener)) =
    (values_by_key (last_changes ?c [Sent sample_policy, Deleted ''q'']), None)"
    using listener_follows_control_plane by blast
  also have "values_by_key (last_changes ?c [Sent sample_policy, Deleted ''q'']) = [transported kyverno_api sample_policy]"
    unfolding changes by (simp add: values_by_key_def)
  finally show ?thesis .
qed

end
