(* ===== verification/Engine_Sources.thy ===== *)
theory Engine_Sources
  imports Stateful_Sources Fs_Source Keyed_Sources
begin

section \<open>The sources of policies\<close>

text \<open>
  Models \<open>pkg/engine/sources\<close>: the policies of a file system, of a cluster and of a control
  plane, each a pipeline over the sources of the SDK. A compiler is a function to the policy
  and its field errors. The file extension tests, the YAML splitter, the resource loader and
  its conversion are third-party: parameters; \<open>read_file\<close> is \<open>fs.ReadFile\<close> on the file system.
\<close>

type_synonym 'p compiler = "vpol \<Rightarrow> 'p \<times> field_error list"

subsection \<open>Files\<close>

record fs_lib =
  fl_is_yaml :: "string \<Rightarrow> bool"
  fl_is_json :: "string \<Rightarrow> bool"
  fl_split :: "string \<Rightarrow> go_error + string list"

definition policy_file :: "fs_lib \<Rightarrow> string \<Rightarrow> dir_entry option \<Rightarrow> bool" where
  "policy_file L path entry =
     (case entry of
        None \<Rightarrow> False
      | Some e \<Rightarrow> if de_is_dir e then False else fl_is_yaml L (de_name e) \<or> fl_is_json L (de_name e))"

definition get_documents ::
  "fs_lib \<Rightarrow> (string \<Rightarrow> go_error + string) \<Rightarrow> dir_entry option \<Rightarrow> string list \<times> go_error option" where
  "get_documents L read_file entry =
     (case entry of
        None \<Rightarrow> ([], None)
      | Some e \<Rightarrow>
          (if de_is_dir e then ([], None)
           else if fl_is_yaml L (de_name e) then
             (case read_file (de_name e) of
                Inl err \<Rightarrow> ([], Some (Wrapf (''failed to read file '' @ de_name e) err))
              | Inr bytes \<Rightarrow>
                  (case fl_split L bytes of
                     Inl err \<Rightarrow> ([], Some (Wrapf ''failed to split documents'' err))
                   | Inr documents \<Rightarrow> (documents, None)))
           else if fl_is_json L (de_name e) then
             (case read_file (de_name e) of
                Inl err \<Rightarrow> ([], Some (Wrapf (''failed to read file '' @ de_name e) err))
              | Inr doc \<Rightarrow> ([doc], None))
           else ([], None)))"

text \<open>The loader gives the kind of a document and its untyped object.\<close>

datatype gvk = ValidatingPolicyKind | OtherKind string

definition load_document ::
  "go_error + (string \<Rightarrow> go_error + (gvk \<times> 'u)) \<Rightarrow> ('u \<Rightarrow> go_error + vpol) \<Rightarrow> string \<Rightarrow>
   vpol option \<times> go_error option" where
  "load_document default_loader convert document =
     (case default_loader of
        Inl err \<Rightarrow> (None, Some (Wrapf ''failed to load CRDs'' err))
      | Inr ldr \<Rightarrow>
          (case ldr document of
             Inl err \<Rightarrow> (None, Some err)
           | Inr (kind, untyped) \<Rightarrow>
               (if kind = ValidatingPolicyKind then
                  (case convert untyped of
                     Inl err \<Rightarrow> (None, Some (Wrapf ''failed to convert to ValidatingPolicy'' err))
                   | Inr typed \<Rightarrow> (Some typed, None))
                else (None, None))))"

definition fs_compile ::
  "(field_error list \<Rightarrow> go_error option) \<Rightarrow> 'p compiler \<Rightarrow> vpol option \<Rightarrow> 'p \<times> go_error option" where
  "fs_compile agg compile p =
     (case compile (the p) of (c, errs) \<Rightarrow>
        if errs \<noteq> []
        then (c, Some (Wrapf ''failed to compile ValidatingPolicy'' (case agg errs of Some e \<Rightarrow> e | None \<Rightarrow> Multi [])))
        else (c, None))"

definition fs_policies ::
  "multierr \<Rightarrow> (field_error list \<Rightarrow> go_error option) \<Rightarrow> fs_lib \<Rightarrow> go_error + fs_node \<Rightarrow>
   (string \<Rightarrow> go_error + string) \<Rightarrow> go_error + (string \<Rightarrow> go_error + (gvk \<times> 'u)) \<Rightarrow>
   ('u \<Rightarrow> go_error + vpol) \<Rightarrow> 'p compiler \<Rightarrow> ('s, 'p) source" where
  "fs_policies M agg L root read_file default_loader convert compile =
     (let inputs = new_fs root (policy_file L);
          transform = new_transform_err M inputs (\<lambda>entry. get_documents L read_file (fse_dir_entry entry));
          flatten = new_flatten transform;
          load = new_transform_err M flatten (load_document default_loader convert);
          filtered = new_filter load (\<lambda>p. p \<noteq> None)
      in new_transform_err M filtered (fs_compile agg compile))"

text \<open>The stages of the pipeline as wrappers: documents, policies, compiled policies.\<close>

interpretation documents_w: wrapper_pair M
    "\<lambda>src. new_transform_err M src f" "accepted f" "step_faults M f" new_flatten concat "\<lambda>_. []"
  for M f
  by unfold_locales

interpretation loaded_w: wrapper_pair M
    "\<lambda>src. new_transform_err M src f" "accepted f" "step_faults M f"
    "\<lambda>src. new_filter src p" "filter p" "\<lambda>_. []"
  for M f p
  by unfold_locales

interpretation policies_w: wrapper_pair M
    "\<lambda>src. new_filter (new_transform_err M src f) p" "\<lambda>xs. filter p (accepted f xs)"
    "\<lambda>xs. step_faults M f xs @ []"
    "\<lambda>src. new_transform_err M src g" "accepted g" "step_faults M g"
  for M f p g
  by unfold_locales

subsection \<open>Clusters and control planes\<close>

definition policy_key :: "vpol \<Rightarrow> go_error + string" where
  "policy_key p = Inr (vp_name p @ vp_resource_version p)"

definition policy_cache ::
  "(field_error list \<Rightarrow> go_error option) \<Rightarrow> 'p compiler \<Rightarrow> string \<Rightarrow> vpol \<Rightarrow> go_error + 'p" where
  "policy_cache agg compile key p =
     (case compile p of (pol, errs) \<Rightarrow> (case agg errs of None \<Rightarrow> Inr pol | Some e \<Rightarrow> Inl e))"

definition kube_load ::
  "multierr \<Rightarrow> (field_error list \<Rightarrow> go_error option) \<Rightarrow> 'p compiler \<Rightarrow>
   ((string, 'p) cache \<times> (string, vpol) gomap, 'p) source" where
  "kube_load M agg compile = cache_load M policy_key (policy_cache agg compile) api_load"

definition control_plane_load ::
  "multierr \<Rightarrow> (field_error list \<Rightarrow> go_error option) \<Rightarrow> 'p compiler \<Rightarrow>
   ((string, 'p) cache \<times> (string, vpol) gomap, 'p) source" where
  "control_plane_load M agg compile = cache_load M policy_key (policy_cache agg compile) listener_load"

text \<open>The life of a Kubernetes source: reconciliations and loads in some order.\<close>

datatype kube_event = Reconciled string "vpol get_result" | Loaded

fun kube_event_step ::
  "multierr \<Rightarrow> (field_error list \<Rightarrow> go_error option) \<Rightarrow> 'p compiler \<Rightarrow> kube_event \<Rightarrow>
   (string, 'p) cache \<times> (string, vpol) gomap \<Rightarrow> (string, 'p) cache \<times> (string, vpol) gomap" where
  "kube_event_step M agg compile (Reconciled req res) (c, m) = (c, api_event (req, res) m)"
| "kube_event_step M agg compile Loaded st = snd (kube_load M agg compile st)"

definition kube_run where
  "kube_run M agg compile evs = fold (kube_event_step M agg compile) evs (new_cache, new_api_source)"

definition seen :: "kube_event list \<Rightarrow> vpol set" where
  "seen evs = {p. \<exists>req. Reconciled req (Found p) \<in> set evs}"

text \<open>The versions of one policy sent to a listener, with a load after each.\<close>

fun versions_run ::
  "multierr \<Rightarrow> (field_error list \<Rightarrow> go_error option) \<Rightarrow> 'p compiler \<Rightarrow> vpol_api \<Rightarrow> vpol list \<Rightarrow>
   (string, 'p) cache \<times> (string, vpol) gomap \<Rightarrow> 'p load list" where
  "versions_run M agg compile api [] st = []"
| "versions_run M agg compile api (p # ps) (c, m) =
     (case control_plane_load M agg compile (c, listener_event (to_proto api p) m) of
        (r, st) \<Rightarrow> r # versions_run M agg compile api ps st)"

subsection \<open>Facts\<close>

lemma sorted_values_subset: "set (sorted_values m) \<subseteq> snd ` set m"
proof
  fix v assume "v \<in> set (sorted_values m)"
  then obtain k where k: "k \<in> fst ` set m" "v = the (map_of m k)" by (auto simp: sorted_values_def)
  then obtain w where "map_of m k = Some w" by (metis map_of_eq_None_iff not_Some_eq)
  with k show "v \<in> snd ` set m" by (force dest: map_of_SomeD)
qed

lemma api_event_values:
  "snd ` set (api_event (req, res) m) \<subseteq> snd ` set m \<union> {p. res = Found p}"
  using update_values [of req _ m] delete_values [of req m]
  by (cases res) (auto simp: api_event_def api_reconcile_def)

text \<open>The invariant of a Kubernetes source, relative to the policies ever seen.\<close>

definition kube_inv ::
  "(field_error list \<Rightarrow> go_error option) \<Rightarrow> 'p compiler \<Rightarrow> vpol set \<Rightarrow>
   (string, 'p) cache \<times> (string, vpol) gomap \<Rightarrow> bool" where
  "kube_inv agg compile D st \<longleftrightarrow>
     cache_ok (fst st) \<and> cache_sound D policy_key (policy_cache agg compile) (read_buffer (fst st)) \<and>
     snd ` set (snd st) \<subseteq> D"

lemma api_load_sel: "items_of (api_load m) = sorted_values m" "snd (api_load m) = m"
  by (simp_all add: api_load_def)

lemma kube_inv_step [go_inv]:
  assumes "kube_inv agg compile D st" and "key_determines D policy_key (policy_cache agg compile)"
    and "\<And>req p. ev = Reconciled req (Found p) \<Longrightarrow> p \<in> D"
  shows "kube_inv agg compile D (kube_event_step M agg compile ev st)"
proof (cases ev)
  case (Reconciled req res)
  then show ?thesis using assms(1,3) api_event_values [of req res "snd st"]
    by (cases st) (auto simp: kube_inv_def)
next
  case Loaded
  obtain c m where st: "st = (c, m)" by fastforce
  have sub: "set (items_of (api_load m)) \<subseteq> D"
    using assms(1) st sorted_values_subset [of m] by (auto simp: kube_inv_def api_load_sel)
  have "snd (snd (cache_load M policy_key (policy_cache agg compile) api_load (c, m))) = m"
    using cache_load_result(4) [of api_load m "sorted_values m" None m] by (simp add: api_load_def)
  moreover have "cache_ok c" and "cache_sound D policy_key (policy_cache agg compile) (read_buffer c)"
    using assms(1) st by (simp_all add: kube_inv_def)
  ultimately show ?thesis
    using assms(1) st cache_ok_load [of c M policy_key "policy_cache agg compile" api_load m]
      cache_sound_load [where inner = api_load and s = m and kf = policy_key and M = M and c = c
        and cf = "policy_cache agg compile" and D = D] assms(2) sub
    by (simp add: Loaded kube_inv_def kube_load_def)
qed

lemma kube_run_inv:
  assumes "key_determines (seen evs) policy_key (policy_cache agg compile)" and "set evs' \<subseteq> set evs"
    and "kube_inv agg compile (seen evs) st"
  shows "kube_inv agg compile (seen evs) (fold (kube_event_step M agg compile) evs' st)"
  using assms(2,3)
proof (induction evs' arbitrary: st)
  case (Cons ev evs')
  then have "kube_inv agg compile (seen evs) (kube_event_step M agg compile ev st)"
    by (intro kube_inv_step assms(1)) (auto simp: seen_def)
  with Cons show ?case by simp
qed simp


fun reconciliations :: "kube_event list \<Rightarrow> (string \<times> vpol get_result) list" where
  "reconciliations [] = []"
| "reconciliations (Reconciled req res # evs) = (req, res) # reconciliations evs"
| "reconciliations (Loaded # evs) = reconciliations evs"

lemma kube_run_resources:
  "snd (fold (kube_event_step M agg compile) evs (c, m)) = fold api_event (reconciliations evs) m"
proof (induction evs arbitrary: c m rule: reconciliations.induct)
  case (3 evs)
  have "snd (snd (cache_load M policy_key (policy_cache agg compile) api_load (c, m))) = m"
    using cache_load_result(4) [of api_load m "sorted_values m" None m] by (simp add: api_load_def)
  with 3 show ?case
    by (cases "snd (kube_load M agg compile (c, m))") (simp add: kube_load_def)
qed simp_all

definition compiled :: "(field_error list \<Rightarrow> go_error option) \<Rightarrow> 'p compiler \<Rightarrow> vpol \<Rightarrow> 'p \<times> go_error option" where
  "compiled agg compile p = (fst (compile p), agg (snd (compile p)))"

lemma uncached_policies:
  "fst (uncached_loop M policy_key (policy_cache agg compile) data out errs) = out @ accepted (compiled agg compile) data"
  "multierr_ok M \<Longrightarrow>
   snd (uncached_loop M policy_key (policy_cache agg compile) data out errs) = None \<longleftrightarrow>
     errs = None \<and> (\<forall>p \<in> set data. agg (snd (compile p)) = None)"
  by (induction data arbitrary: out errs)
    (auto simp: policy_key_def policy_cache_def compiled_def multierr_append_None split: prod.split option.split)

text \<open>Policies with the same concatenation of name and resource version are the same.\<close>

definition keys_distinct :: "vpol set \<Rightarrow> bool" where
  "keys_distinct D \<longleftrightarrow> (\<forall>p \<in> D. \<forall>q \<in> D.
     vp_name p @ vp_resource_version p = vp_name q @ vp_resource_version q \<longrightarrow> p = q)"

lemma key_determines_policies: "keys_distinct D \<Longrightarrow> key_determines D policy_key cf"
  unfolding keys_distinct_def key_determines_def policy_key_def by (metis sum.inject(2))

lemma kube_load_current:
  assumes "keys_distinct (seen evs)"
  shows "fst (kube_load M agg compile (kube_run M agg compile evs)) =
    uncached_loop M policy_key (policy_cache agg compile)
      (values_by_key (last_changes api_change (reconciliations evs))) [] None"
proof -
  obtain c m where run: "kube_run M agg compile evs = (c, m)" by fastforce
  have det: "key_determines (seen evs) policy_key (policy_cache agg compile)"
    using assms by (rule key_determines_policies)
  have "kube_inv agg compile (seen evs) (new_cache, new_api_source)"
    by (simp add: kube_inv_def cache_ok_new new_api_source_def) (simp add: new_cache_def)
  from kube_run_inv [OF det subset_refl this, of M] run
  have inv: "cache_ok c" "cache_sound (seen evs) policy_key (policy_cache agg compile) (read_buffer c)"
      "snd ` set m \<subseteq> seen evs"
    by (auto simp: kube_inv_def kube_run_def)
  have m: "m = fold api_event (reconciliations evs) []"
    using run kube_run_resources [of M agg compile evs new_cache new_api_source]
    by (simp add: kube_run_def new_api_source_def)
  have "set (items_of (api_load m)) \<subseteq> seen evs"
    using inv(3) sorted_values_subset [of m] by (auto simp: api_load_sel)
  with cache_load_uncached(1) [where inner = api_load and s = m and kf = policy_key and M = M and c = c
      and cf = "policy_cache agg compile" and D = "seen evs"] inv(1,2) det show ?thesis
    by (simp add: run kube_load_def uncached_load_def api_load_def m api.snapshot)
qed

lemma control_plane_step:
  assumes "authz_mode (api_evaluation_mode api (vp_spec q))" and "vp_name q = n"
    and "rb = [] \<longrightarrow> compile (transported api q) = (pol, errs) \<and> agg errs = None"
    and "rb \<noteq> [] \<longrightarrow> rb = [(n, pol)]" and "set (map fst m) \<subseteq> {n}" and "gomap_ok m"
  shows "control_plane_load M agg compile (\<lparr>read_buffer = rb, write_buffer = []\<rparr>, listener_event (to_proto api q) m) =
    (([pol], None), (\<lparr>read_buffer = [(n, pol)], write_buffer = []\<rparr>, [(n, transported api q)]))"
proof -
  have "m = [] \<or> (\<exists>v. m = [(n, v)])"
    using assms(5,6) by (cases m; cases "tl m") (auto simp: gomap_ok_def)
  then have ev: "listener_event (to_proto api q) m = [(n, transported api q)]"
    using assms(1,2) from_to_proto [OF assms(1)]
    by (auto simp: listener_event_def listener_process_def to_proto_sel)
  have "vp_name (transported api q) = n" "vp_resource_version (transported api q) = []"
    using assms(2) by (simp_all add: transported_def)
  with assms(3,4) show ?thesis
    by (cases "rb = []")
      (simp_all add: ev control_plane_load_def cache_load.simps listener_load_def sorted_values_def policy_key_def
        policy_cache_def)
qed

lemma versions_run_cached:
  assumes "\<forall>q \<in> set ps. vp_name q = n \<and> authz_mode (api_evaluation_mode api (vp_spec q))"
    and "set (map fst m) \<subseteq> {n}" and "gomap_ok m"
  shows "versions_run M agg compile api ps (\<lparr>read_buffer = [(n, pol)], write_buffer = []\<rparr>, m) =
    replicate (length ps) ([pol], None)"
  using assms
proof (induction ps arbitrary: m)
  case (Cons q ps)
  then have "control_plane_load M agg compile (\<lparr>read_buffer = [(n, pol)], write_buffer = []\<rparr>, listener_event (to_proto api q) m) =
    (([pol], None), (\<lparr>read_buffer = [(n, pol)], write_buffer = []\<rparr>, [(n, transported api q)]))"
    by (intro control_plane_step) simp_all
  with Cons show ?case by (simp add: gomap_ok_def)
qed simp

text \<open>The files of a tree, their documents and the policies among them.\<close>

definition fs_files :: "fs_lib \<Rightarrow> fs_node \<Rightarrow> fs_entry list" where
  "fs_files L node = pick (policy_file L) (entries ''.'' node)"

definition fs_documents :: "fs_lib \<Rightarrow> (string \<Rightarrow> go_error + string) \<Rightarrow> fs_node \<Rightarrow> string list" where
  "fs_documents L read_file node =
     concat (accepted (\<lambda>entry. get_documents L read_file (fse_dir_entry entry)) (fs_files L node))"

definition fs_loaded where
  "fs_loaded L read_file default_loader convert node =
     filter (\<lambda>p. p \<noteq> None) (accepted (load_document default_loader convert) (fs_documents L read_file node))"

lemma fs_policies_spec:
  assumes "multierr_ok M" and "readable node"
  shows "items_of (fs_policies M agg L (Inr node) read_file default_loader convert compile s) =
      accepted (fs_compile agg compile) (fs_loaded L read_file default_loader convert node) \<and>
    (error_of (fs_policies M agg L (Inr node) read_file default_loader convert compile s) = None \<longleftrightarrow>
      (\<forall>e \<in> set (fs_files L node). snd (get_documents L read_file (fse_dir_entry e)) = None) \<and>
      (\<forall>d \<in> set (fs_documents L read_file node). snd (load_document default_loader convert d) = None) \<and>
      (\<forall>p \<in> set (fs_loaded L read_file default_loader convert node). snd (fs_compile agg compile p) = None))"
proof -
  have inputs: "fst (new_fs (Inr node) (policy_file L) s) = (pick (policy_file L) (entries ''.'' node), None)"
    using visits_readable(1) [OF assms(2), of "''.''"] by (simp add: new_fs_visits)
  show ?thesis
    unfolding fs_policies_def Let_def fs_files_def fs_documents_def fs_loaded_def
    using assms(1) inputs
    by (simp add: policies_w.both.wrap_items policies_w.both.wrap_ok_iff documents_w.both.wrap_items
        documents_w.both.wrap_ok_iff step_faults_Nil)
qed

text \<open>
  The specification of a load of files: \<open>at\<close> tells at which path the content of an entry is. The
  outcome of a document is \<open>None\<close> when it is faulty and \<open>Some None\<close> when it is no policy.
\<close>

definition base_name :: "string \<times> dir_entry \<Rightarrow> string" where
  "base_name x = de_name (snd x)"

definition policy_entries :: "fs_lib \<Rightarrow> fs_node \<Rightarrow> (string \<times> dir_entry) list" where
  "policy_entries L node =
     filter (\<lambda>(path, e). \<not> de_is_dir e \<and> (fl_is_yaml L (de_name e) \<or> fl_is_json L (de_name e))) (entries ''.'' node)"

definition stored_documents ::
  "fs_lib \<Rightarrow> (string \<Rightarrow> go_error + string) \<Rightarrow> (string \<times> dir_entry \<Rightarrow> string) \<Rightarrow> string \<times> dir_entry \<Rightarrow> string list option" where
  "stored_documents L read_file at x =
     (case read_file (at x) of
        Inl err \<Rightarrow> None
      | Inr bytes \<Rightarrow>
          if fl_is_yaml L (de_name (snd x)) then (case fl_split L bytes of Inl err \<Rightarrow> None | Inr ds \<Rightarrow> Some ds)
          else Some [bytes])"

definition document_policy ::
  "(string \<Rightarrow> go_error + (gvk \<times> 'u)) \<Rightarrow> ('u \<Rightarrow> go_error + vpol) \<Rightarrow> 'p compiler \<Rightarrow> string \<Rightarrow> 'p option option" where
  "document_policy ldr convert compile d =
     (case ldr d of
        Inl err \<Rightarrow> None
      | Inr (OtherKind k, u) \<Rightarrow> Some None
      | Inr (ValidatingPolicyKind, u) \<Rightarrow>
          (case convert u of
             Inl err \<Rightarrow> None
           | Inr p \<Rightarrow> if snd (compile p) = [] then Some (Some (fst (compile p))) else None))"

definition stored_policies where
  "stored_policies L read_file ldr convert compile at es =
     concat (map (\<lambda>x. case stored_documents L read_file at x of
        None \<Rightarrow> []
      | Some ds \<Rightarrow> List.map_filter (\<lambda>d. Option.bind (document_policy ldr convert compile d) id) ds) es)"

definition stored_well where
  "stored_well L read_file ldr convert compile at es \<longleftrightarrow>
     (\<forall>x \<in> set es. \<exists>ds. stored_documents L read_file at x = Some ds \<and>
        (\<forall>d \<in> set ds. document_policy ldr convert compile d \<noteq> None))"

text \<open>The pipeline meets the specification, with the base names as paths.\<close>

lemma accepted_concat: "accepted f (concat xss) = concat (map (accepted f) xss)"
  by (induction xss) (simp_all add: accepted_def)

lemma files_entries:
  "fs_files L node = map (\<lambda>(path, e). \<lparr>fse_path = path, fse_dir_entry = Some e\<rparr>) (policy_entries L node)"
  by (auto simp: fs_files_def pick_def policy_entries_def policy_file_def intro!: arg_cong [where f = "map _"] filter_cong)

lemma entry_documents:
  assumes "\<not> de_is_dir (snd x)" and "fl_is_yaml L (de_name (snd x)) \<or> fl_is_json L (de_name (snd x))"
  shows "stored_documents L read_file base_name x =
    (case get_documents L read_file (Some (snd x)) of (ds, None) \<Rightarrow> Some ds | (_, Some _) \<Rightarrow> None)"
  using assms by (auto simp: stored_documents_def get_documents_def base_name_def split: sum.split)

lemma document_step:
  "document_policy ldr convert compile d =
     (case load_document (Inr ldr) convert d of
        (_, Some e) \<Rightarrow> None
      | (None, None) \<Rightarrow> Some None
      | (Some p, None) \<Rightarrow> (case fs_compile agg compile (Some p) of (c, None) \<Rightarrow> Some (Some c) | (_, Some e) \<Rightarrow> None))"
  by (auto simp: document_policy_def load_document_def fs_compile_def case_prod_beta split: sum.split gvk.split)

lemma document_steps:
  "List.map_filter (\<lambda>d. Option.bind (document_policy ldr convert compile d) id) ds =
     accepted (fs_compile agg compile) (filter (\<lambda>p. p \<noteq> None) (accepted (load_document (Inr ldr) convert) ds)) \<and>
   ((\<forall>d \<in> set ds. document_policy ldr convert compile d \<noteq> None) \<longleftrightarrow>
     (\<forall>d \<in> set ds. snd (load_document (Inr ldr) convert d) = None) \<and>
     (\<forall>p \<in> set (filter (\<lambda>p. p \<noteq> None) (accepted (load_document (Inr ldr) convert) ds)). snd (fs_compile agg compile p) = None))"
proof (induction ds)
  case (Cons d ds)
  obtain p e where l: "load_document (Inr ldr) convert d = (p, e)" by fastforce
  show ?case
  proof (cases e)
    case None
    then show ?thesis
      using Cons document_step [of ldr convert compile d agg] l
      by (cases p; cases "fs_compile agg compile p") (auto simp: List.map_filter_def split: option.splits)
  next
    case (Some a)
    then have "document_policy ldr convert compile d = None"
      using document_step [of ldr convert compile d agg] l by (cases p) simp_all
    with Cons Some l show ?thesis by (simp add: List.map_filter_def)
  qed
qed (simp add: List.map_filter_def)

lemma policy_entriesD:
  "x \<in> set (policy_entries L node) \<Longrightarrow>
   \<not> de_is_dir (snd x) \<and> (fl_is_yaml L (de_name (snd x)) \<or> fl_is_json L (de_name (snd x)))"
  by (auto simp: policy_entries_def)

lemma accepted_documents:
  assumes "\<forall>x \<in> set es. \<not> de_is_dir (snd x) \<and> (fl_is_yaml L (de_name (snd x)) \<or> fl_is_json L (de_name (snd x)))"
  shows "accepted (\<lambda>entry. get_documents L read_file (fse_dir_entry entry))
      (map (\<lambda>(path, e). \<lparr>fse_path = path, fse_dir_entry = Some e\<rparr>) es) =
    List.map_filter (stored_documents L read_file base_name) es"
  using assms
proof (induction es)
  case (Cons x es)
  then show ?case using entry_documents [of x L read_file]
    by (cases "get_documents L read_file (Some (snd x))")
      (auto simp: List.map_filter_def case_prod_beta split: option.splits)
qed (simp add: List.map_filter_def)

lemma fs_documents_stored:
  "fs_documents L read_file node =
     concat (List.map_filter (stored_documents L read_file base_name) (policy_entries L node))"
  unfolding fs_documents_def files_entries using policy_entriesD by (subst accepted_documents) blast+

lemma fs_stored_items:
  "accepted (fs_compile agg compile) (fs_loaded L read_file (Inr ldr) convert node) =
     stored_policies L read_file ldr convert compile base_name (policy_entries L node)"
proof -
  have "accepted (fs_compile agg compile) (filter (\<lambda>p. p \<noteq> None) (accepted (load_document (Inr ldr) convert) (concat dss))) =
      concat (map (List.map_filter (\<lambda>d. Option.bind (document_policy ldr convert compile d) id)) dss)" for dss
  proof -
    have "List.map_filter (\<lambda>d. Option.bind (document_policy ldr convert compile d) id) =
        (\<lambda>ds. accepted (fs_compile agg compile) (filter (\<lambda>p. p \<noteq> None) (accepted (load_document (Inr ldr) convert) ds)))"
      by (rule ext) (rule document_steps [THEN conjunct1])
    then show ?thesis by (simp add: accepted_concat filter_concat comp_def)
  qed
  moreover have "concat (map f (List.map_filter g xs)) = concat (map (\<lambda>x. case g x of None \<Rightarrow> [] | Some y \<Rightarrow> f y) xs)"
    for f :: "string list \<Rightarrow> 'a list" and g :: "string \<times> dir_entry \<Rightarrow> string list option" and xs
    by (induction xs) (auto simp: List.map_filter_def)
  ultimately show ?thesis by (simp add: fs_loaded_def fs_documents_stored stored_policies_def)
qed

lemma fs_stored_errors:
  "(\<forall>e \<in> set (fs_files L node). snd (get_documents L read_file (fse_dir_entry e)) = None) \<and>
   (\<forall>d \<in> set (fs_documents L read_file node). snd (load_document (Inr ldr) convert d) = None) \<and>
   (\<forall>p \<in> set (fs_loaded L read_file (Inr ldr) convert node). snd (fs_compile agg compile p) = None) \<longleftrightarrow>
   stored_well L read_file ldr convert compile base_name (policy_entries L node)"
proof -
  let ?docs = "stored_documents L read_file base_name"
  have read: "snd (get_documents L read_file (Some (snd x))) = None \<longleftrightarrow> (\<exists>ds. ?docs x = Some ds)"
    if "x \<in> set (policy_entries L node)" for x
    using entry_documents [of x L read_file] policy_entriesD [OF that]
    by (cases "get_documents L read_file (Some (snd x))") (auto split: option.split)
  have docs: "set (fs_documents L read_file node) = {d. \<exists>x \<in> set (policy_entries L node). \<exists>ds. ?docs x = Some ds \<and> d \<in> set ds}"
    by (force simp: fs_documents_stored List.map_filter_def)
  have "(\<forall>d \<in> set (fs_documents L read_file node). snd (load_document (Inr ldr) convert d) = None) \<and>
      (\<forall>p \<in> set (fs_loaded L read_file (Inr ldr) convert node). snd (fs_compile agg compile p) = None) \<longleftrightarrow>
      (\<forall>d \<in> set (fs_documents L read_file node). document_policy ldr convert compile d \<noteq> None)"
    unfolding fs_loaded_def by (rule document_steps [THEN conjunct2, symmetric])
  moreover have "(\<forall>e \<in> set (fs_files L node). snd (get_documents L read_file (fse_dir_entry e)) = None) \<longleftrightarrow>
      (\<forall>x \<in> set (policy_entries L node). \<exists>ds. ?docs x = Some ds)"
    using read by (auto simp: files_entries case_prod_beta)
  ultimately show ?thesis by (simp only: docs stored_well_def) fastforce
qed

subsection \<open>Properties\<close>

text \<open>
  The Kubernetes source never serves an outdated policy: after any interleaving of
  reconciliations and loads, a load gives, in the order of the keys, the compiled form of every
  policy the cluster holds that compiles, and an error exactly when one does not, provided
  policies seen with the same concatenation of name and resource version are the same.\<close>

theorem kube_source_current:
  assumes "multierr_ok M"
    and "keys_distinct (seen evs)"
  shows "items_of (kube_load M agg compile (kube_run M agg compile evs)) =
      accepted (compiled agg compile) (values_by_key (last_changes api_change (reconciliations evs))) \<and>
    (error_of (kube_load M agg compile (kube_run M agg compile evs)) = None \<longleftrightarrow>
      (\<forall>p \<in> set (values_by_key (last_changes api_change (reconciliations evs))). agg (snd (compile p)) = None))"
  by (simp add: kube_load_current [OF assms(2)] uncached_policies(1) uncached_policies(2) [OF assms(1)])

theorem kube_source_current_witness:
  "items_of (kube_load multierr_list aggregate_list (\<lambda>p. (vp_resource_version p, []))
      (kube_run multierr_list aggregate_list (\<lambda>p. (vp_resource_version p, []))
        [Reconciled ''p'' (Found sample_policy), Loaded,
         Reconciled ''p'' (Found (sample_policy\<lparr>vp_resource_version := ''8''\<rparr>))])) = [''8'']"
proof -
  let ?evs = "[Reconciled ''p'' (Found sample_policy), Loaded,
         Reconciled ''p'' (Found (sample_policy\<lparr>vp_resource_version := ''8''\<rparr>))]"
  have s: "seen ?evs = {sample_policy, sample_policy\<lparr>vp_resource_version := ''8''\<rparr>}"
    by (auto simp: seen_def)
  have inj: "keys_distinct (seen ?evs)"
    unfolding s keys_distinct_def by (simp add: sample_policy_def)
  have "last_changes api_change (reconciliations ?evs) = [''p'' \<mapsto> sample_policy\<lparr>vp_resource_version := ''8''\<rparr>]"
    by (rule ext) (simp add: last_changes_def List.map_filter_def)
  then have "values_by_key (last_changes api_change (reconciliations ?evs)) = [sample_policy\<lparr>vp_resource_version := ''8''\<rparr>]"
    by (simp add: values_by_key_def)
  with kube_source_current [OF multierr_list_ok inj, of aggregate_list "\<lambda>p. (vp_resource_version p, [])"]
  show ?thesis by (simp add: compiled_def aggregate_list_def)
qed

text \<open>
  The source of a control plane never serves an update: once a policy was compiled, every later
  version of it that the control plane sends is answered with the policy compiled first, for as
  long as the policy stays loaded, whatever the new version is and whether it compiles or not.
  (The key of the cache is the name and the resource version, which is not transported.)\<close>

theorem control_plane_serves_stale:
  assumes "\<forall>q \<in> set (p # ps). vp_name q = vp_name p \<and> authz_mode (api_evaluation_mode api (vp_spec q))"
    and "compile (transported api p) = (pol, errs)" and "agg errs = None"
  shows "versions_run M agg compile api (p # ps) (new_cache, new_listener) =
    replicate (length (p # ps)) ([pol], None)"
proof -
  have "control_plane_load M agg compile (new_cache, listener_event (to_proto api p) new_listener) =
    (([pol], None), (\<lparr>read_buffer = [(vp_name p, pol)], write_buffer = []\<rparr>, [(vp_name p, transported api p)]))"
    using assms unfolding new_cache_def new_listener_def by (intro control_plane_step) simp_all
  with assms(1) versions_run_cached [of ps "vp_name p" api "[(vp_name p, transported api p)]"]
  show ?thesis by (simp add: gomap_ok_def)
qed

theorem control_plane_serves_stale_witness:
  "versions_run multierr_list aggregate_list (\<lambda>p. (length (sp_validations (vp_spec p)), [])) kyverno_api
     [sample_policy, sample_policy\<lparr>vp_spec := (vp_spec sample_policy)\<lparr>sp_validations := []\<rparr>\<rparr>]
     (new_cache, new_listener) = [([1], None), ([1], None)]"
  using control_plane_serves_stale [of sample_policy
      "[sample_policy\<lparr>vp_spec := (vp_spec sample_policy)\<lparr>sp_validations := []\<rparr>\<rparr>]" kyverno_api
      "\<lambda>p. (length (sp_validations (vp_spec p)), [])" 1 "[]" aggregate_list multierr_list]
  by (simp add: sample_policy_def kyverno_api_def mode_defs transported_def aggregate_list_def numeral_2_eq_2)

text \<open>C19:
  What the file-system source loads from a readable tree. It takes all YAML and JSON files of the
  tree in the order of the walk, but reads each by its base name from the root. So when these files
  are all in the root, its items are the compiled policies of all their documents, in order, without
  the documents of other kinds, and it reports an error exactly when a file cannot be read or
  split, or one of its documents cannot be loaded, converted or compiled. A file in a subdirectory
  counts as the file of its name in the root: that file's policies are loaded again, or there is an
  error because there is none.\<close>

theorem fs_source_spec:
  assumes "multierr_ok M" and "readable node"
    and "loaded = fst (fs_policies M agg L (Inr node) read_file (Inr ldr) convert compile s)"
  shows "((\<forall>(path, e) \<in> set (policy_entries L node). path = de_name e) \<longrightarrow>
      fst loaded = stored_policies L read_file ldr convert compile fst (policy_entries L node) \<and>
      (snd loaded = None \<longleftrightarrow> stored_well L read_file ldr convert compile fst (policy_entries L node))) \<and>
    fst loaded = stored_policies L read_file ldr convert compile base_name (policy_entries L node) \<and>
    (snd loaded = None \<longleftrightarrow> stored_well L read_file ldr convert compile base_name (policy_entries L node))"
proof -
  have base: "fst loaded = stored_policies L read_file ldr convert compile base_name (policy_entries L node)"
    "snd loaded = None \<longleftrightarrow> stored_well L read_file ldr convert compile base_name (policy_entries L node)"
    using fs_policies_spec [OF assms(1,2), of agg L read_file "Inr ldr" convert compile s]
    by (simp_all add: assms(3) fs_stored_items fs_stored_errors)
  have eq: "stored_policies L read_file ldr convert compile base_name es = stored_policies L read_file ldr convert compile fst es"
    "stored_well L read_file ldr convert compile base_name es = stored_well L read_file ldr convert compile fst es"
    if "\<forall>(path, e) \<in> set es. path = de_name e" for es
    using that by (induction es) (auto simp: stored_policies_def stored_well_def stored_documents_def base_name_def)
  show ?thesis using base eq [of "policy_entries L node"] by simp
qed

text \<open>
  A policy file in a directory is not read: the source reads it by its base name from the root
  of the file system, so where the root holds no such file the load gives no policy and an
  error, whatever the file contains.\<close>

theorem fs_nested_file_not_read:
  assumes "multierr_ok M" and "fl_is_yaml L f" and "read_file f = Inl err"
  shows "items_of (fs_policies M agg L (Inr (Dir_node ''.'' None [Dir_node d None [File_node f]]))
      read_file default_loader convert compile s) = [] \<and>
    error_of (fs_policies M agg L (Inr (Dir_node ''.'' None [Dir_node d None [File_node f]]))
      read_file default_loader convert compile s) \<noteq> None"
proof -
  let ?node = "Dir_node ''.'' None [Dir_node d None [File_node f]]"
  have files: "fs_files L ?node =
    [\<lparr>fse_path = path_join (path_join ''.'' d) f, fse_dir_entry = Some \<lparr>de_name = f, de_is_dir = False\<rparr>\<rparr>]"
    using assms(2) by (simp add: fs_files_def policy_file_def)
  obtain e where err: "snd (get_documents L read_file (Some \<lparr>de_name = f, de_is_dir = False\<rparr>)) = Some e"
    using assms(2,3) by (simp add: get_documents_def)
  then have "fs_loaded L read_file default_loader convert ?node = []"
    by (simp add: fs_loaded_def fs_documents_def files)
  moreover have "readable ?node" by simp
  ultimately show ?thesis
    using fs_policies_spec [OF assms(1), of ?node agg L read_file default_loader convert compile s] files
      err by simp
qed

text \<open>A library for concrete inputs: one YAML file with one document per line.\<close>

definition one_file_lib :: fs_lib where
  "one_file_lib = \<lparr>fl_is_yaml = (\<lambda>n. n = ''p.yaml''), fl_is_json = (\<lambda>_. False), fl_split = (\<lambda>b. Inr [b])\<rparr>"

theorem fs_source_spec_witness:
  "items_of (fs_policies multierr_list aggregate_list one_file_lib
      (Inr (Dir_node ''.'' None [File_node ''README'', File_node ''p.yaml'']))
      (\<lambda>n. if n = ''p.yaml'' then Inr ''doc'' else Inl (Errorf ''no such file''))
      (Inr (\<lambda>doc. Inr (ValidatingPolicyKind, doc))) (\<lambda>u. Inr sample_policy) (\<lambda>p. (vp_name p, [])) ()) = [''p'']"
proof -
  let ?n = "Dir_node ''.'' None [File_node ''README'', File_node ''p.yaml'']"
  have r: "readable ?n" by simp
  have es: "policy_entries one_file_lib ?n = [(''p.yaml'', \<lparr>de_name = ''p.yaml'', de_is_dir = False\<rparr>)]"
    by (simp add: policy_entries_def one_file_lib_def path_join_def)
  show ?thesis
    using fs_source_spec [OF multierr_list_ok r refl, where L = one_file_lib and agg = aggregate_list and s = "()"
        and read_file = "\<lambda>n. if n = ''p.yaml'' then Inr ''doc'' else Inl (Errorf ''no such file'')"
        and ldr = "\<lambda>doc. Inr (ValidatingPolicyKind, doc)" and convert = "\<lambda>u. Inr sample_policy"
        and compile = "\<lambda>p. (vp_name p, [])"]
    unfolding es
    by (simp add: stored_policies_def stored_documents_def base_name_def document_policy_def one_file_lib_def
        List.map_filter_def sample_policy_def)
qed

theorem fs_nested_file_not_read_witness:
  "items_of (fs_policies multierr_list aggregate_list one_file_lib
      (Inr (Dir_node ''.'' None [Dir_node ''d'' None [File_node ''p.yaml'']]))
      (\<lambda>n. if n = ''d/p.yaml'' then Inr ''doc'' else Inl (Errorf ''no such file''))
      (Inr (\<lambda>doc. Inr (ValidatingPolicyKind, doc))) (\<lambda>u. Inr sample_policy) (\<lambda>p. (vp_name p, [])) ()) = []"
  using fs_nested_file_not_read [of multierr_list one_file_lib "''p.yaml''"
      "\<lambda>n. if n = ''d/p.yaml'' then Inr ''doc'' else Inl (Errorf ''no such file'')" "Errorf ''no such file''"
      aggregate_list "''d''" "Inr (\<lambda>doc. Inr (ValidatingPolicyKind, doc))" "\<lambda>u. Inr sample_policy"
      "\<lambda>p. (vp_name p, [])" "()"]
  by (simp add: one_file_lib_def)

end
