(* ===== verification/Concurrent_Loads.thy ===== *)
theory Concurrent_Loads
  imports Engine_Sources
begin

section \<open>Concurrent loads of a cached source\<close>

text \<open>
  A server answers requests concurrently, and each request loads its source. \<open>NewCache\<close> of
  \<open>sdk/core/sources/cache.go\<close> loads its inner source before it takes its lock, so two loads can
  take the lock in another order than they read the inner source. Here one load is two steps:
  \<open>Fetch\<close>, the load of the inner source, and \<open>Section\<close>, the body of the lock. Loads are named by
  numbers; they interleave with each other and with the changes of what the inner source watches.
\<close>

definition cache_section ::
  "multierr \<Rightarrow> ('d \<Rightarrow> go_error + 'k) \<Rightarrow> ('k \<Rightarrow> 'd \<Rightarrow> go_error + 'i) \<Rightarrow> 'd load \<Rightarrow>
   ('k, 'i) cache \<Rightarrow> 'i load \<times> ('k, 'i) cache" where
  "cache_section M key_func cache_func r c =
     (case r of (data, inner_err) \<Rightarrow>
        (let errs = (case inner_err of None \<Rightarrow> None | Some e \<Rightarrow> m_append M None (Some e))
         in (case cache_loop M key_func cache_func (read_buffer c) data [] errs (write_buffer c) of
               (out, wb) \<Rightarrow> (out, \<lparr>read_buffer = wb, write_buffer = []\<rparr>))))"

lemma cache_load_section:
  "cache_load M kf cf inner (c, s) =
     (case inner s of (r, s') \<Rightarrow> (case cache_section M kf cf r c of (out, c') \<Rightarrow> (out, (c', s'))))"
  by (simp add: cache_load.simps cache_section_def Let_def split: prod.split)

record ('k, 'i, 's, 'd) cached =
  cd_cache :: "('k, 'i) cache"
  cd_inner :: 's
  cd_fetched :: "nat \<Rightarrow> 'd load option"
  cd_answers :: "(nat \<times> 'i load) list"

definition new_cached :: "'s \<Rightarrow> ('k, 'i, 's, 'd) cached" where
  "new_cached s = \<lparr>cd_cache = new_cache, cd_inner = s, cd_fetched = (\<lambda>_. None), cd_answers = []\<rparr>"

datatype 'e cached_event = Fetch nat | Section nat | Change 'e

text \<open>An event that cannot happen, a second fetch of a load or a section before the fetch, changes nothing.\<close>

fun cached_step ::
  "multierr \<Rightarrow> ('d \<Rightarrow> go_error + 'k) \<Rightarrow> ('k \<Rightarrow> 'd \<Rightarrow> go_error + 'i) \<Rightarrow> ('s, 'd) source \<Rightarrow> ('e \<Rightarrow> 's \<Rightarrow> 's) \<Rightarrow>
   'e cached_event \<Rightarrow> ('k, 'i, 's, 'd) cached \<Rightarrow> ('k, 'i, 's, 'd) cached" where
  "cached_step M kf cf inner change (Fetch t) st =
     (case cd_fetched st t of
        Some _ \<Rightarrow> st
      | None \<Rightarrow> (case inner (cd_inner st) of
          (r, s) \<Rightarrow> st\<lparr>cd_inner := s, cd_fetched := (cd_fetched st)(t \<mapsto> r)\<rparr>))"
| "cached_step M kf cf inner change (Section t) st =
     (case cd_fetched st t of
        None \<Rightarrow> st
      | Some r \<Rightarrow> (case cache_section M kf cf r (cd_cache st) of
          (out, c) \<Rightarrow> st\<lparr>cd_cache := c, cd_fetched := (cd_fetched st)(t := None),
            cd_answers := cd_answers st @ [(t, out)]\<rparr>))"
| "cached_step M kf cf inner change (Change e) st = st\<lparr>cd_inner := change e (cd_inner st)\<rparr>"

definition cached_run where
  "cached_run M kf cf inner change s evs = fold (cached_step M kf cf inner change) evs (new_cached s)"

text \<open>The answer of a load that reads what \<open>r\<close> holds, without a cache.\<close>

definition uncached_answer ::
  "multierr \<Rightarrow> ('d \<Rightarrow> go_error + 'k) \<Rightarrow> ('k \<Rightarrow> 'd \<Rightarrow> go_error + 'i) \<Rightarrow> 'd load \<Rightarrow> 'i load" where
  "uncached_answer M kf cf r = fst (uncached_load M kf cf (\<lambda>s. (r, s)) ())"

lemma uncached_answer_load: "uncached_answer M kf cf (fst (inner s)) = fst (uncached_load M kf cf inner s)"
  by (simp add: uncached_answer_def uncached_load_def split: prod.split)

lemma section_sound:
  assumes "cache_ok c" and "cache_sound D kf cf (read_buffer c)" and "key_determines D kf cf"
    and "set (fst r) \<subseteq> D" and "cache_section M kf cf r c = (out, c')"
  shows "out = uncached_answer M kf cf r" "cache_ok c'" "cache_sound D kf cf (read_buffer c')"
proof -
  have load: "cache_load M kf cf (\<lambda>s. (r, s)) (c, ()) = (out, (c', ()))"
    by (simp add: cache_load_section assms(5))
  show "out = uncached_answer M kf cf r"
    using cache_load_uncached(1) [of c D kf cf "\<lambda>s. (r, s)" "()" M] assms(1-4) load by (simp add: uncached_answer_def)
  show "cache_ok c'" using cache_ok_load [OF assms(1), of M kf cf "\<lambda>s. (r, s)" "()"] load by simp
  show "cache_sound D kf cf (read_buffer c')"
    using cache_sound_load [of c D kf cf "\<lambda>s. (r, s)" "()" M] assms(1-4) load by simp
qed

lemma fetched_stays:
  "Fetch t \<notin> set evs \<Longrightarrow> Section t \<notin> set evs \<Longrightarrow>
   cd_fetched (fold (cached_step M kf cf inner change) evs st) t = cd_fetched st t"
proof (induction evs arbitrary: st)
  case (Cons ev evs)
  have "cd_fetched (cached_step M kf cf inner change ev st) t = cd_fetched st t"
    using Cons.prems by (cases ev) (auto split: option.split prod.split)
  with Cons show ?case by simp
qed simp

text \<open>The changes among the events; a source whose loads leave its state alone is moved by them only.\<close>

fun changes :: "'e cached_event list \<Rightarrow> 'e list" where
  "changes [] = []"
| "changes (Change e # evs) = e # changes evs"
| "changes (Fetch t # evs) = changes evs"
| "changes (Section t # evs) = changes evs"

lemma set_changes: "e \<in> set (changes evs) \<longleftrightarrow> Change e \<in> set evs"
  by (induction evs rule: changes.induct) auto

lemma cached_inner:
  assumes "\<And>s. snd (inner s) = s"
  shows "cd_inner (fold (cached_step M kf cf inner change) evs st) = fold change (changes evs) (cd_inner st)"
proof (induction evs arbitrary: st rule: changes.induct)
  case (3 t evs)
  then show ?case using assms [of "cd_inner st"] by (auto split: option.split prod.split)
qed (auto split: option.split prod.split)

lemma cached_run_inner:
  "(\<And>s. snd (inner s) = s) \<Longrightarrow> cd_inner (cached_run M kf cf inner change s evs) = fold change (changes evs) s"
  by (simp add: cached_run_def cached_inner) (simp add: new_cached_def)

subsection \<open>The contract of an inner source\<close>

text \<open>
  What the cache relies on: as long as the inner state satisfies \<open>keeps\<close>, which loads and the
  changes of \<open>E\<close> preserve, every item the inner source gives is in \<open>D\<close>.
\<close>

locale cached_source =
  fixes inner :: "('s, 'd) source" and change :: "'e \<Rightarrow> 's \<Rightarrow> 's" and keeps :: "'s \<Rightarrow> bool"
    and D :: "'d set" and E :: "'e set"
  assumes inner_items: "keeps s \<Longrightarrow> set (items_of (inner s)) \<subseteq> D"
    and inner_keeps: "keeps s \<Longrightarrow> keeps (snd (inner s))"
    and change_keeps: "keeps s \<Longrightarrow> e \<in> E \<Longrightarrow> keeps (change e s)"
begin

definition safe where
  "safe kf cf st \<longleftrightarrow> cache_ok (cd_cache st) \<and> cache_sound D kf cf (read_buffer (cd_cache st)) \<and>
     keeps (cd_inner st) \<and> (\<forall>t r. cd_fetched st t = Some r \<longrightarrow> set (fst r) \<subseteq> D)"

lemma safe_new: "keeps s \<Longrightarrow> safe kf cf (new_cached s)"
  by (simp add: safe_def new_cached_def cache_ok_new) (simp add: new_cache_def)

lemma safe_step:
  assumes safe: "safe kf cf st" and det: "key_determines D kf cf" and "\<And>e. ev = Change e \<Longrightarrow> e \<in> E"
  shows "safe kf cf (cached_step M kf cf inner change ev st)"
proof (cases ev)
  case (Fetch t)
  obtain r s where r: "inner (cd_inner st) = (r, s)" by fastforce
  then show ?thesis
    using safe inner_items [of "cd_inner st"] inner_keeps [of "cd_inner st"]
    by (auto simp: Fetch safe_def split: option.split)
next
  case (Section t)
  show ?thesis
  proof (cases "cd_fetched st t")
    case (Some r)
    obtain out c where c: "cache_section M kf cf r (cd_cache st) = (out, c)" by fastforce
    have items: "set (fst r) \<subseteq> D" using safe Some by (cases r) (auto simp: safe_def)
    have ok: "cache_ok (cd_cache st)" and sound: "cache_sound D kf cf (read_buffer (cd_cache st))"
      using safe by (simp_all add: safe_def)
    show ?thesis
      using safe section_sound(2,3) [OF ok sound det items c] by (simp add: Section Some c safe_def)
  qed (simp add: Section safe)
next
  case (Change e)
  then show ?thesis using safe change_keeps assms(3) by (simp add: safe_def)
qed

lemma safe_run:
  "safe kf cf st \<Longrightarrow> key_determines D kf cf \<Longrightarrow> \<forall>e. Change e \<in> set evs \<longrightarrow> e \<in> E \<Longrightarrow>
   safe kf cf (fold (cached_step M kf cf inner change) evs st)"
proof (induction evs arbitrary: st)
  case (Cons ev evs)
  then show ?case using safe_step [of kf cf st ev M] by simp
qed simp

text \<open>A load answers what it would answer alone and without a cache at the moment of its fetch.\<close>

lemma load_answer:
  assumes "keeps s" and det: "key_determines D kf cf"
    and "\<forall>e. Change e \<in> set (pre @ mid) \<longrightarrow> e \<in> E"
    and idle: "cd_fetched (cached_run M kf cf inner change s pre) t = None"
    and mid: "Fetch t \<notin> set mid" "Section t \<notin> set mid"
  shows "last (cd_answers (cached_run M kf cf inner change s (pre @ Fetch t # mid @ [Section t]))) =
    (t, fst (uncached_load M kf cf inner (cd_inner (cached_run M kf cf inner change s pre))))"
proof -
  let ?step = "cached_step M kf cf inner change"
  define st where "st = cached_run M kf cf inner change s pre"
  obtain r s' where r: "inner (cd_inner st) = (r, s')" by fastforce
  define st1 where "st1 = ?step (Fetch t) st"
  define st2 where "st2 = fold ?step mid st1"
  have safe: "safe kf cf st"
    unfolding st_def cached_run_def using assms(1-3) by (intro safe_run safe_new) auto
  have safe2: "safe kf cf st2"
    unfolding st2_def st1_def using assms(3) by (intro safe_run safe_step safe det) auto
  have "cd_fetched st2 t = Some r"
    using idle by (simp add: st2_def fetched_stays [OF mid] st1_def r st_def [symmetric])
  moreover obtain out c where c: "cache_section M kf cf r (cd_cache st2) = (out, c)" by fastforce
  moreover have "out = uncached_answer M kf cf r"
  proof (rule section_sound(1) [OF _ _ det _ c])
    show "cache_ok (cd_cache st2)" "cache_sound D kf cf (read_buffer (cd_cache st2))"
      using safe2 by (simp_all add: safe_def)
    show "set (fst r) \<subseteq> D"
      using safe inner_items [of "cd_inner st"] by (simp add: safe_def r)
  qed
  moreover have "cached_run M kf cf inner change s (pre @ Fetch t # mid @ [Section t]) = ?step (Section t) st2"
    by (simp add: cached_run_def st2_def st1_def st_def)
  ultimately show ?thesis
    using uncached_answer_load [of M kf cf inner "cd_inner st"] by (simp add: r st_def [symmetric])
qed

end

subsection \<open>Interpretations\<close>


interpretation kube_cached: cached_source api_load api_event "\<lambda>m. snd ` set m \<subseteq> D" D
    "{(req, res). \<forall>p. res = Found p \<longrightarrow> p \<in> D}" for D :: "vpol set"
proof unfold_locales
  fix m :: "(string, vpol) gomap"
  assume m: "snd ` set m \<subseteq> D"
  then show "set (items_of (api_load m)) \<subseteq> D"
    using sorted_values_subset [of m] by (auto simp: api_load_sel)
  show "snd ` set (snd (api_load m)) \<subseteq> D" using m by (simp add: api_load_sel)
  fix e :: "string \<times> vpol get_result"
  assume "e \<in> {(req, res). \<forall>p. res = Found p \<longrightarrow> p \<in> D}"
  then have "{p. snd e = Found p} \<subseteq> D" by (auto simp: case_prod_beta)
  with m have below: "snd ` set m \<union> {p. snd e = Found p} \<subseteq> D" by blast
  have "snd ` set (api_event e m) \<subseteq> snd ` set m \<union> {p. snd e = Found p}"
    using api_event_values [of "fst e" "snd e" m] by simp
  also note below
  finally show "snd ` set (api_event e m) \<subseteq> D" .
qed

text \<open>The policies the cluster answered with among the events.\<close>

definition answered :: "(string \<times> vpol get_result) cached_event list \<Rightarrow> vpol set" where
  "answered evs = {p. \<exists>req. Change (req, Found p) \<in> set evs}"

subsection \<open>Properties\<close>



text \<open>C18:
  The source of a cluster serves what the cluster held when a load read it: after any
  interleaving of reconciliations and concurrent loads, a load answers, in the order of the keys,
  the compiled form of every policy the cluster held at its fetch that compiles, and an error
  exactly when one does not, provided policies seen with the same concatenation of name and
  resource version are the same.\<close>

theorem kube_loads_current:
  assumes "multierr_ok M" and "keys_distinct (answered (pre @ mid))"
    and "cd_fetched (cached_run M policy_key (policy_cache agg compile) api_load api_event new_api_source pre) t = None"
    and "Fetch t \<notin> set mid" and "Section t \<notin> set mid"
    and "held = values_by_key (last_changes api_change (changes pre))"
  shows "\<exists>err. last (cd_answers (cached_run M policy_key (policy_cache agg compile) api_load api_event new_api_source
        (pre @ Fetch t # mid @ [Section t]))) = (t, (accepted (compiled agg compile) held, err)) \<and>
      (err = None \<longleftrightarrow> (\<forall>p \<in> set held. agg (snd (compile p)) = None))"
proof -
  let ?run = "cached_run M policy_key (policy_cache agg compile) api_load api_event new_api_source"
  have "cd_inner (?run pre) = fold api_event (changes pre) []"
    by (simp add: cached_run_inner api_load_sel new_api_source_def)
  then have load: "fst (uncached_load M policy_key (policy_cache agg compile) api_load (cd_inner (?run pre))) =
      uncached_loop M policy_key (policy_cache agg compile) held [] None"
    by (simp add: uncached_load_def api_load_def api.snapshot assms(6))
  have "last (cd_answers (?run (pre @ Fetch t # mid @ [Section t]))) =
      (t, uncached_loop M policy_key (policy_cache agg compile) held [] None)"
    unfolding load [symmetric]
  proof (rule kube_cached.load_answer [OF _ _ _ assms(3-5)])
    show "snd ` set new_api_source \<subseteq> answered (pre @ mid)" by (simp add: new_api_source_def)
    show "key_determines (answered (pre @ mid)) policy_key (policy_cache agg compile)"
      using assms(2) by (rule key_determines_policies)
    show "\<forall>e. Change e \<in> set (pre @ mid) \<longrightarrow> e \<in> {(req, res). \<forall>p. res = Found p \<longrightarrow> p \<in> answered (pre @ mid)}"
      by (auto simp: answered_def)
  qed
  moreover obtain out err where "uncached_loop M policy_key (policy_cache agg compile) held [] None = (out, err)"
    by fastforce
  ultimately show ?thesis
    using uncached_policies(1) [of M agg compile held "[]" None] uncached_policies(2) [OF assms(1), of agg compile held "[]" None]
    by simp
qed

theorem kube_loads_current_witness:
  "\<exists>err. last (cd_answers (cached_run multierr_list policy_key
      (policy_cache aggregate_list (\<lambda>p. (vp_resource_version p, []))) api_load api_event new_api_source
      ([Change (''p'', Found sample_policy)] @ Fetch 1 #
       [Change (''p'', Found (sample_policy\<lparr>vp_resource_version := ''8''\<rparr>)), Fetch 2, Section 2] @ [Section 1]))) =
    (1, ([vp_resource_version sample_policy], err))"
proof -
  let ?pre = "[Change (''p'', Found sample_policy)]"
  let ?mid = "[Change (''p'', Found (sample_policy\<lparr>vp_resource_version := ''8''\<rparr>)), Fetch 2, Section 2]"
  have ans: "answered (?pre @ ?mid) = {sample_policy, sample_policy\<lparr>vp_resource_version := ''8''\<rparr>}"
    by (auto simp: answered_def)
  have distinct: "keys_distinct (answered (?pre @ ?mid))"
    unfolding ans keys_distinct_def by (simp add: sample_policy_def)
  have "last_changes api_change (changes ?pre) = [''p'' \<mapsto> sample_policy]"
    by (rule ext) (simp add: last_changes_def List.map_filter_def)
  then have held: "values_by_key (last_changes api_change (changes ?pre)) = [sample_policy]"
    by (simp add: values_by_key_def)
  show ?thesis
    using kube_loads_current [OF multierr_list_ok distinct _ _ _ held [symmetric],
        of aggregate_list "\<lambda>p. (vp_resource_version p, [])" 1]
    by (auto simp: cached_run_def new_cached_def compiled_def aggregate_list_def)
qed

end
