(* ===== verification/Policy_Sender.thy ===== *)
theory Policy_Sender
  imports Keyed_Sources
begin

section \<open>The sender of the control plane\<close>

text \<open>
  Models \<open>pkg/control-plane/sender/sender.go\<close> and \<open>pkg/control-plane/reconciler.go\<close>: the
  policies, the clients' streams and their health checks, the events that change them, and the
  goroutines of \<open>SendPolicy\<close> with their unbuffered channel. Times and durations are integers. A
  stream is a value of the type parameter; what is sent on it is returned. Unsynchronised
  accesses to the maps are taken as atomic, and one request of a stream is one step here;
  \<open>Sender_Races\<close> takes it apart.
\<close>

record 's sender =
  sd_policies :: "(string, proto_policy) gomap"
  sd_health :: "(string, int) gomap"
  sd_cxns :: "(string, 's) gomap"
  sd_initial_wait :: int
  sd_max_interval :: int
  sd_flush_interval :: int
  sd_max_inactive :: int

definition new_policy_sender :: "int \<Rightarrow> int \<Rightarrow> int \<Rightarrow> int \<Rightarrow> 's sender" where
  "new_policy_sender initial_wait max_interval flush_interval max_inactive =
     \<lparr>sd_policies = [], sd_health = [], sd_cxns = [], sd_initial_wait = initial_wait,
      sd_max_interval = max_interval, sd_flush_interval = flush_interval, sd_max_inactive = max_inactive\<rparr>"

definition store_policy :: "proto_policy \<Rightarrow> 's sender \<Rightarrow> 's sender" where
  "store_policy pol s = s\<lparr>sd_policies := AList.update (pp_name pol) pol (sd_policies s)\<rparr>"

definition delete_policy :: "string \<Rightarrow> 's sender \<Rightarrow> 's sender" where
  "delete_policy name s = s\<lparr>sd_policies := AList.delete name (sd_policies s)\<rparr>"

text \<open>The response is \<open>False\<close> for the nil one of an invalid request.\<close>

definition health_check :: "string \<Rightarrow> int option \<Rightarrow> 's sender \<Rightarrow> bool \<times> 's sender" where
  "health_check address t s =
     (case t of
        None \<Rightarrow> (False, s)
      | Some t \<Rightarrow>
          (if address = [] then (False, s)
           else (True,
             (case map_of (sd_health s) address of
                None \<Rightarrow> s\<lparr>sd_health := AList.update address t (sd_health s)\<rparr>
              | Some t' \<Rightarrow> if t > t' then s\<lparr>sd_health := AList.update address t (sd_health s)\<rparr> else s))))"

definition get_inactive_clients :: "int \<Rightarrow> 's sender \<Rightarrow> string list" where
  "get_inactive_clients now s =
     map fst (filter (\<lambda>(c, t). now - t > sd_max_inactive s) (sd_health s))"

fun delete_clients :: "string list \<Rightarrow> 's sender \<Rightarrow> 's sender" where
  "delete_clients [] s = s"
| "delete_clients (c # cs) s =
     delete_clients cs (s\<lparr>sd_cxns := AList.delete c (sd_cxns s), sd_health := AList.delete c (sd_health s)\<rparr>)"

definition delete_inactive :: "int \<Rightarrow> 's sender \<Rightarrow> 's sender" where
  "delete_inactive now s = delete_clients (get_inactive_clients now s) s"

text \<open>One request received on a stream: the policies sent on it, and the stream registered.\<close>

definition stream_request :: "string \<Rightarrow> 's \<Rightarrow> 's sender \<Rightarrow> ('s \<times> proto_policy) list \<times> 's sender" where
  "stream_request address stream s =
     (map (\<lambda>(_, pol). (stream, pol)) (sd_policies s),
      s\<lparr>sd_cxns := AList.update address stream (sd_cxns s)\<rparr>)"

text \<open>
  The handler of a stream: what it meets at each turn is the end of the sender's context or the
  result of \<open>Recv\<close>, and when there is nothing left to meet it waits. It returns its result, if it
  has returned, and what was sent.
\<close>

datatype stream_event = Context_over | Received_request string | Stream_eof | Stream_error go_error

fun policies_stream ::
  "'s \<Rightarrow> stream_event list \<Rightarrow> 's sender \<Rightarrow> (go_error option option \<times> ('s \<times> proto_policy) list) \<times> 's sender" where
  "policies_stream stream [] s = ((None, []), s)"
| "policies_stream stream (Context_over # evs) s = ((Some None, []), s)"
| "policies_stream stream (Stream_eof # evs) s = ((Some None, []), s)"
| "policies_stream stream (Stream_error err # evs) s = ((Some (Some err), []), s)"
| "policies_stream stream (Received_request address # evs) s =
     (case stream_request address stream s of
        (sent, s') \<Rightarrow> (case policies_stream stream evs s' of ((r, sent'), s'') \<Rightarrow> ((r, sent @ sent'), s'')))"

text \<open>
  \<open>backoff.Retry\<close> is third-party: it makes at least one attempt; their results, the first one and
  those after it, are the arguments.
\<close>

fun send_with_backoff :: "go_error option \<Rightarrow> go_error option list \<Rightarrow> go_error option" where
  "send_with_backoff a [] = a"
| "send_with_backoff a (a' # as) = (case a of Some err \<Rightarrow> send_with_backoff a' as | None \<Rightarrow> None)"

text \<open>The monitor of health checks flushes at the given times until its context ends.\<close>

fun health_check_monitor :: "int list \<Rightarrow> 's sender \<Rightarrow> 's sender" where
  "health_check_monitor [] s = s"
| "health_check_monitor (now # ts) s = health_check_monitor ts (delete_inactive now s)"

subsection \<open>Runs of the sender\<close>

datatype 's sender_event =
    Store proto_policy
  | Remove string
  | Health string "int option"
  | Request string 's
  | Flush int

fun sender_step :: "'s sender_event \<Rightarrow> 's sender \<Rightarrow> 's sender" where
  "sender_step (Store pol) s = store_policy pol s"
| "sender_step (Remove name) s = delete_policy name s"
| "sender_step (Health address t) s = snd (health_check address t s)"
| "sender_step (Request address stream) s = snd (stream_request address stream s)"
| "sender_step (Flush now) s = delete_inactive now s"

lemmas sender_defs = store_policy_def delete_policy_def health_check_def stream_request_def

lemma delete_clients_sel:
  "sd_policies (delete_clients cs s) = sd_policies s"
  "sd_max_inactive (delete_clients cs s) = sd_max_inactive s"
  "map_of (sd_cxns (delete_clients cs s)) c = (if c \<in> set cs then None else map_of (sd_cxns s) c)"
  "map_of (sd_health (delete_clients cs s)) c = (if c \<in> set cs then None else map_of (sd_health s) c)"
  by (induction cs s rule: delete_clients.induct) auto

lemma delete_inactive_sel [go_simps]:
  "sd_policies (delete_inactive now s) = sd_policies s"
  "sd_max_inactive (delete_inactive now s) = sd_max_inactive s"
  "map_of (sd_cxns (delete_inactive now s)) c =
     (if c \<in> set (get_inactive_clients now s) then None else map_of (sd_cxns s) c)"
  "map_of (sd_health (delete_inactive now s)) c =
     (if c \<in> set (get_inactive_clients now s) then None else map_of (sd_health s) c)"
  by (simp_all add: delete_inactive_def delete_clients_sel)

text \<open>The policies of the sender are a keyed store.\<close>

definition policies_event :: "'s sender_event \<Rightarrow> (string, proto_policy) gomap \<Rightarrow> (string, proto_policy) gomap" where
  "policies_event ev m =
     (case ev of Store pol \<Rightarrow> AList.update (pp_name pol) pol m | Remove name \<Rightarrow> AList.delete name m | _ \<Rightarrow> m)"

fun policies_change :: "'s sender_event \<Rightarrow> (string \<times> proto_policy option) option" where
  "policies_change (Store pol) = Some (pp_name pol, Some pol)"
| "policies_change (Remove name) = Some (name, None)"
| "policies_change _ = None"

interpretation sent: keyed_store policies_event policies_change
proof
  fix m and ev :: "'s sender_event" and k
  show "gomap_ok m \<Longrightarrow> gomap_ok (policies_event ev m)"
    by (cases ev) (simp_all add: policies_event_def)
  show "map_of (policies_event ev m) k = (case policies_change ev of None \<Rightarrow> map_of m k
      | Some (k', v) \<Rightarrow> if k = k' then v else map_of m k)"
    by (cases ev) (auto simp: policies_event_def)
qed

lemma sender_step_policies: "sd_policies (sender_step ev s) = policies_event ev (sd_policies s)"
  by (cases ev) (auto simp: policies_event_def sender_defs delete_inactive_sel split: option.split)

lemma sender_run_policies: "sd_policies (fold sender_step evs s) = fold policies_event evs (sd_policies s)"
  by (induction evs arbitrary: s) (simp_all add: sender_step_policies)

subsection \<open>Sending a policy to all clients\<close>

text \<open>
  \<open>SendPolicy\<close> starts one goroutine per client. Each sends with retries, then offers its result
  on the unbuffered channel and is done only when it is received; the caller receives only
  after it has waited for all of them.
\<close>

datatype worker = Sending | Offering "go_error option" | Finished
datatype main_pc = Waiting | Draining | Returned

record 's send_state =
  ss_workers :: "('s \<times> worker) list"
  ss_main :: main_pc
  ss_delivered :: "'s list"
  ss_errs :: "go_error option list"

definition send_start :: "'s list \<Rightarrow> 's send_state" where
  "send_start streams =
     \<lparr>ss_workers = map (\<lambda>c. (c, Sending)) streams, ss_main = Waiting, ss_delivered = [], ss_errs = []\<rparr>"

definition all_finished :: "'s send_state \<Rightarrow> bool" where
  "all_finished st \<longleftrightarrow> list_all (\<lambda>w. snd w = Finished) (ss_workers st)"

inductive send_step :: "'s send_state \<Rightarrow> 's send_state \<Rightarrow> bool" where
  delivered: "i < length (ss_workers st) \<Longrightarrow> ss_workers st ! i = (c, Sending) \<Longrightarrow>
    send_step st (st\<lparr>ss_workers := (ss_workers st)[i := (c, Offering None)],
                     ss_delivered := ss_delivered st @ [c]\<rparr>)"
| gave_up: "i < length (ss_workers st) \<Longrightarrow> ss_workers st ! i = (c, Sending) \<Longrightarrow>
    send_step st (st\<lparr>ss_workers := (ss_workers st)[i := (c, Offering (Some err))]\<rparr>)"
| received: "ss_main st = Draining \<Longrightarrow> i < length (ss_workers st) \<Longrightarrow>
    ss_workers st ! i = (c, Offering r) \<Longrightarrow>
    send_step st (st\<lparr>ss_workers := (ss_workers st)[i := (c, Finished)], ss_errs := ss_errs st @ [r]\<rparr>)"
| waited: "ss_main st = Waiting \<Longrightarrow> all_finished st \<Longrightarrow> send_step st (st\<lparr>ss_main := Draining\<rparr>)"
| returned: "ss_main st = Draining \<Longrightarrow> all_finished st \<Longrightarrow> send_step st (st\<lparr>ss_main := Returned\<rparr>)"

inductive send_reach :: "'s list \<Rightarrow> 's send_state \<Rightarrow> bool" for streams where
  start: "send_reach streams (send_start streams)"
| step: "send_reach streams st \<Longrightarrow> send_step st st' \<Longrightarrow> send_reach streams st'"

inductive_cases send_stepE: "send_step st st'"

definition send_inv :: "'s list \<Rightarrow> 's send_state \<Rightarrow> bool" where
  "send_inv streams st \<longleftrightarrow>
     map fst (ss_workers st) = streams \<and> ss_main st = Waiting \<and>
     (\<forall>w \<in> set (ss_workers st). snd w \<noteq> Finished \<and> (snd w = Offering None \<longrightarrow> fst w \<in> set (ss_delivered st)))"

lemma send_inv_step [go_inv]:
  assumes "send_inv streams st" and "streams \<noteq> []" and "send_step st st'"
  shows "send_inv streams st'"
proof -
  have nf: "\<not> all_finished st"
    using assms(1,2) by (cases "ss_workers st") (auto simp: send_inv_def all_finished_def)
  have upd: "map fst ((ss_workers st)[i := (c, w)]) = map fst (ss_workers st)"
    if "ss_workers st ! i = (c, w')" "i < length (ss_workers st)" for i c w w'
    using that by (simp add: map_update list_update_same_conv)
  show ?thesis
    using assms(3,1) nf
    by cases (auto simp: send_inv_def upd dest!: set_update_subset_insert [THEN subsetD])
qed

lemma send_reach_inv: "send_reach streams st \<Longrightarrow> streams \<noteq> [] \<Longrightarrow> send_inv streams st"
proof (induction rule: send_reach.induct)
  case start
  then show ?case by (auto simp: send_inv_def send_start_def comp_def)
qed (rule send_inv_step)

lemma send_inv_stuck:
  assumes "send_inv streams st"
  shows "(\<nexists>st'. send_step st st') \<longleftrightarrow> (\<forall>w \<in> set (ss_workers st). snd w \<noteq> Sending) \<and> streams \<noteq> []"
proof (cases "\<exists>w \<in> set (ss_workers st). snd w = Sending")
  case True
  then obtain i c where "i < length (ss_workers st)" "ss_workers st ! i = (c, Sending)"
    by (metis in_set_conv_nth prod.collapse)
  with True show ?thesis by (auto dest: send_step.delivered)
next
  case False
  have "streams = [] \<longleftrightarrow> ss_workers st = []" using assms by (auto simp: send_inv_def)
  moreover have "all_finished st \<longleftrightarrow> ss_workers st = []"
    using assms by (cases "ss_workers st") (auto simp: send_inv_def all_finished_def)
  moreover have "ss_main st = Waiting" using assms by (simp add: send_inv_def)
  ultimately show ?thesis
    using False send_step.waited [of st] by (fastforce elim: send_stepE simp: set_conv_nth)
qed

subsection \<open>The reconciler of the control plane\<close>

definition policy_reconcile ::
  "vpol_api \<Rightarrow> (string \<Rightarrow> vpol get_result) \<Rightarrow> string \<Rightarrow> 's sender option \<Rightarrow>
   go_error option \<times> 's sender option \<times> proto_policy list" where
  "policy_reconcile api get req s =
     (case get req of
        Not_found \<Rightarrow>
          (case s of
             None \<Rightarrow> (None, None, [])
           | Some s \<Rightarrow> (None, Some (delete_policy req s), [deletion req]))
      | Get_error err \<Rightarrow> (Some err, s, [])
      | Found pol \<Rightarrow>
          (if api_evaluation_mode api (vp_spec pol) \<noteq> EvaluationModeHTTP \<and>
              api_evaluation_mode api (vp_spec pol) \<noteq> EvaluationModeEnvoy
           then (None, s, [])
           else case s of
             None \<Rightarrow> (None, None, [])
           | Some s \<Rightarrow> (None, Some (store_policy (to_proto api pol) s), [to_proto api pol])))"

fun reconcile_change :: "vpol_api \<Rightarrow> string \<times> vpol get_result \<Rightarrow> (string \<times> proto_policy option) option" where
  "reconcile_change api (req, Found pol) =
     (if authz_mode (api_evaluation_mode api (vp_spec pol)) then Some (vp_name pol, Some (to_proto api pol)) else None)"
| "reconcile_change api (req, Not_found) = Some (req, None)"
| "reconcile_change api (req, Get_error err) = None"

definition reconcile_event ::
  "vpol_api \<Rightarrow> string \<times> vpol get_result \<Rightarrow> (string, proto_policy) gomap \<Rightarrow> (string, proto_policy) gomap" where
  "reconcile_event api ev m =
     (case fst (snd (policy_reconcile api (\<lambda>_. snd ev) (fst ev)
         (Some ((new_policy_sender 0 0 0 0 :: unit sender)\<lparr>sd_policies := m\<rparr>)))) of
        Some s \<Rightarrow> sd_policies s | None \<Rightarrow> m)"

interpretation reconciled: keyed_store "reconcile_event api" "reconcile_change api" for api
proof
  fix m and ev :: "string \<times> vpol get_result" and k
  show "gomap_ok m \<Longrightarrow> gomap_ok (reconcile_event api ev m)"
    by (cases ev; cases "snd ev")
      (auto simp: reconcile_event_def policy_reconcile_def sender_defs)
  show "map_of (reconcile_event api ev m) k = (case reconcile_change api ev of None \<Rightarrow> map_of m k
      | Some (k', v) \<Rightarrow> if k = k' then v else map_of m k)"
    by (cases ev; cases "snd ev")
      (auto simp: reconcile_event_def policy_reconcile_def sender_defs to_proto_sel authz_mode_def)
qed

definition reconcile_all ::
  "vpol_api \<Rightarrow> (string \<times> vpol get_result) list \<Rightarrow> 's sender \<Rightarrow> 's sender" where
  "reconcile_all api evs s =
     fold (\<lambda>(req, res) s. case fst (snd (policy_reconcile api (\<lambda>_. res) req (Some s))) of
        Some s' \<Rightarrow> s' | None \<Rightarrow> s) evs s"

lemma reconcile_all_policies:
  "sd_policies (reconcile_all api evs s) = fold (reconcile_event api) evs (sd_policies s)"
proof (induction evs arbitrary: s)
  case (Cons ev evs)
  obtain req res where ev: "ev = (req, res)" by fastforce
  have "sd_policies (case fst (snd (policy_reconcile api (\<lambda>_. res) req (Some s))) of Some s' \<Rightarrow> s' | None \<Rightarrow> s) =
      reconcile_event api ev (sd_policies s)" for s :: "'a sender"
    by (cases res) (auto simp: ev reconcile_event_def policy_reconcile_def sender_defs)
  with Cons show ?case by (simp add: reconcile_all_def ev)
qed (simp add: reconcile_all_def)

subsection \<open>Properties\<close>

definition health_checks :: "string \<Rightarrow> int list \<Rightarrow> 's sender \<Rightarrow> 's sender" where
  "health_checks c ts s = fold (\<lambda>t s. snd (health_check c (Some t) s)) ts s"

lemma health_checks_simps [simp]:
  "health_checks c [] s = s"
  "health_checks c (t # ts) s = health_checks c ts (snd (health_check c (Some t) s))"
  by (simp_all add: health_checks_def)

lemma health_check_lookup:
  "c \<noteq> [] \<Longrightarrow> map_of (sd_health (snd (health_check c (Some t) s))) c =
     Some (case map_of (sd_health s) c of None \<Rightarrow> t | Some t' \<Rightarrow> max t' t)"
  by (auto simp: health_check_def split: option.split)

lemma health_checks_lookup:
  "c \<noteq> [] \<Longrightarrow> map_of (sd_health (health_checks c ts s)) c =
     (if ts = [] then map_of (sd_health s) c
      else Some (case map_of (sd_health s) c of None \<Rightarrow> Max (set ts) | Some t0 \<Rightarrow> Max (insert t0 (set ts))))"
proof (induction ts arbitrary: s)
  case (Cons t ts)
  then show ?case
    by (cases "ts = []") (simp_all add: health_check_lookup max.assoc split: option.split)
qed simp

lemma health_checks_ok: "gomap_ok (sd_health s) \<Longrightarrow> gomap_ok (sd_health (health_checks c ts s))"
  by (induction ts arbitrary: s) (auto simp: health_check_def split: option.split)

lemma inactive_iff:
  "gomap_ok (sd_health s) \<Longrightarrow>
   c \<in> set (get_inactive_clients now s) \<longleftrightarrow> (\<exists>t. map_of (sd_health s) c = Some t \<and> now - t > sd_max_inactive s)"
  by (force simp: get_inactive_clients_def gomap_ok_def map_of_eq_Some_iff)

lemma step_keeps_disconnected:
  assumes "map_of (sd_cxns s) c = None" and "\<forall>stream. ev \<noteq> Request c stream"
  shows "map_of (sd_cxns (sender_step ev s)) c = None"
  using assms by (cases ev) (auto simp: sender_defs delete_inactive_sel split: option.split)

lemma run_keeps_disconnected:
  "map_of (sd_cxns s) c = None \<Longrightarrow> \<forall>stream. Request c stream \<notin> set evs \<Longrightarrow>
   map_of (sd_cxns (fold sender_step evs s)) c = None"
proof (induction evs arbitrary: s)
  case (Cons ev evs)
  then have "map_of (sd_cxns (sender_step ev s)) c = None"
    by (intro step_keeps_disconnected) auto
  with Cons show ?case by simp
qed simp

lemma policies_stream_requests:
  "policies_stream stream (map Received_request addrs @ [Stream_eof]) s =
   ((Some None, concat (map (\<lambda>_. fst (stream_request [] stream s)) addrs)),
    s\<lparr>sd_cxns := fold (\<lambda>a m. AList.update a stream m) addrs (sd_cxns s)\<rparr>)"
  by (induction addrs arbitrary: s) (simp_all add: stream_request_def)

text \<open>The times at which the monitor flushes: the interval passes between two flushes.\<close>

definition flush_times :: "int \<Rightarrow> int \<Rightarrow> nat \<Rightarrow> int list" where
  "flush_times t0 interval k = map (\<lambda>i. t0 + (int i + 1) * interval) [0..<k]"

lemma flush_times_Suc: "flush_times t0 interval (Suc k) = flush_times t0 interval k @ [t0 + (int k + 1) * interval]"
  by (simp add: flush_times_def)

lemma monitor_append: "health_check_monitor (xs @ ys) s = health_check_monitor ys (health_check_monitor xs s)"
  by (induction xs arbitrary: s) simp_all

lemma delete_clients_ok: "gomap_ok (sd_health s) \<Longrightarrow> gomap_ok (sd_health (delete_clients cs s))"
  by (induction cs s rule: delete_clients.induct) simp_all

lemma monitor_ok:
  "gomap_ok (sd_health s) \<Longrightarrow> gomap_ok (sd_health (health_check_monitor ts s)) \<and>
   sd_max_inactive (health_check_monitor ts s) = sd_max_inactive s"
  by (induction ts arbitrary: s) (simp_all add: delete_inactive_def delete_clients_ok delete_clients_sel)

lemma monitor_lookup:
  assumes "gomap_ok (sd_health s)" and "map_of (sd_health s) c = Some t" and "interval > 0"
  shows "map_of (sd_health (health_check_monitor (flush_times t0 interval k) s)) c =
      (if k = 0 \<or> t0 + int k * interval \<le> t + sd_max_inactive s then Some t else None) \<and>
    map_of (sd_cxns (health_check_monitor (flush_times t0 interval k) s)) c =
      (if k = 0 \<or> t0 + int k * interval \<le> t + sd_max_inactive s then map_of (sd_cxns s) c else None)"
proof (induction k)
  case 0
  with assms(2) show ?case by (simp add: flush_times_def)
next
  case (Suc k)
  let ?s = "health_check_monitor (flush_times t0 interval k) s"
  have ok: "gomap_ok (sd_health ?s)" "sd_max_inactive ?s = sd_max_inactive s"
    using monitor_ok [OF assms(1)] by blast+
  have "t0 + int k * interval \<le> t0 + (int k + 1) * interval" using assms(3) by (simp add: algebra_simps)
  with Suc.IH show ?case
    by (auto simp: flush_times_Suc monitor_append delete_inactive_sel inactive_iff [OF ok(1)] ok(2) algebra_simps
        split: if_splits)
qed

text \<open>C26:
  A silent client is removed in time: after its last health check, a connected client that sends
  no other is kept as long as it counts as active, and its stream and its time are dropped by the
  flushes at the latest one flush interval after it stopped counting as active, and stay dropped.\<close>

theorem silent_client_removed_in_time:
  assumes "gomap_ok (sd_health s)" and "map_of (sd_health s) c = Some t" and "map_of (sd_cxns s) c = Some stream"
    and "sd_flush_interval s > 0" and "t0 \<le> t + sd_max_inactive s"
  shows "\<exists>k. t0 + int k * sd_flush_interval s \<le> t + sd_max_inactive s + sd_flush_interval s \<and>
    (\<forall>j < k. map_of (sd_cxns (health_check_monitor (flush_times t0 (sd_flush_interval s) j) s)) c = Some stream) \<and>
    (\<forall>j \<ge> k. map_of (sd_cxns (health_check_monitor (flush_times t0 (sd_flush_interval s) j) s)) c = None \<and>
       map_of (sd_health (health_check_monitor (flush_times t0 (sd_flush_interval s) j) s)) c = None)"
proof -
  let ?i = "sd_flush_interval s" and ?last = "t + sd_max_inactive s"
  define q where "q = nat ((?last - t0) div ?i)"
  have q: "int q = (?last - t0) div ?i" using assms(4,5) by (simp add: q_def pos_imp_zdiv_nonneg_iff)
  have below: "t0 + int j * ?i \<le> ?last \<longleftrightarrow> j < Suc q" for j
  proof -
    have "t0 + int j * ?i \<le> ?last \<longleftrightarrow> int j * ?i \<le> ?last - t0" by auto
    also have "\<dots> \<longleftrightarrow> int j \<le> (?last - t0) div ?i" using assms(4) by (rule mult_le_iff_le_div)
    also have "\<dots> \<longleftrightarrow> j < Suc q" using q by linarith
    finally show ?thesis .
  qed
  have "t0 + int q * ?i \<le> ?last" using below by simp
  then have "t0 + int (Suc q) * ?i \<le> ?last + ?i" by (simp add: algebra_simps)
  moreover note monitor_lookup [OF assms(1,2,4), of t0]
  ultimately show ?thesis
    using assms(3) below by (intro exI [of _ "Suc q"]) (auto simp del: of_nat_Suc)
qed

theorem silent_client_removed_in_time_witness:
  "\<exists>k. int k * 180 \<le> 430 \<and> (\<forall>j \<ge> k. map_of (sd_cxns (health_check_monitor (flush_times 0 180 j)
     ((new_policy_sender 5 10 180 240)\<lparr>sd_cxns := [(''c'', ())], sd_health := [(''c'', 10)]\<rparr>))) ''c'' = None)"
proof -
  let ?s = "(new_policy_sender 5 10 180 240)\<lparr>sd_cxns := [(''c'', ())], sd_health := [(''c'', 10)]\<rparr>"
  have "gomap_ok (sd_health ?s)" "map_of (sd_health ?s) ''c'' = Some 10" "map_of (sd_cxns ?s) ''c'' = Some ()"
    "sd_flush_interval ?s > 0" "0 \<le> 10 + sd_max_inactive ?s"
    by (simp_all add: gomap_ok_def new_policy_sender_def)
  from silent_client_removed_in_time [OF this] show ?thesis
    by (auto simp: new_policy_sender_def)
qed

lemma health_check_other:
  "c \<noteq> address \<Longrightarrow> map_of (sd_health (snd (health_check address t s))) c = map_of (sd_health s) c"
  by (auto simp: health_check_def split: option.split)

lemma sender_run_ok:
  "gomap_ok (sd_health s) \<Longrightarrow> gomap_ok (sd_health (fold sender_step evs s)) \<and>
   sd_max_inactive (fold sender_step evs s) = sd_max_inactive s"
proof (induction evs rule: rev_induct)
  case (snoc ev evs)
  then show ?case
    by (cases ev) (auto simp: sender_defs delete_inactive_def delete_clients_ok delete_clients_sel split: option.split)
qed simp

text \<open>A client that sends no check has no time.\<close>

lemma unchecked_client:
  "map_of (sd_health s) c = None \<Longrightarrow> \<forall>t. Health c (Some t) \<notin> set evs \<Longrightarrow>
   map_of (sd_health (fold sender_step evs s)) c = None"
proof (induction evs rule: rev_induct)
  case (snoc ev evs)
  then show ?case
  proof (cases ev)
    case (Health a t)
    with snoc show ?thesis
      by (cases t; cases "a = c") (auto simp: health_check_other health_check_def split: option.split)
  qed (auto simp: sender_defs delete_inactive_sel)
qed simp

text \<open>A client stays connected through a flush before which it sent no check at all or a recent one.\<close>

lemma client_kept:
  assumes "gomap_ok (sd_health s)" and "map_of (sd_cxns s) c = Some stream" and "c \<noteq> []"
    and "\<forall>stream. Request c stream \<notin> set evs"
    and "\<forall>before now after. evs = before @ Flush now # after \<longrightarrow>
      (map_of (sd_health s) c = None \<and> (\<forall>t. Health c (Some t) \<notin> set before)) \<or>
      (\<exists>t. Health c (Some t) \<in> set before \<and> now - t \<le> sd_max_inactive s)"
  shows "map_of (sd_cxns (fold sender_step evs s)) c = Some stream"
proof -
  have "map_of (sd_cxns (fold sender_step evs s)) c = Some stream \<and>
      (\<forall>t. Health c (Some t) \<in> set evs \<longrightarrow> (\<exists>t'. map_of (sd_health (fold sender_step evs s)) c = Some t' \<and> t \<le> t'))"
    using assms(4,5)
  proof (induction evs rule: rev_induct)
    case (snoc ev evs)
    let ?s = "fold sender_step evs s"
    have flush: "(map_of (sd_health s) c = None \<and> (\<forall>t. Health c (Some t) \<notin> set before)) \<or>
        (\<exists>t. Health c (Some t) \<in> set before \<and> now - t \<le> sd_max_inactive s)"
      if "evs @ [ev] = before @ Flush now # after" for before now after using that snoc.prems(2) by blast
    have "(map_of (sd_health s) c = None \<and> (\<forall>t. Health c (Some t) \<notin> set before)) \<or>
        (\<exists>t. Health c (Some t) \<in> set before \<and> now - t \<le> sd_max_inactive s)"
      if "evs = before @ Flush now # after" for before now after
      using flush [of before now "after @ [ev]"] that by simp
    with snoc have IH: "map_of (sd_cxns ?s) c = Some stream"
      "\<And>t. Health c (Some t) \<in> set evs \<Longrightarrow> \<exists>t'. map_of (sd_health ?s) c = Some t' \<and> t \<le> t'" by auto
    have ok: "gomap_ok (sd_health ?s)" "sd_max_inactive ?s = sd_max_inactive s"
      using sender_run_ok [OF assms(1)] by blast+
    show ?case
    proof (cases ev)
      case (Flush now)
      have "c \<notin> set (get_inactive_clients now ?s)"
        using flush [of evs now "[]"] IH(2) unchecked_client [of s c evs] Flush by (force simp: inactive_iff [OF ok(1)] ok(2))
      with Flush IH show ?thesis by (simp add: delete_inactive_sel)
    next
      case (Health a t)
      with IH assms(3) show ?thesis
        by (cases t; cases "a = c")
          (auto simp: health_check_lookup health_check_other health_check_def split: option.splits,
           fastforce+)
    qed (use IH snoc.prems in \<open>auto simp: sender_defs\<close>)
  qed (simp add: assms(2))
  then show ?thesis by simp
qed

text \<open>
  An active client is kept: whatever policies are stored and deleted and whatever other clients
  do, a connected client stays connected on its stream through any number of flushes, if before
  each flush it sent a health check whose time is at most the allowed inactivity ago, in
  whatever order its health checks arrived.\<close>

theorem active_client_kept:
  assumes "gomap_ok (sd_health s)" and "map_of (sd_cxns s) c = Some stream" and "c \<noteq> []"
    and "\<forall>stream. Request c stream \<notin> set evs"
    and "\<forall>before now after. evs = before @ Flush now # after \<longrightarrow>
      (\<exists>t. Health c (Some t) \<in> set before \<and> now - t \<le> sd_max_inactive s)"
  shows "map_of (sd_cxns (fold sender_step evs s)) c = Some stream"
  using client_kept [OF assms(1-4)] assms(5) by blast

theorem active_client_kept_witness:
  "map_of (sd_cxns (fold sender_step [Health ''c'' (Some 300), Health ''c'' (Some 100), Flush 360]
     ((new_policy_sender 5 10 180 240)\<lparr>sd_cxns := [(''c'', ())]\<rparr>))) ''c'' = Some ()"
proof (rule active_client_kept)
  show "\<forall>before now after. [Health ''c'' (Some 300), Health ''c'' (Some 100), Flush 360 :: unit sender_event] =
      before @ Flush now # after \<longrightarrow>
    (\<exists>t. Health ''c'' (Some t) \<in> set before \<and>
       now - t \<le> sd_max_inactive ((new_policy_sender 5 10 180 240 :: unit sender)\<lparr>sd_cxns := [(''c'', ())]\<rparr>))"
    by (auto simp: Cons_eq_append_conv new_policy_sender_def)
qed (simp_all add: new_policy_sender_def)

text \<open>C24:
  \<open>SendPolicy\<close> never returns once a client is connected: in every reachable state the caller
  still waits and no goroutine is done, so nothing is ever received from the channel. Every
  run gets stuck in a state where each goroutine blocks on its result, after it delivered the
  policy or gave up; a state is stuck exactly when no goroutine is still sending.\<close>

theorem send_policy_never_returns:
  assumes "streams \<noteq> []" and "send_reach streams st"
  shows "ss_main st = Waiting \<and> (\<forall>w \<in> set (ss_workers st). snd w \<noteq> Finished) \<and>
    ((\<nexists>st'. send_step st st') \<longleftrightarrow> (\<forall>w \<in> set (ss_workers st). snd w \<noteq> Sending)) \<and>
    (\<forall>w \<in> set (ss_workers st). snd w = Offering None \<longrightarrow> fst w \<in> set (ss_delivered st))"
  using send_reach_inv [OF assms(2,1)] send_inv_stuck [of streams st] assms(1)
  by (auto simp: send_inv_def)

theorem send_policy_never_returns_witness:
  "\<exists>st. send_reach [''client''] st \<and> ss_main st = Waiting \<and> (\<nexists>st'. send_step st st') \<and>
     set (ss_delivered st) = {''client''}"
proof -
  let ?st = "(send_start [''client''])\<lparr>ss_workers := [(''client'', Offering None)], ss_delivered := [''client'']\<rparr>"
  have "send_step (send_start [''client'']) ?st"
    using send_step.delivered [of 0 "send_start [''client'']" "''client''"]
    by (simp add: send_start_def)
  then have r: "send_reach [''client''] ?st" by (meson send_reach.intros)
  from send_policy_never_returns [OF _ r] r show ?thesis
    by (intro exI [of _ ?st]) (simp add: send_start_def)
qed

text \<open>
  A client that connects is sent what the control plane holds at that moment: for every name
  the policy stored last and not deleted since, each once and nothing else, on its own stream;
  and from then on its stream is the one registered for its address.\<close>

theorem request_sends_current_policies:
  "set (fst (stream_request c stream (fold sender_step evs (new_policy_sender iw mi fi md)))) =
     (\<lambda>p. (stream, p)) ` ran (last_changes policies_change evs) \<and>
   length (fst (stream_request c stream (fold sender_step evs (new_policy_sender iw mi fi md)))) =
     card (dom (last_changes policies_change evs)) \<and>
   map_of (sd_cxns (snd (stream_request c stream s))) c = Some stream"
proof -
  let ?m = "fold policies_event evs []"
  have m: "map_of ?m = last_changes policies_change evs"
    by (rule ext) (rule sent.events_lookup)
  have ok: "distinct (map fst ?m)"
    using sent.events_ok [OF gomap_ok_Nil, of evs] by (simp add: gomap_ok_def)
  have "snd ` set ?m = ran (map_of ?m)" using ok by (simp add: ran_distinct)
  moreover have "length ?m = card (dom (map_of ?m))"
    using distinct_card [OF ok] by (simp add: dom_map_of_conv_image_fst)
  ultimately show ?thesis
    by (auto simp: stream_request_def sender_run_policies new_policy_sender_def image_image case_prod_beta m
        simp flip: image_image)
qed

text \<open>
  Health checks keep the latest time whatever their order, and a flush drops exactly the
  clients whose latest time is too old: their streams and their times. A client that never
  sent a health check is not dropped by any flush, however long it is silent.\<close>

theorem flush_drops_inactive:
  assumes "c \<noteq> []" and "ts \<noteq> []" and "map_of (sd_health s) c = None" and "gomap_ok (sd_health s)"
  shows "map_of (sd_health (health_checks c ts s)) c = Some (Max (set ts)) \<and>
    map_of (sd_cxns (delete_inactive now (health_checks c ts s))) c =
      (if now - Max (set ts) > sd_max_inactive (health_checks c ts s) then None
       else map_of (sd_cxns (health_checks c ts s)) c) \<and>
    map_of (sd_cxns (delete_inactive now s)) c = map_of (sd_cxns s) c"
  using assms health_checks_lookup [OF assms(1), of ts s] health_checks_ok [OF assms(4), of c ts]
  by (simp add: delete_inactive_sel inactive_iff)

theorem flush_drops_inactive_witness:
  "map_of (sd_cxns (delete_inactive 100 (health_checks ''c'' [10, 30, 20]
     ((new_policy_sender 1 2 3 50)\<lparr>sd_cxns := [(''c'', ())]\<rparr>)))) ''c'' = None"
  using flush_drops_inactive [of "''c''" "[10, 30, 20]" "(new_policy_sender 1 2 3 50)\<lparr>sd_cxns := [(''c'', ())]\<rparr>" 100]
  by (simp add: new_policy_sender_def health_check_def)

text \<open>
  A client that was flushed stays disconnected until it opens a new stream: whatever the control
  plane does next, health checks of that client included, no stream is registered for it, so no
  update is sent to it, although its health checks are answered and make it count as active.\<close>

theorem flushed_client_stays_disconnected:
  assumes "c \<in> set (get_inactive_clients now s)" and "\<forall>stream. Request c stream \<notin> set evs"
  shows "map_of (sd_cxns (fold sender_step (Flush now # evs) s)) c = None \<and>
    (c \<noteq> [] \<longrightarrow> fst (health_check c (Some t) (fold sender_step (Flush now # evs) s)) \<and>
      map_of (sd_health (snd (health_check c (Some t) (fold sender_step (Flush now # evs) s)))) c \<noteq> None)"
proof -
  have "map_of (sd_cxns (delete_inactive now s)) c = None"
    using assms(1) by (simp add: delete_inactive_sel)
  from run_keeps_disconnected [OF this assms(2)] show ?thesis
    by (simp add: health_check_lookup) (simp add: health_check_def)
qed

theorem flushed_client_stays_disconnected_witness:
  "map_of (sd_cxns (fold sender_step [Flush 100, Health ''c'' (Some 100), Store (deletion ''p'')]
     ((new_policy_sender 1 2 3 50)\<lparr>sd_cxns := [(''c'', ())], sd_health := [(''c'', 10)]\<rparr>))) ''c'' = None"
  using flushed_client_stays_disconnected [of "''c''" 100
      "(new_policy_sender 1 2 3 50)\<lparr>sd_cxns := [(''c'', ())], sd_health := [(''c'', 10)]\<rparr>"
      "[Health ''c'' (Some 100), Store (deletion ''p'')]"]
  by (simp add: get_inactive_clients_def new_policy_sender_def)

text \<open>C23:
  The control plane holds, for each name, the message of the policy of an authorization mode it
  reconciled last, unless it was deleted since. A reconciliation that finds the policy in
  another mode changes nothing and sends nothing, so a policy that left the authorization modes
  stays in force on the authorization servers.\<close>

theorem reconciled_policies:
  "map_of (sd_policies (reconcile_all api evs (new_policy_sender iw mi fi md))) =
     last_changes (reconcile_change api) evs \<and>
   (\<not> authz_mode (api_evaluation_mode api (vp_spec pol)) \<longrightarrow>
      policy_reconcile api (\<lambda>_. Found pol) req (Some s) = (None, Some s, []))"
proof
  show "map_of (sd_policies (reconcile_all api evs (new_policy_sender iw mi fi md))) =
     last_changes (reconcile_change api) evs"
    by (rule ext) (simp add: reconcile_all_policies new_policy_sender_def reconciled.events_lookup)
  show "\<not> authz_mode (api_evaluation_mode api (vp_spec pol)) \<longrightarrow>
      policy_reconcile api (\<lambda>_. Found pol) req (Some s) = (None, Some s, [])"
    by (simp add: policy_reconcile_def authz_mode_def)
qed

theorem reconciled_policies_witness:
  "policy_reconcile kyverno_api
     (\<lambda>_. Found (sample_policy\<lparr>vp_spec := (vp_spec sample_policy)\<lparr>sp_evaluation := Some ''JSON''\<rparr>\<rparr>)) ''p''
     (Some (store_policy (to_proto kyverno_api sample_policy) (new_policy_sender 1 2 3 4))) =
   (None, Some (store_policy (to_proto kyverno_api sample_policy) (new_policy_sender 1 2 3 4 :: unit sender)), [])"
proof -
  have "\<not> authz_mode (api_evaluation_mode kyverno_api
      (vp_spec (sample_policy\<lparr>vp_spec := (vp_spec sample_policy)\<lparr>sp_evaluation := Some ''JSON''\<rparr>\<rparr>)))"
    by (simp add: kyverno_api_def mode_defs)
  then show ?thesis
    using reconciled_policies [of kyverno_api "[]" 1 2 3 4
      "sample_policy\<lparr>vp_spec := (vp_spec sample_policy)\<lparr>sp_evaluation := Some ''JSON''\<rparr>\<rparr>" "''p''"
      "store_policy (to_proto kyverno_api sample_policy) (new_policy_sender 1 2 3 4)"] by blast
qed

end
