(* ===== verification/Policy_Listener.thy ===== *)
theory Policy_Listener
  imports Keyed_Sources "HOL-Library.Multiset"
begin

section \<open>The listener of an authorization server\<close>

text \<open>
  Models \<open>pkg/control-plane/listener/listener.go\<close>: the loop that reads messages from the stream
  and the goroutines it starts, one per message, which hand it to the processors of the
  evaluation modes. \<open>recv_result\<close> is what one turn of the loop meets: the end of the context
  or the result of \<open>Recv\<close>. A goroutine runs as one step; the steps of the goroutines interleave
  with the loop in any order. The gRPC client is a parameter. The
  loop of its health checks is in \<open>Health_Checks\<close>.
\<close>

type_synonym processors = "(string, (string, vpol) gomap) gomap"

fun process_all :: "proto_policy \<Rightarrow> processors \<Rightarrow> processors outcome" where
  "process_all req [] = Ret []"
| "process_all req ((mode, m) # ps) =
     bind_outcome (listener_process req m) (\<lambda>m'.
       bind_outcome (process_all req ps) (\<lambda>ps'. Ret ((mode, m') # ps')))"

text \<open>The body of a message's goroutine.\<close>

definition handle_message :: "proto_policy \<Rightarrow> processors \<Rightarrow> processors outcome" where
  "handle_message req procs =
     (if pp_delete req then process_all req procs
      else case pp_spec req of
        None \<Rightarrow> Panic ''nil pointer dereference''
      | Some spec \<Rightarrow>
          (case map_of procs (ps_evaluation_mode spec) of
             None \<Rightarrow> Ret procs
           | Some m \<Rightarrow>
               bind_outcome (listener_process req m)
                 (\<lambda>m'. Ret (AList.update (ps_evaluation_mode spec) m' procs))))"

subsection \<open>The connection\<close>

record policy_listener =
  pl_control_plane_addr :: string
  pl_client_addr :: string
  pl_processors :: processors
  pl_conn_established :: bool
  pl_connected :: bool
  pl_reconnect_wait :: int
  pl_max_dial_interval :: int
  pl_health_interval :: int

definition new_policy_listener ::
  "string \<Rightarrow> string \<Rightarrow> processors \<Rightarrow> int \<Rightarrow> int \<Rightarrow> int \<Rightarrow> policy_listener" where
  "new_policy_listener cp_addr client_addr procs reconnect_wait max_dial health =
     \<lparr>pl_control_plane_addr = cp_addr, pl_client_addr = client_addr, pl_processors = procs,
      pl_conn_established = False, pl_connected = False, pl_reconnect_wait = reconnect_wait,
      pl_max_dial_interval = max_dial, pl_health_interval = health\<rparr>"

definition dial :: "go_error option \<Rightarrow> policy_listener \<Rightarrow> go_error option \<times> policy_listener" where
  "dial new_client l =
     (let l = l\<lparr>pl_conn_established := False\<rparr>
      in case new_client of
           Some err \<Rightarrow> (Some err, l)
         | None \<Rightarrow> (None, l\<lparr>pl_connected := True\<rparr>))"

text \<open>
  \<open>backoff.Retry\<close> is third-party. It makes at least one attempt; the answers of the dial attempts
  it makes, the first one and those after it, are its arguments, the last one being its result.
\<close>

fun dial_retry ::
  "go_error option \<Rightarrow> go_error option list \<Rightarrow> policy_listener \<Rightarrow> go_error option \<times> policy_listener" where
  "dial_retry a [] l = dial a l"
| "dial_retry a (a' # as) l =
     (case dial a l of
        (Some err, l') \<Rightarrow> dial_retry a' as l'
      | (None, l') \<Rightarrow> (None, l'))"

datatype recv_result = Cancelled | Message proto_policy | Eof | Recv_error go_error

text \<open>
  The loop over the stream: it returns the messages whose goroutines it started and the requests
  it sent. \<open>send_err\<close> is the result of sending the request of a new connection. The context is
  looked at before the request is sent.
\<close>

fun listen_loop ::
  "go_error option \<Rightarrow> recv_result list \<Rightarrow> policy_listener \<Rightarrow> proto_policy list \<times> string list \<times> policy_listener" where
  "listen_loop send_err [] l = ([], [], l)"
| "listen_loop send_err (r # rs) l =
     (if r = Cancelled then ([], [], l)
      else if \<not> pl_conn_established l \<and> send_err \<noteq> None then ([], [], l)
      else
        (let sent = (if pl_conn_established l then [] else [pl_client_addr l]);
             l' = l\<lparr>pl_conn_established := True\<rparr>
         in case r of
              Message req \<Rightarrow>
                (case listen_loop send_err rs l' of (msgs, reqs, l'') \<Rightarrow> (req # msgs, sent @ reqs, l''))
            | _ \<Rightarrow> ([], sent, l')))"

definition listen ::
  "go_error option \<Rightarrow> go_error option \<Rightarrow> recv_result list \<Rightarrow> policy_listener \<Rightarrow>
   (go_error option \<times> proto_policy list \<times> string list) \<times> policy_listener" where
  "listen stream_err send_err rs l =
     (case stream_err of
        Some err \<Rightarrow> ((Some err, [], []), l)
      | None \<Rightarrow> (case listen_loop send_err rs l of (msgs, reqs, l') \<Rightarrow> ((None, msgs, reqs), l')))"

text \<open>\<open>Start\<close> returns its error, the goroutines it started for messages and the health-check loops it left running.\<close>

definition start_listener ::
  "go_error option \<Rightarrow> go_error option list \<Rightarrow> go_error option \<Rightarrow> go_error option \<Rightarrow> recv_result list \<Rightarrow>
   policy_listener \<Rightarrow> (go_error option \<times> proto_policy list \<times> nat) \<times> policy_listener" where
  "start_listener dial1 dials stream_err send_err rs l =
     (case dial_retry dial1 dials l of
        (Some err, l') \<Rightarrow> ((Some err, [], 0), l')
      | (None, l') \<Rightarrow>
          (case listen stream_err send_err rs l' of
             ((err, msgs, reqs), l'') \<Rightarrow> ((err, msgs, 1), l'')))"

subsection \<open>Interleavings\<close>

record listener_state =
  ls_incoming :: "proto_policy list"
  ls_pending :: "proto_policy list"
  ls_done :: "proto_policy list"
  ls_procs :: processors

inductive listener_step :: "listener_state \<Rightarrow> listener_state \<Rightarrow> bool" where
  receive: "ls_incoming st = req # rest \<Longrightarrow>
    listener_step st (st\<lparr>ls_incoming := rest, ls_pending := ls_pending st @ [req]\<rparr>)"
| run: "ls_pending st = before @ req # after \<Longrightarrow> handle_message req (ls_procs st) = Ret procs \<Longrightarrow>
    listener_step st (st\<lparr>ls_pending := before @ after, ls_done := ls_done st @ [req], ls_procs := procs\<rparr>)"

definition listener_start :: "proto_policy list \<Rightarrow> processors \<Rightarrow> listener_state" where
  "listener_start msgs procs = \<lparr>ls_incoming = msgs, ls_pending = [], ls_done = [], ls_procs = procs\<rparr>"

inductive listener_reach :: "listener_state \<Rightarrow> listener_state \<Rightarrow> bool" for st0 where
  start: "listener_reach st0 st0"
| step: "listener_reach st0 st \<Longrightarrow> listener_step st st' \<Longrightarrow> listener_reach st0 st'"

inductive_cases listener_stepE: "listener_step st st'"

text \<open>Handling messages one after the other.\<close>

fun handle_all :: "proto_policy list \<Rightarrow> processors \<Rightarrow> processors outcome" where
  "handle_all [] procs = Ret procs"
| "handle_all (req # reqs) procs = bind_outcome (handle_message req procs) (handle_all reqs)"

lemma handle_all_append: "handle_all (xs @ ys) procs = bind_outcome (handle_all xs procs) (handle_all ys)"
proof (induction xs arbitrary: procs)
  case (Cons x xs)
  then show ?case by (cases "handle_message x procs") simp_all
qed simp

definition listener_inv :: "proto_policy list \<Rightarrow> processors \<Rightarrow> listener_state \<Rightarrow> bool" where
  "listener_inv msgs procs st \<longleftrightarrow>
     mset (ls_done st) + mset (ls_pending st) + mset (ls_incoming st) = mset msgs \<and>
     handle_all (ls_done st) procs = Ret (ls_procs st)"

lemma listener_inv_step [go_inv]:
  assumes "listener_inv msgs procs st" and "listener_step st st'"
  shows "listener_inv msgs procs st'"
  using assms(2,1) by cases (auto simp: listener_inv_def handle_all_append union_ac)

lemma listener_reach_inv:
  assumes "listener_reach (listener_start msgs procs) st"
  shows "listener_inv msgs procs st"
  using assms
proof (induction rule: listener_reach.induct)
  case start
  then show ?case by (simp add: listener_inv_def listener_start_def)
qed (rule listener_inv_step)

text \<open>Handling the messages in order is one of the runs.\<close>

lemma listener_run_in_order:
  assumes "handle_all msgs procs = Ret procs'"
    and "listener_reach s0 \<lparr>ls_incoming = msgs, ls_pending = [], ls_done = ds, ls_procs = procs\<rparr>"
  shows "listener_reach s0 \<lparr>ls_incoming = [], ls_pending = [], ls_done = ds @ msgs, ls_procs = procs'\<rparr>"
  using assms
proof (induction msgs arbitrary: ds procs)
  case (Cons req reqs)
  let ?s0 = "\<lparr>ls_incoming = req # reqs, ls_pending = [], ls_done = ds, ls_procs = procs\<rparr>"
  let ?s1 = "\<lparr>ls_incoming = reqs, ls_pending = [req], ls_done = ds, ls_procs = procs\<rparr>"
  obtain ps where ps: "handle_message req procs = Ret ps" "handle_all reqs ps = Ret procs'"
    using Cons.prems(1) by (cases "handle_message req procs") auto
  have "listener_step ?s0 ?s1" using listener_step.receive [of ?s0 req reqs] by simp
  moreover have "listener_step ?s1 \<lparr>ls_incoming = reqs, ls_pending = [], ls_done = ds @ [req], ls_procs = ps\<rparr>"
    using listener_step.run [of ?s1 "[]" req "[]" ps] ps(1) by simp
  ultimately show ?case
    using Cons.IH [OF ps(2), of "ds @ [req]"] Cons.prems(2) by (auto intro: listener_reach.step)
qed simp

lemma listener_in_order:
  "handle_all msgs procs = Ret procs' \<Longrightarrow>
   listener_reach (listener_start msgs procs) \<lparr>ls_incoming = [], ls_pending = [], ls_done = msgs, ls_procs = procs'\<rparr>"
  using listener_run_in_order [of msgs procs procs' "listener_start msgs procs" "[]"] listener_reach.start
  by (simp add: listener_start_def)

lemma handle_policy:
  assumes "authz_mode (api_evaluation_mode api (vp_spec p))"
    and "map_of procs (api_evaluation_mode api (vp_spec p)) = Some m"
  shows "handle_message (to_proto api p) procs =
    Ret (AList.update (api_evaluation_mode api (vp_spec p)) (AList.update (vp_name p) (transported api p) m) procs)"
proof -
  have "ps_evaluation_mode (the (pp_spec (to_proto api p))) = api_evaluation_mode api (vp_spec p)"
    "\<exists>spec. pp_spec (to_proto api p) = Some spec" by (simp_all add: to_proto_def Let_def)
  with assms from_to_proto [OF assms(1)] show ?thesis
    by (auto simp: handle_message_def listener_process_def to_proto_sel)
qed

lemma handle_deletion:
  "handle_message (deletion n) procs = Ret (map (\<lambda>(mode, m). (mode, AList.delete n m)) procs)"
proof -
  have "process_all (deletion n) procs = Ret (map (\<lambda>(mode, m). (mode, AList.delete n m)) procs)"
    by (induction procs) (auto simp: listener_process_def deletion_def)
  then show ?thesis by (simp add: handle_message_def) (simp add: deletion_def)
qed

subsection \<open>Properties\<close>

text \<open>
  Every message is handled once: a reachable state where nothing is left to receive or to run
  holds what handling all received messages gives, in some order. The order is not the order
  of the stream: the messages only agree as multisets.\<close>

theorem listener_handles_permutation:
  assumes "listener_reach (listener_start msgs procs) st" and "ls_incoming st = []" and "ls_pending st = []"
  shows "mset (ls_done st) = mset msgs \<and> handle_all (ls_done st) procs = Ret (ls_procs st)"
  using listener_reach_inv [OF assms(1)] assms(2,3) by (simp add: listener_inv_def)

text \<open>
  A deletion can be lost: when the deletion of a policy follows its update on the stream, there
  is a run in which all messages are handled and the policy is still in force at the end.\<close>

theorem deletion_can_be_undone:
  assumes "authz_mode (api_evaluation_mode api (vp_spec p))" and "api_evaluation_mode api (vp_spec p) = mode"
  shows "\<exists>st. listener_reach (listener_start [to_proto api p, deletion (vp_name p)] [(mode, m)]) st \<and>
    ls_incoming st = [] \<and> ls_pending st = [] \<and>
    (\<exists>m'. ls_procs st = [(mode, m')] \<and> map_of m' (vp_name p) = Some (transported api p))"
proof -
  let ?u = "to_proto api p" and ?d = "deletion (vp_name p)" and ?m = "AList.delete (vp_name p) m"
  let ?s0 = "listener_start [?u, ?d] [(mode, m)]"
  let ?s2 = "\<lparr>ls_incoming = [], ls_pending = [?u, ?d], ls_done = [], ls_procs = [(mode, m)]\<rparr>"
  let ?s3 = "\<lparr>ls_incoming = [], ls_pending = [?u], ls_done = [?d], ls_procs = [(mode, ?m)]\<rparr>"
  let ?s4 = "\<lparr>ls_incoming = [], ls_pending = [], ls_done = [?d, ?u],
      ls_procs = [(mode, AList.update (vp_name p) (transported api p) ?m)]\<rparr>"
  have "listener_step ?s0 (?s0\<lparr>ls_incoming := [?d], ls_pending := [?u]\<rparr>)"
    using listener_step.receive [of ?s0 ?u "[?d]"] by (simp add: listener_start_def)
  moreover have "listener_step (?s0\<lparr>ls_incoming := [?d], ls_pending := [?u]\<rparr>) ?s2"
    using listener_step.receive [of "?s0\<lparr>ls_incoming := [?d], ls_pending := [?u]\<rparr>" ?d "[]"]
    by (simp add: listener_start_def)
  moreover have "listener_step ?s2 ?s3"
    using listener_step.run [of ?s2 "[?u]" ?d "[]"] by (simp add: handle_deletion)
  moreover have "listener_step ?s3 ?s4"
    using listener_step.run [of ?s3 "[]" ?u "[]"] handle_policy [of api p "[(mode, ?m)]" ?m] assms by simp
  ultimately have "listener_reach ?s0 ?s4" by (meson listener_reach.intros)
  then show ?thesis by (intro exI [of _ ?s4]) simp
qed

text \<open>
  A policy that changes its mode stays in force in the old one: after its version for one mode
  and then its version for another were handled in order, both processors hold a version, and
  the processor of the old mode the outdated one.\<close>

theorem mode_change_leaves_stale:
  assumes "authz_mode m1" and "authz_mode m2" and "m1 \<noteq> m2"
    and "api_evaluation_mode api (vp_spec p) = m1" and "api_evaluation_mode api (vp_spec q) = m2"
    and "vp_name p = n" and "vp_name q = n"
  shows "\<exists>a b. handle_all [to_proto api p, to_proto api q] [(m1, []), (m2, [])] = Ret [(m1, a), (m2, b)] \<and>
    map_of a n = Some (transported api p) \<and> map_of b n = Some (transported api q)"
  using assms handle_policy [of api p "[(m1, []), (m2, [])]" "[]"]
    handle_policy [of api q "[(m1, [(n, transported api p)]), (m2, [])]" "[]"]
  by simp

text \<open>
  The loop starts one goroutine per message, in order, up to the end of the stream, an error or
  the end of the context, and introduces the client exactly once per connection, before it
  reads the first message; the end of the stream and errors on it are not reported.\<close>

theorem listen_starts_messages:
  assumes "\<not> pl_conn_established l" and "stop \<in> {Cancelled, Eof, Recv_error err}" and "msgs \<noteq> []"
  shows "fst (listen None None (map Message msgs @ stop # rest) l) = (None, msgs, [pl_client_addr l]) \<and>
    fst (listen None (Some e) (map Message msgs @ stop # rest) l) = (None, [], [])"
proof -
  have est: "listen_loop None (map Message ms @ stop # rest) (l\<lparr>pl_conn_established := True\<rparr>) =
      (ms, [], l\<lparr>pl_conn_established := True\<rparr>)" for ms
    using assms(2) by (induction ms) auto
  obtain q qs where "msgs = q # qs" using assms(3) by (cases msgs) auto
  then show ?thesis using assms(1,2) est [of qs]
    by (auto simp: listen_def)
qed

theorem listener_handles_permutation_witness:
  "mset [deletion ''p''] = mset [deletion ''p''] \<and> handle_all [deletion ''p''] [] = Ret []"
proof -
  have "handle_all [deletion ''p''] [] = Ret []" by (simp add: handle_deletion)
  from listener_handles_permutation [OF listener_in_order [OF this]] show ?thesis by simp
qed

theorem deletion_can_be_undone_witness:
  "\<exists>st. listener_reach (listener_start [to_proto kyverno_api sample_policy, deletion ''p''] [(''HTTP'', [])]) st \<and>
    ls_incoming st = [] \<and> ls_pending st = [] \<and>
    (\<exists>m'. ls_procs st = [(''HTTP'', m')] \<and> map_of m' ''p'' = Some (transported kyverno_api sample_policy))"
proof -
  have "api_evaluation_mode kyverno_api (vp_spec sample_policy) = ''HTTP''" "vp_name sample_policy = ''p''"
    by (simp_all add: sample_policy_def kyverno_api_def)
  with deletion_can_be_undone [OF sample_mode, of "''HTTP''" "[]"] show ?thesis by simp
qed

definition envoy_version :: vpol where
  "envoy_version = sample_policy\<lparr>vp_spec := (vp_spec sample_policy)\<lparr>sp_evaluation := Some ''Envoy''\<rparr>\<rparr>"

theorem mode_change_leaves_stale_witness:
  "\<exists>a b. handle_all [to_proto kyverno_api envoy_version, to_proto kyverno_api sample_policy]
      [(''Envoy'', []), (''HTTP'', [])] = Ret [(''Envoy'', a), (''HTTP'', b)] \<and>
    map_of a ''p'' = Some (transported kyverno_api envoy_version) \<and>
    map_of b ''p'' = Some (transported kyverno_api sample_policy)"
proof -
  have "api_evaluation_mode kyverno_api (vp_spec sample_policy) = ''HTTP''" "vp_name sample_policy = ''p''"
    "api_evaluation_mode kyverno_api (vp_spec envoy_version) = ''Envoy''" "vp_name envoy_version = ''p''"
    "authz_mode ''HTTP''" "authz_mode ''Envoy''"
    by (simp_all add: sample_policy_def envoy_version_def kyverno_api_def mode_defs)
  with mode_change_leaves_stale show ?thesis by simp
qed

theorem listen_starts_messages_witness:
  "fst (listen None None [Message (deletion ''p''), Eof] (new_policy_listener ''cp'' ''me'' [] 1 2 3)) =
   (None, [deletion ''p''], [''me''])"
  using listen_starts_messages [of "new_policy_listener ''cp'' ''me'' [] 1 2 3" Eof undefined "[deletion ''p'']"
      "[]" undefined]
  by (simp add: new_policy_listener_def)

end
