(* ===== verification/Control_Plane.thy ===== *)
theory Control_Plane
  imports Policy_Sender Policy_Listener
begin

section \<open>The control plane from the cluster to an authorization server\<close>

text \<open>
  Composes the reconciler and the sender (\<open>Policy_Sender\<close>) with the listener of a server
  (\<open>Policy_Listener\<close>): what a server holds after it connected, and after it connected again,
  whatever the order in which the goroutines of its messages run. The stream is third-party: it delivers what is sent on it.
\<close>

text \<open>What a reconciliation says about the policies of the authorization modes.\<close>

fun policy_change :: "vpol_api \<Rightarrow> string \<times> vpol get_result \<Rightarrow> (string \<times> vpol option) option" where
  "policy_change api (req, Found pol) =
     (if authz_mode (api_evaluation_mode api (vp_spec pol)) then Some (vp_name pol, Some pol) else None)"
| "policy_change api (req, Not_found) = Some (req, None)"
| "policy_change api (req, Get_error err) = None"

text \<open>The policies the control plane keeps: of each name the last version in an authorization mode.\<close>

definition kept_policies :: "vpol_api \<Rightarrow> (string \<times> vpol get_result) list \<Rightarrow> string \<Rightarrow> vpol option" where
  "kept_policies api evs = last_changes (policy_change api) evs"

text \<open>The policies of a mode as they are read from the wire.\<close>

definition transported_policies :: "vpol_api \<Rightarrow> string \<Rightarrow> (string \<Rightarrow> vpol option) \<Rightarrow> string \<Rightarrow> vpol option" where
  "transported_policies api mode pols n =
     (case pols n of
        Some p \<Rightarrow> if api_evaluation_mode api (vp_spec p) = mode then Some (transported api p) else None
      | None \<Rightarrow> None)"

lemma reconcile_last_changes:
  "last_changes (reconcile_change api) evs n = map_option (to_proto api) (kept_policies api evs n)"
proof (induction evs rule: rev_induct)
  case (snoc ev evs)
  then show ?case
    by (cases "(api, ev)" rule: policy_change.cases) (simp_all add: kept_policies_def)
qed (simp add: kept_policies_def)

lemma kept_policy:
  "kept_policies api evs n = Some p \<Longrightarrow> vp_name p = n \<and> authz_mode (api_evaluation_mode api (vp_spec p))"
proof (induction evs rule: rev_induct)
  case (snoc ev evs)
  then show ?case
    by (cases "(api, ev)" rule: policy_change.cases)
      (simp_all add: kept_policies_def split: if_splits)
qed (simp add: kept_policies_def)

text \<open>
  What the cluster holds: of each name the version it answered last, whatever its mode. What a
  connected server should serve of it are the policies of its mode. The control plane ignores a version in another mode
  than the authorization modes, so a policy that left them is served as it was before.
\<close>

fun found_change :: "string \<times> vpol get_result \<Rightarrow> (string \<times> vpol option) option" where
  "found_change (req, Found pol) = Some (vp_name pol, Some pol)"
| "found_change (req, Not_found) = Some (req, None)"
| "found_change (req, Get_error err) = None"

definition latest_policies :: "(string \<times> vpol get_result) list \<Rightarrow> string \<Rightarrow> vpol option" where
  "latest_policies evs = last_changes found_change evs"

definition served_policies :: "vpol_api \<Rightarrow> string \<Rightarrow> (string \<times> vpol get_result) list \<Rightarrow> string \<Rightarrow> vpol option" where
  "served_policies api mode evs n =
     (case latest_policies evs n of
        None \<Rightarrow> None
      | Some p \<Rightarrow>
          if authz_mode (api_evaluation_mode api (vp_spec p))
          then (if api_evaluation_mode api (vp_spec p) = mode then Some (transported api p) else None)
          else transported_policies api mode (kept_policies api evs) n)"

lemma latest_kept:
  "(latest_policies evs n = None \<longrightarrow> kept_policies api evs n = None) \<and>
   (\<forall>p. latest_policies evs n = Some p \<longrightarrow> authz_mode (api_evaluation_mode api (vp_spec p)) \<longrightarrow>
      kept_policies api evs n = Some p)"
proof (induction evs rule: rev_induct)
  case (snoc ev evs)
  then show ?case
    by (cases "(api, ev)" rule: policy_change.cases) (auto simp: kept_policies_def latest_policies_def)
qed (simp add: kept_policies_def latest_policies_def)

lemma served_kept: "transported_policies api mode (kept_policies api evs) = served_policies api mode evs"
proof
  fix n
  show "transported_policies api mode (kept_policies api evs) n = served_policies api mode evs n"
    using latest_kept [of evs n api]
    by (cases "latest_policies evs n") (simp_all add: served_policies_def transported_policies_def)
qed

subsection \<open>A server of one mode\<close>

text \<open>
  A server holds the processor of its mode only. Handling messages makes of it a keyed store:
  \<open>mode_change\<close> is what a message says of the policies of the mode.
\<close>

definition mode_event :: "string \<Rightarrow> proto_policy \<Rightarrow> (string, vpol) gomap \<Rightarrow> (string, vpol) gomap" where
  "mode_event mode req m = (case handle_message req [(mode, m)] of Ret [(_, m')] \<Rightarrow> m' | _ \<Rightarrow> m)"

definition mode_change :: "string \<Rightarrow> proto_policy \<Rightarrow> (string \<times> vpol option) option" where
  "mode_change mode req =
     (if pp_delete req then Some (pp_name req, None)
      else case pp_spec req of
        None \<Rightarrow> None
      | Some spec \<Rightarrow>
          if ps_evaluation_mode spec \<noteq> mode then None
          else (case from_proto req of Ret p \<Rightarrow> Some (pp_name req, Some p) | Panic _ \<Rightarrow> None))"

lemma handle_mode:
  "handle_message req [(mode, m)] =
     (if pp_delete req then Ret [(mode, AList.delete (pp_name req) m)]
      else case pp_spec req of
        None \<Rightarrow> Panic ''nil pointer dereference''
      | Some spec \<Rightarrow>
          if ps_evaluation_mode spec \<noteq> mode then Ret [(mode, m)]
          else bind_outcome (from_proto req) (\<lambda>p. Ret [(mode, AList.update (pp_name req) p m)]))"
  by (cases "from_proto req") (auto simp: handle_message_def listener_process_def split: option.split)

interpretation server: keyed_store "mode_event mode" "mode_change mode" for mode
proof
  fix m and ev :: proto_policy and k
  show "gomap_ok m \<Longrightarrow> gomap_ok (mode_event mode ev m)"
    by (cases "from_proto ev") (auto simp: mode_event_def handle_mode split: option.split)
  show "map_of (mode_event mode ev m) k = (case mode_change mode ev of None \<Rightarrow> map_of m k
      | Some (k', v) \<Rightarrow> if k = k' then v else map_of m k)"
    by (cases "from_proto ev") (auto simp: mode_event_def mode_change_def handle_mode split: option.split)
qed

lemma handle_all_mode: "handle_all reqs [(mode, m)] = Ret procs \<Longrightarrow> procs = [(mode, fold (mode_event mode) reqs m)]"
proof (induction reqs arbitrary: m)
  case (Cons req reqs)
  have "handle_message req [(mode, m)] = Ret ps \<Longrightarrow> ps = [(mode, mode_event mode req m)]" for ps
    by (cases "from_proto req") (auto simp: mode_event_def handle_mode split: option.splits if_splits)
  with Cons show ?case by (cases "handle_message req [(mode, m)]") auto
qed simp

text \<open>What a server holds after a run of its listener that handled all messages.\<close>

lemma handled_load:
  assumes "listener_reach (listener_start msgs [(mode, m)]) st" and "ls_incoming st = []" and "ls_pending st = []"
    and "gomap_ok m" and "map_of (fold (mode_event mode) (ls_done st) m) = pols"
  shows "\<exists>m'. ls_procs st = [(mode, m')] \<and> gomap_ok m' \<and> map_of m' = pols \<and>
    fst (listener_load m') = (values_by_key pols, None)"
  using listener_reach_inv [OF assms(1)] assms(2-5) handle_all_mode [of "ls_done st" mode m "ls_procs st"]
    server.events_ok [OF assms(4), of mode "ls_done st"]
  by (auto simp: listener_inv_def listener_load_def sorted_values_by_key)

lemma handled_set:
  assumes "listener_reach (listener_start msgs procs) st" and "ls_incoming st = []" and "ls_pending st = []"
  shows "set (ls_done st) = set msgs"
  using listener_reach_inv [OF assms(1)] assms(2,3) by (auto simp: listener_inv_def dest: mset_eq_setD)

lemma mode_change_policy:
  "authz_mode (api_evaluation_mode api (vp_spec p)) \<Longrightarrow>
   mode_change mode (to_proto api p) =
     (if api_evaluation_mode api (vp_spec p) = mode then Some (vp_name p, Some (transported api p)) else None)"
  by (cases "pp_spec (to_proto api p)") (auto simp: mode_change_def from_to_proto to_proto_sel, auto simp: to_proto_def Let_def)

lemma mode_change_deletion: "mode_change mode (deletion n) = Some (n, None)"
  by (simp add: mode_change_def deletion_def)

text \<open>The messages a connecting client is sent.\<close>

definition connection_messages :: "vpol_api \<Rightarrow> (string \<times> vpol get_result) list \<Rightarrow> 's sender \<Rightarrow> string \<Rightarrow> 's \<Rightarrow> proto_policy list" where
  "connection_messages api evs s c stream = map snd (fst (stream_request c stream (reconcile_all api evs s)))"

lemma reconciled_values:
  "snd ` set (fold (reconcile_event api) evs []) = to_proto api ` ran (kept_policies api evs)"
proof -
  let ?m = "fold (reconcile_event api) evs []"
  have ok: "distinct (map fst ?m)"
    using reconciled.events_ok [OF gomap_ok_Nil, of api evs] by (simp add: gomap_ok_def)
  have m: "map_of ?m = (\<lambda>n. map_option (to_proto api) (kept_policies api evs n))"
    by (rule ext) (simp add: reconciled.events_lookup reconcile_last_changes)
  have "snd ` set ?m = ran (map_of ?m)" using ok by (simp add: ran_distinct)
  then show ?thesis by (auto simp: m ran_def)
qed

lemma connection_messages_set:
  "set (connection_messages api evs (new_policy_sender iw mi fi md) c stream) =
     to_proto api ` ran (kept_policies api evs)"
  unfolding reconciled_values [symmetric]
  by (simp add: connection_messages_def stream_request_def reconcile_all_policies new_policy_sender_def
      case_prod_beta image_image)

text \<open>The messages of a connection say of a mode what its current policies are, in any order.\<close>

lemma connection_change:
  assumes "set ds = to_proto api ` ran (kept_policies api evs)"
  shows "d \<in> set ds \<Longrightarrow> mode_change mode d = Some (n, v) \<Longrightarrow>
      v = transported_policies api mode (kept_policies api evs) n"
    and "(\<exists>d \<in> set ds. \<exists>v. mode_change mode d = Some (n, v)) \<longleftrightarrow>
      transported_policies api mode (kept_policies api evs) n \<noteq> None"
proof -
  have d: "d \<in> set ds \<longleftrightarrow> (\<exists>n p. kept_policies api evs n = Some p \<and> d = to_proto api p)" for d
    using assms by (auto simp: ran_def)
  have change: "mode_change mode (to_proto api p) =
      (if api_evaluation_mode api (vp_spec p) = mode then Some (n, Some (transported api p)) else None)"
    if "kept_policies api evs n = Some p" for n p
    using kept_policy [OF that] mode_change_policy by auto
  show "d \<in> set ds \<Longrightarrow> mode_change mode d = Some (n, v) \<Longrightarrow>
      v = transported_policies api mode (kept_policies api evs) n"
    using change by (auto simp: d transported_policies_def split: if_splits)
  have "\<exists>d \<in> set ds. \<exists>v. mode_change mode d = Some (n, v)"
    if "kept_policies api evs n = Some p" "api_evaluation_mode api (vp_spec p) = mode" for p
    using change [OF that(1)] that by (intro bexI [of _ "to_proto api p"]) (auto simp: d)
  moreover have "\<exists>p. kept_policies api evs n = Some p \<and> api_evaluation_mode api (vp_spec p) = mode"
    if "d \<in> set ds" "mode_change mode d = Some (n, v)" for d v
    using that change by (auto simp: d split: if_splits)
  moreover have "transported_policies api mode (kept_policies api evs) n \<noteq> None \<longleftrightarrow>
      (\<exists>p. kept_policies api evs n = Some p \<and> api_evaluation_mode api (vp_spec p) = mode)"
    by (auto simp: transported_policies_def split: option.split)
  ultimately show "(\<exists>d \<in> set ds. \<exists>v. mode_change mode d = Some (n, v)) \<longleftrightarrow>
      transported_policies api mode (kept_policies api evs) n \<noteq> None"
    by blast
qed

lemma connection_says:
  assumes "set ds = to_proto api ` ran (kept_policies api evs)"
  shows "last_changes (mode_change mode) ds n = transported_policies api mode (kept_policies api evs) n"
proof -
  have "last_changes (mode_change mode) ds n =
      (if \<exists>d \<in> set ds. \<exists>v. mode_change mode d = Some (n, v)
       then transported_policies api mode (kept_policies api evs) n else None)"
    by (rule last_changes_cong) (use connection_change(1) [OF assms] in blast)
  then show ?thesis by (auto simp: connection_change(2) [OF assms])
qed

lemma connection_lookup:
  assumes "set ds = to_proto api ` ran (kept_policies api evs)"
  shows "map_of (fold (mode_event mode) ds m) n =
    (case transported_policies api mode (kept_policies api evs) n of Some p \<Rightarrow> Some p | None \<Rightarrow> map_of m n)"
  unfolding server.events_lookup_from connection_says [OF assms]
  by (auto simp: connection_change(2) [OF assms] split: option.split)

lemma handled_connection:
  assumes "listener_reach (listener_start
      (connection_messages api evs (new_policy_sender iw mi fi md) c stream) [(mode, m)]) st"
    and "ls_incoming st = []" and "ls_pending st = []" and "gomap_ok m"
    and "pols = (\<lambda>n. case transported_policies api mode (kept_policies api evs) n of Some p \<Rightarrow> Some p | None \<Rightarrow> map_of m n)"
  shows "\<exists>m'. ls_procs st = [(mode, m')] \<and> gomap_ok m' \<and> map_of m' = pols \<and>
    fst (listener_load m') = (values_by_key pols, None)"
proof (rule handled_load [OF assms(1-4)])
  have "set (ls_done st) = to_proto api ` ran (kept_policies api evs)"
    using handled_set [OF assms(1-3)] by (simp add: connection_messages_set)
  from connection_lookup [OF this] show "map_of (fold (mode_event mode) (ls_done st) m) = pols"
    by (auto simp: assms(5))
qed

lemma first_connection:
  assumes "listener_reach (listener_start
      (connection_messages api evs (new_policy_sender iw mi fi md) c stream) [(mode, new_listener)]) st"
    and "ls_incoming st = []" and "ls_pending st = []"
  shows "\<exists>m. ls_procs st = [(mode, m)] \<and> gomap_ok m \<and>
    map_of m = transported_policies api mode (kept_policies api evs) \<and>
    fst (listener_load m) = (values_by_key (transported_policies api mode (kept_policies api evs)), None)"
proof (rule handled_connection [OF assms])
  show "transported_policies api mode (kept_policies api evs) =
      (\<lambda>n. case transported_policies api mode (kept_policies api evs) n of
        Some p \<Rightarrow> Some p | None \<Rightarrow> map_of new_listener n)"
    by (rule ext) (simp add: new_listener_def split: option.split)
qed (simp add: new_listener_def)

subsection \<open>Properties\<close>

text \<open>C10:
  What a server has when it connected: when the control plane has reconciled any
  changes and the goroutines of the messages sent to the new client have run, in any order, a
  load of the server's source returns, in the order of the names, the policies that the cluster
  holds in the server's mode, as the wire leaves them, none that were deleted or that moved to the other authorization
  mode, and besides these only one kind of stale policy: one whose last version is in neither
  authorization mode is served as it was before, if it was in the server's mode.\<close>

theorem connection_synchronises:
  assumes "listener_reach (listener_start
      (connection_messages api evs (new_policy_sender iw mi fi md) c stream) [(mode, new_listener)]) st"
    and "ls_incoming st = []" and "ls_pending st = []"
  shows "\<exists>m. ls_procs st = [(mode, m)] \<and>
    fst (listener_load m) = (values_by_key (served_policies api mode evs), None)"
  using first_connection [OF assms] by (auto simp: served_kept)

text \<open>C22:
  A reconnection adds and never removes: when a server that caught up with the cluster loses its
  stream and connects again, to the same control plane or to a restarted one, the processors are
  those of before. After the messages of the new connection, in any order, the server has for
  each name the policy of its mode the control plane keeps if there is one and otherwise what it had before. So a
  load of the listener's source still returns a policy that was deleted or changed its mode in the
  meantime.\<close>

theorem reconnection_keeps_deleted:
  assumes "listener_reach (listener_start
      (connection_messages api evs (new_policy_sender iw mi fi md) c stream) [(mode, new_listener)]) st"
    and "ls_incoming st = []" and "ls_pending st = []"
    and "listener_reach (listener_start
      (connection_messages api evs' (new_policy_sender iw mi fi md) c stream') (ls_procs st)) st'"
    and "ls_incoming st' = []" and "ls_pending st' = []"
    and "had = transported_policies api mode (kept_policies api evs)"
    and "has = transported_policies api mode (kept_policies api evs')"
  shows "\<exists>m. ls_procs st' = [(mode, m)] \<and>
    fst (listener_load m) = (values_by_key (\<lambda>n. case has n of Some p \<Rightarrow> Some p | None \<Rightarrow> had n), None) \<and>
    (\<forall>n p. had n = Some p \<and> kept_policies api evs' n = None \<longrightarrow> map_of m n = Some p)"
proof -
  obtain m where m: "ls_procs st = [(mode, m)]" "gomap_ok m" "map_of m = had"
    using first_connection [OF assms(1-3)] by (auto simp: assms(7))
  obtain m' where "ls_procs st' = [(mode, m')]"
    "map_of m' = (\<lambda>n. case has n of Some p \<Rightarrow> Some p | None \<Rightarrow> had n)"
    "fst (listener_load m') = (values_by_key (\<lambda>n. case has n of Some p \<Rightarrow> Some p | None \<Rightarrow> had n), None)"
    using handled_connection [OF assms(4) [unfolded m(1)] assms(5,6) m(2) refl]
    unfolding m(3) assms(8) [symmetric] by blast
  moreover have "kept_policies api evs' n = None \<Longrightarrow> has n = None" for n
    by (simp add: assms(8) transported_policies_def)
  ultimately show ?thesis by auto
qed

text \<open>The run of a server that connects while one policy is current.\<close>

lemma sample_http:
  "api_evaluation_mode kyverno_api (vp_spec sample_policy) = ''HTTP''" "vp_name sample_policy = ''p''"
  by (simp_all add: sample_policy_def kyverno_api_def)

lemma sample_connection:
  obtains st where
    "listener_reach (listener_start (connection_messages kyverno_api [(''p'', Found sample_policy)]
       (new_policy_sender 1 2 3 4) ''c'' ()) [(''HTTP'', new_listener)]) st"
    and "ls_incoming st = []" and "ls_pending st = []"
proof -
  let ?q = "to_proto kyverno_api sample_policy" and ?evs = "[(''p'', Found sample_policy)]"
  have "connection_messages kyverno_api ?evs (new_policy_sender 1 2 3 4) ''c'' () = [?q]"
    by (simp add: connection_messages_def stream_request_def reconcile_all_def policy_reconcile_def
        store_policy_def new_policy_sender_def mode_defs to_proto_sel sample_http)
  moreover have "handle_all [?q] [(''HTTP'', new_listener)] =
      Ret [(''HTTP'', [(''p'', transported kyverno_api sample_policy)])]"
    using sample_http handle_policy [of kyverno_api sample_policy "[(''HTTP'', new_listener)]" new_listener] sample_mode
    by (simp add: new_listener_def)
  ultimately show thesis using listener_in_order [of "[?q]"] that by force
qed

lemma sample_transported:
  "transported_policies kyverno_api ''HTTP'' (kept_policies kyverno_api [(''p'', Found sample_policy)]) =
   [''p'' \<mapsto> transported kyverno_api sample_policy]"
  using sample_mode
  by (intro ext) (simp add: transported_policies_def kept_policies_def last_changes_def List.map_filter_def
      sample_http)

lemma sample_served:
  "served_policies kyverno_api ''HTTP'' [(''p'', Found sample_policy)] = [''p'' \<mapsto> transported kyverno_api sample_policy]"
  using sample_transported by (simp add: served_kept)

theorem connection_synchronises_witness:
  "\<exists>st m. listener_reach (listener_start (connection_messages kyverno_api [(''p'', Found sample_policy)]
       (new_policy_sender 1 2 3 4) ''c'' ()) [(''HTTP'', new_listener)]) st \<and>
     ls_procs st = [(''HTTP'', m)] \<and> fst (listener_load m) = ([transported kyverno_api sample_policy], None)"
proof (rule sample_connection)
  fix st assume st: "listener_reach (listener_start (connection_messages kyverno_api [(''p'', Found sample_policy)]
       (new_policy_sender 1 2 3 4) ''c'' ()) [(''HTTP'', new_listener)]) st"
    "ls_incoming st = []" "ls_pending st = []"
  from connection_synchronises [OF this] st(1) show ?thesis
    by (auto simp: sample_served values_by_key_def)
qed

theorem reconnection_keeps_deleted_witness:
  "\<exists>procs st' m. listener_reach (listener_start [] procs) st' \<and> ls_procs st' = [(''HTTP'', m)] \<and>
     map_of m ''p'' = Some (transported kyverno_api sample_policy) \<and>
     kept_policies kyverno_api [(''p'', Found sample_policy), (''p'', Not_found)] ''p'' = None"
proof (rule sample_connection)
  fix st assume st: "listener_reach (listener_start (connection_messages kyverno_api [(''p'', Found sample_policy)]
       (new_policy_sender 1 2 3 4) ''c'' ()) [(''HTTP'', new_listener)]) st"
    "ls_incoming st = []" "ls_pending st = []"
  let ?evs = "[(''p'', Found sample_policy), (''p'', Not_found)]" and ?st' = "listener_start [] (ls_procs st)"
  have msgs: "connection_messages kyverno_api ?evs (new_policy_sender 1 2 3 4) ''c'' () = []"
    using sample_mode
    by (simp add: connection_messages_def stream_request_def reconcile_all_def policy_reconcile_def store_policy_def
        delete_policy_def new_policy_sender_def to_proto_sel sample_http)
  have r: "listener_reach ?st' ?st'" by (rule listener_reach.start)
  have gone: "kept_policies kyverno_api ?evs ''p'' = None"
    by (simp add: kept_policies_def last_changes_def List.map_filter_def)
  have "\<exists>m. ls_procs ?st' = [(''HTTP'', m)] \<and> map_of m ''p'' = Some (transported kyverno_api sample_policy)"
    using reconnection_keeps_deleted [OF st, where evs' = ?evs and st' = ?st' and stream' = "()", unfolded msgs,
        OF r _ _ refl refl] gone
    by (fastforce simp: listener_start_def sample_transported)
  with r gone show ?thesis by blast
qed

end
