(* ===== verification/Sender_Races.thy ===== *)
theory Sender_Races
  imports Policy_Sender
begin

section \<open>A connecting client and the reconciler\<close>

text \<open>
  The handler of a stream in \<open>pkg/control-plane/sender/sender.go\<close> first starts the sends of the
  stored policies and then registers the stream, in separate critical sections, while the reconciler
  stores a policy and starts the goroutine of \<open>SendPolicy\<close>, which reads the registered streams
  later. Here each of these is a step of its own. A send is logged when its goroutine starts.
\<close>

record 's live =
  lv_sender :: "'s sender"
  lv_registering :: "(string \<times> 's) list"
  lv_queued :: "proto_policy list"
  lv_sent :: "('s \<times> proto_policy) list"

definition live_start :: "'s sender \<Rightarrow> 's live" where
  "live_start s = \<lparr>lv_sender = s, lv_registering = [], lv_queued = [], lv_sent = []\<rparr>"

datatype 's live_event =
    Reconcile string "vpol get_result"
  | Push proto_policy
  | Snapshot string 's
  | Register string 's
  | Report string "int option"
  | Flush_inactive int

definition snapshot_sends :: "'s \<Rightarrow> 's sender \<Rightarrow> ('s \<times> proto_policy) list" where
  "snapshot_sends stream s = map (\<lambda>(_, pol). (stream, pol)) (sd_policies s)"

definition register_stream :: "string \<Rightarrow> 's \<Rightarrow> 's sender \<Rightarrow> 's sender" where
  "register_stream address stream s = s\<lparr>sd_cxns := AList.update address stream (sd_cxns s)\<rparr>"

definition push_sends :: "proto_policy \<Rightarrow> 's sender \<Rightarrow> ('s \<times> proto_policy) list" where
  "push_sends pol s = map (\<lambda>(_, stream). (stream, pol)) (sd_cxns s)"

lemma stream_request_steps:
  "stream_request address stream s = (snapshot_sends stream s, register_stream address stream s)"
  by (simp add: stream_request_def snapshot_sends_def register_stream_def)

text \<open>A push nobody queued and a registration without its snapshot change nothing.\<close>

fun live_step :: "vpol_api \<Rightarrow> 's live_event \<Rightarrow> 's live \<Rightarrow> 's live" where
  "live_step api (Reconcile req res) lv =
     (case policy_reconcile api (\<lambda>_. res) req (Some (lv_sender lv)) of
        (_, Some s, msgs) \<Rightarrow> lv\<lparr>lv_sender := s, lv_queued := lv_queued lv @ msgs\<rparr>
      | (_, None, msgs) \<Rightarrow> lv)"
| "live_step api (Push pol) lv =
     (if pol \<in> set (lv_queued lv)
      then lv\<lparr>lv_queued := remove1 pol (lv_queued lv), lv_sent := lv_sent lv @ push_sends pol (lv_sender lv)\<rparr>
      else lv)"
| "live_step api (Snapshot address stream) lv =
     lv\<lparr>lv_registering := lv_registering lv @ [(address, stream)],
        lv_sent := lv_sent lv @ snapshot_sends stream (lv_sender lv)\<rparr>"
| "live_step api (Register address stream) lv =
     (if (address, stream) \<in> set (lv_registering lv)
      then lv\<lparr>lv_registering := remove1 (address, stream) (lv_registering lv),
              lv_sender := register_stream address stream (lv_sender lv)\<rparr>
      else lv)"
| "live_step api (Report address t) lv = lv\<lparr>lv_sender := snd (health_check address t (lv_sender lv))\<rparr>"
| "live_step api (Flush_inactive now) lv = lv\<lparr>lv_sender := delete_inactive now (lv_sender lv)\<rparr>"

definition live_run :: "vpol_api \<Rightarrow> 's live_event list \<Rightarrow> 's live \<Rightarrow> 's live" where
  "live_run api evs lv = fold (live_step api) evs lv"

lemma live_run_simps [simp]:
  "live_run api [] lv = lv"
  "live_run api (ev # evs) lv = live_run api evs (live_step api ev lv)"
  "live_run api (evs @ evs') lv = live_run api evs' (live_run api evs lv)"
  by (simp_all add: live_run_def)

text \<open>The messages pushed in a run, in order, and the policies sent on a stream.\<close>

fun pushes :: "vpol_api \<Rightarrow> 's live_event list \<Rightarrow> 's live \<Rightarrow> proto_policy list" where
  "pushes api [] lv = []"
| "pushes api (ev # evs) lv =
     (case ev of Push pol \<Rightarrow> if pol \<in> set (lv_queued lv) then [pol] else [] | _ \<Rightarrow> []) @
     pushes api evs (live_step api ev lv)"

lemma pushes_append: "pushes api (evs @ evs') lv = pushes api evs lv @ pushes api evs' (live_run api evs lv)"
  by (induction evs arbitrary: lv) simp_all

definition sent_on :: "'s \<Rightarrow> 's live \<Rightarrow> proto_policy list" where
  "sent_on stream lv = map snd (filter (\<lambda>e. fst e = stream) (lv_sent lv))"

text \<open>The entries of a list of clients that hold a stream.\<close>

definition entries_of :: "'s \<Rightarrow> (string \<times> 's) list \<Rightarrow> (string \<times> 's) list" where
  "entries_of stream m = filter (\<lambda>e. snd e = stream) m"

lemma entries_simps [simp]:
  "entries_of stream [] = []"
  "entries_of stream (m @ [(a, v)]) = entries_of stream m @ (if v = stream then [(a, v)] else [])"
  by (simp_all add: entries_of_def)

lemma entries_update_other:
  "v \<noteq> stream \<Longrightarrow> (a, stream) \<notin> set (entries_of stream m) \<Longrightarrow>
   entries_of stream (AList.update a v m) = entries_of stream m"
  by (induction m) (auto simp: entries_of_def split: if_splits)

lemma entries_update_same:
  "entries_of stream m = [] \<Longrightarrow> entries_of stream (AList.update a stream m) = [(a, stream)]"
  by (induction m) (auto simp: entries_of_def split: if_splits)

lemma entries_delete: "entries_of stream m = [] \<Longrightarrow> entries_of stream (AList.delete a m) = []"
  by (induction m) (auto simp: entries_of_def split: if_splits)

lemma entries_remove1:
  "v \<noteq> stream \<Longrightarrow> entries_of stream (remove1 (a, v) m) = entries_of stream m"
  "entries_of stream (remove1 (a, stream) m) = remove1 (a, stream) (entries_of stream m)"
  by (induction m) (auto simp: entries_of_def)

lemma entries_flush:
  "entries_of stream (sd_cxns s) = [] \<Longrightarrow> entries_of stream (sd_cxns (delete_clients cs s)) = []"
  by (induction cs s rule: delete_clients.induct) (simp_all add: entries_delete)

lemma sent_on_push:
  "map snd (filter (\<lambda>e. fst e = stream) (push_sends pol s)) = map (\<lambda>_. pol) (entries_of stream (sd_cxns s))"
proof -
  have "map snd (filter (\<lambda>e. fst e = stream) (map (\<lambda>(_, v). (v, pol)) m)) = map (\<lambda>_. pol) (entries_of stream m)"
    for m :: "(string \<times> 'a) list"
    by (induction m) (auto simp: entries_of_def)
  then show ?thesis by (simp add: push_sends_def)
qed

lemma sent_on_snapshot:
  "map snd (filter (\<lambda>e. fst e = stream) (snapshot_sends stream' s)) =
     (if stream' = stream then map snd (sd_policies s) else [])"
proof -
  have "map snd (filter (\<lambda>e. fst e = stream) (map (\<lambda>(_, pol). (stream', pol)) m)) =
      (if stream' = stream then map snd m else [])" for m :: "(string \<times> proto_policy) list"
    by (induction m) auto
  then show ?thesis by (simp add: snapshot_sends_def)
qed

lemma cxns_kept:
  "sd_cxns (snd (health_check a t s)) = sd_cxns s"
  "policy_reconcile api get req (Some s) = (r, Some s', msgs) \<Longrightarrow> sd_cxns s' = sd_cxns s"
  by (auto simp: health_check_def policy_reconcile_def store_policy_def delete_policy_def
      split: option.splits get_result.splits if_splits)

text \<open>
  Where a stream stands: which entries of the registering and of the registered clients hold it.
  Events that do not mention the stream leave it there.\<close>

definition stands :: "'s \<Rightarrow> (string \<times> 's) list \<Rightarrow> (string \<times> 's) list \<Rightarrow> 's live \<Rightarrow> bool" where
  "stands stream r c lv \<longleftrightarrow> entries_of stream (lv_registering lv) = r \<and> entries_of stream (sd_cxns (lv_sender lv)) = c"

lemma step_unregistered:
  assumes "stands stream r [] lv" and "\<forall>a. ev \<noteq> Snapshot a stream"
    and "\<forall>a. ev = Register a stream \<longrightarrow> (a, stream) \<notin> set r"
  shows "stands stream r [] (live_step api ev lv) \<and> sent_on stream (live_step api ev lv) = sent_on stream lv"
proof (cases ev)
  case (Reconcile req res)
  then show ?thesis using assms(1) cxns_kept(2) [of api "\<lambda>_. res" req "lv_sender lv"]
    by (auto simp: stands_def sent_on_def split: prod.split option.split)
next
  case (Push pol)
  then show ?thesis using assms(1) by (simp add: stands_def sent_on_def sent_on_push)
next
  case (Snapshot a v)
  then show ?thesis using assms(1,2) by (auto simp: stands_def sent_on_def sent_on_snapshot)
next
  case (Register a v)
  then have "v = stream \<Longrightarrow> (a, v) \<notin> set (lv_registering lv)"
    using assms(1,3) by (auto simp: stands_def entries_of_def)
  then show ?thesis using assms(1) Register
    by (cases "v = stream")
      (auto simp: stands_def sent_on_def register_stream_def entries_remove1 entries_update_other)
next
  case (Report a t)
  then show ?thesis using assms(1) by (simp add: stands_def sent_on_def cxns_kept)
next
  case (Flush_inactive now)
  then show ?thesis using assms(1) by (simp add: stands_def sent_on_def delete_inactive_def entries_flush)
qed

lemma run_unregistered:
  assumes "stands stream r [] lv" and "\<forall>a. Snapshot a stream \<notin> set evs"
    and "\<forall>a. (a, stream) \<in> set r \<longrightarrow> Register a stream \<notin> set evs"
  shows "stands stream r [] (live_run api evs lv) \<and> sent_on stream (live_run api evs lv) = sent_on stream lv"
  using assms
proof (induction evs arbitrary: lv)
  case (Cons ev evs)
  then show ?case using step_unregistered [of stream r lv ev api] by force
qed simp

text \<open>A registered client stays registered while it is not flushed and no stream takes its place.\<close>

definition undisturbed :: "string \<Rightarrow> 's \<Rightarrow> 's live_event list \<Rightarrow> bool" where
  "undisturbed a stream evs \<longleftrightarrow>
     (\<forall>ev \<in> set evs. (\<forall>a'. ev \<noteq> Snapshot a' stream) \<and> (\<forall>v. ev \<noteq> Register a v) \<and> (\<forall>now. ev \<noteq> Flush_inactive now))"

lemma step_registered:
  assumes "stands stream [] [(a, stream)] lv" and "undisturbed a stream [ev]"
  shows "stands stream [] [(a, stream)] (live_step api ev lv) \<and>
    sent_on stream (live_step api ev lv) = sent_on stream lv @ pushes api [ev] lv"
proof (cases ev)
  case (Reconcile req res)
  then show ?thesis using assms(1) cxns_kept(2) [of api "\<lambda>_. res" req "lv_sender lv"]
    by (auto simp: stands_def sent_on_def split: prod.split option.split)
next
  case (Push pol)
  then show ?thesis using assms(1) by (simp add: stands_def sent_on_def sent_on_push)
next
  case (Snapshot a v)
  then show ?thesis using assms by (auto simp: stands_def sent_on_def sent_on_snapshot undisturbed_def)
next
  case (Register a' v)
  then have "a' \<noteq> a" using assms(2) by (auto simp: undisturbed_def)
  moreover have "v = stream \<Longrightarrow> (a', v) \<notin> set (lv_registering lv)"
    using assms(1) by (auto simp: stands_def entries_of_def filter_empty_conv)
  ultimately show ?thesis using assms(1) Register
    by (cases "v = stream")
      (auto simp: stands_def sent_on_def register_stream_def entries_remove1 entries_update_other)
next
  case (Report a t)
  then show ?thesis using assms(1) by (simp add: stands_def sent_on_def cxns_kept)
next
  case (Flush_inactive now)
  then show ?thesis using assms(2) by (auto simp: undisturbed_def)
qed

lemma run_registered:
  "stands stream [] [(a, stream)] lv \<Longrightarrow> undisturbed a stream evs \<Longrightarrow>
   sent_on stream (live_run api evs lv) = sent_on stream lv @ pushes api evs lv"
proof (induction evs arbitrary: lv)
  case (Cons ev evs)
  then have "undisturbed a stream [ev]" "undisturbed a stream evs" by (simp_all add: undisturbed_def)
  with Cons step_registered [of stream a lv ev api] show ?case by simp
qed simp

text \<open>Every stored policy is in \<open>A\<close> or waits to be pushed; a run adds what it pushes to \<open>A\<close>.\<close>

definition covered :: "proto_policy set \<Rightarrow> 's live \<Rightarrow> bool" where
  "covered A lv \<longleftrightarrow> snd ` set (sd_policies (lv_sender lv)) \<subseteq> A \<union> set (lv_queued lv)"

lemma covered_step:
  assumes "covered A lv"
  shows "covered (A \<union> set (pushes api [ev] lv)) (live_step api ev lv)"
proof (cases ev)
  case (Reconcile req res)
  show ?thesis
  proof (cases res)
    case (Found p)
    with assms Reconcile show ?thesis
      using update_values [of "pp_name (to_proto api p)" "to_proto api p" "sd_policies (lv_sender lv)"]
      by (simp add: covered_def policy_reconcile_def store_policy_def) blast
  next
    case Not_found
    with assms Reconcile show ?thesis
      using delete_values [of req "sd_policies (lv_sender lv)"]
      by (simp add: covered_def policy_reconcile_def delete_policy_def) blast
  qed (use assms Reconcile in \<open>auto simp: covered_def policy_reconcile_def\<close>)
next
  case (Push pol)
  have "set (lv_queued lv) \<subseteq> insert pol (set (remove1 pol (lv_queued lv)))"
    by (metis in_set_remove1 insertCI subsetI)
  with assms Push show ?thesis by (auto simp: covered_def)
qed (use assms in \<open>auto simp: covered_def register_stream_def delete_inactive_sel health_check_def split: option.split\<close>)

lemma covered_run: "covered A lv \<Longrightarrow> covered (A \<union> set (pushes api evs lv)) (live_run api evs lv)"
proof (induction evs arbitrary: A lv)
  case (Cons ev evs)
  from Cons.IH [OF covered_step [OF Cons.prems, of api ev]] show ?case by (simp add: Un_assoc)
qed simp

text \<open>What is sent on the stream of a connecting client.\<close>

lemma connected_stream_sends:
  assumes "entries_of stream (sd_cxns s) = []"
    and "\<forall>a'. Snapshot a' stream \<notin> set (pre @ mid)" and "Register a stream \<notin> set mid"
    and "undisturbed a stream post"
    and before: "before = live_run api pre (live_start s)"
    and between: "between = live_run api mid (live_step api (Snapshot a stream) before)"
  shows "sent_on stream (live_run api post (live_step api (Register a stream) between)) =
    map snd (sd_policies (lv_sender before)) @ pushes api post (live_step api (Register a stream) between)"
proof -
  let ?snap = "live_step api (Snapshot a stream) before" and ?reg = "live_step api (Register a stream) between"
  have start: "stands stream [] [] (live_start s)" "sent_on stream (live_start s) = []"
    using assms(1) by (simp_all add: stands_def live_start_def sent_on_def)
  from run_unregistered [OF start(1), of pre api] assms(2) start(2)
  have "stands stream [] [] before" "sent_on stream before = []" by (simp_all add: before)
  then have snap: "stands stream [(a, stream)] [] ?snap" "sent_on stream ?snap = map snd (sd_policies (lv_sender before))"
    by (simp_all add: stands_def sent_on_def sent_on_snapshot)
  from run_unregistered [OF snap(1), of mid api] assms(2,3) snap(2)
  have mid: "stands stream [(a, stream)] [] between" "sent_on stream between = map snd (sd_policies (lv_sender before))"
    by (auto simp: between)
  from mid(1) have "(a, stream) \<in> set (lv_registering between)"
    unfolding stands_def entries_of_def by (metis filter_is_subset list.set_intros(1) subsetD)
  with mid have reg: "stands stream [] [(a, stream)] ?reg" "sent_on stream ?reg = sent_on stream between"
    by (simp_all add: stands_def sent_on_def register_stream_def entries_remove1 entries_update_same)
  from run_registered [OF reg(1) assms(4), of api] reg(2) mid(2) show ?thesis by simp
qed

subsection \<open>Properties\<close>

text \<open>C29:
  A client that connects on a new stream is sent exactly the policies that were stored when the
  handler took them and then, in order, the policies pushed after its stream was registered.
  Nothing pushed in between is sent. If nothing is pushed in between, every stored policy was sent
  to the client or waits to be pushed; this holds until a flush, or another stream of the
  client's address, ends the registration.\<close>

theorem connecting_client_sends:
  assumes "entries_of stream (sd_cxns s) = []"
    and "\<forall>a'. Snapshot a' stream \<notin> set (pre @ mid)" and "Register a stream \<notin> set mid"
    and "undisturbed a stream post"
    and before: "before = live_run api pre (live_start s)"
    and between: "between = live_run api mid (live_step api (Snapshot a stream) before)"
    and after: "after = live_run api post (live_step api (Register a stream) between)"
  shows "sent_on stream after = map snd (sd_policies (lv_sender before)) @
      pushes api post (live_step api (Register a stream) between) \<and>
    (pushes api mid (live_step api (Snapshot a stream) before) = [] \<longrightarrow>
      snd ` set (sd_policies (lv_sender after)) \<subseteq> set (sent_on stream after) \<union> set (lv_queued after))"
proof -
  let ?snap = "live_step api (Snapshot a stream) before" and ?reg = "live_step api (Register a stream) between"
  have sent: "sent_on stream after = map snd (sd_policies (lv_sender before)) @ pushes api post ?reg"
    unfolding after by (rule connected_stream_sends [OF assms(1-4) before between])
  have "covered (snd ` set (sd_policies (lv_sender before))) ?snap" by (simp add: covered_def)
  from covered_run [OF this, of api "mid @ Register a stream # post"]
  have "covered (snd ` set (sd_policies (lv_sender before)) \<union> set (pushes api mid ?snap @ pushes api post ?reg)) after"
    by (simp add: after between pushes_append del: live_step.simps)
  with sent show ?thesis by (auto simp: covered_def simp del: live_step.simps)
qed

theorem connecting_client_sends_witness:
  "\<exists>after. sent_on () after = [to_proto kyverno_api sample_policy, deletion ''q'']"
proof -
  let ?pre = "[Reconcile ''p'' (Found sample_policy)]" and ?post = "[Reconcile ''q'' Not_found, Push (deletion ''q'')]"
  let ?before = "live_run kyverno_api ?pre (live_start (new_policy_sender 1 2 3 4 :: unit sender))"
  let ?reg = "live_step kyverno_api (Register ''c'' ())
      (live_run kyverno_api [] (live_step kyverno_api (Snapshot ''c'' ()) ?before))"
  have "pushes kyverno_api ?post ?reg = [deletion ''q'']"
    by (simp add: live_start_def policy_reconcile_def register_stream_def new_policy_sender_def split: if_splits)
  moreover have "map snd (sd_policies (lv_sender ?before)) = [to_proto kyverno_api sample_policy]"
    using sample_mode
    by (auto simp: live_start_def policy_reconcile_def store_policy_def new_policy_sender_def mode_defs)
  moreover have "sent_on () (live_run kyverno_api ?post ?reg) =
      map snd (sd_policies (lv_sender ?before)) @ pushes kyverno_api ?post ?reg"
    by (rule conjunct1 [OF connecting_client_sends [OF _ _ _ _ refl refl refl, of _ "new_policy_sender 1 2 3 4"]])
      (simp_all add: new_policy_sender_def undisturbed_def)
  ultimately show ?thesis by (metis append_Cons append_Nil)
qed

text \<open>
  An update that is stored and pushed while a client registers is lost for that client: the control
  plane holds the policy, nothing waits to be pushed, the client is registered, and it was sent
  nothing. This holds for every policy of an authorization mode.\<close>

theorem update_while_registering_lost:
  assumes "authz_mode (api_evaluation_mode api (vp_spec p))"
    and "lv = live_run api [Snapshot a stream, Reconcile n (Found p), Push (to_proto api p), Register a stream]
      (live_start (new_policy_sender iw mi fi md))"
  shows "sd_policies (lv_sender lv) = [(vp_name p, to_proto api p)] \<and> sd_cxns (lv_sender lv) = [(a, stream)] \<and>
    lv_queued lv = [] \<and> sent_on stream lv = []"
  using assms
  by (auto simp: live_start_def new_policy_sender_def policy_reconcile_def store_policy_def authz_mode_def
      register_stream_def sent_on_def snapshot_sends_def push_sends_def to_proto_sel)

theorem update_while_registering_lost_witness:
  "sent_on () (live_run kyverno_api [Snapshot ''c'' (), Reconcile ''p'' (Found sample_policy),
     Push (to_proto kyverno_api sample_policy), Register ''c'' ()] (live_start (new_policy_sender 1 2 3 4))) = []"
  using update_while_registering_lost [OF _ refl, of kyverno_api sample_policy "''c''" "()" "''p''" 1 2 3 4] sample_mode
  by simp

end
