(* ===== verification/Live_Updates.thy ===== *)
theory Live_Updates
  imports Control_Plane Sender_Races
begin

section \<open>Updates of a connected server\<close>

text \<open>
  Composes the interleaved control plane (\<open>Sender_Races\<close>) with the goroutines of a server's
  listener (\<open>Policy_Listener\<close>): which policies a server has that connected while the cluster
  changes and stays connected. Every reconciliation queues at most one message; the order in which
  the messages of one policy are pushed and handled is what matters.
\<close>










subsection \<open>What the messages say\<close>














subsection \<open>Properties\<close>



end
