(* ===== verification/Cel_Env.thy ===== *)
theory Cel_Env
  imports Policy_Types
begin

section \<open>The CEL environment\<close>

text \<open>
  Models \<open>pkg/cel/env.go\<close>, \<open>pkg/cel/variables.go\<close> and \<open>pkg/cel/utils/convert.go\<close>. The CEL
  library is third-party: \<open>cel_lib\<close> holds the calls the code makes to it. Environments are
  built from lists of options, which are data here; the mutable type provider that the compiler
  hands to the environment is passed to \<open>cl_compile\<close>, because a compilation reads what is
  registered at that moment.
\<close>

datatype env_option =
    Homogeneous_aggregate_literals
  | Eagerly_validate_declarations bool
  | Default_utc_time_zone bool
  | Cross_type_numeric_comparisons bool
  | Optional_types
  | Ext string
  | Kubernetes_library string
  | Lib string
  | Variable string cel_type
  | Custom_type_provider

definition base_options :: "env_option list" where
  "base_options =
     [Homogeneous_aggregate_literals,
      Eagerly_validate_declarations True,
      Default_utc_time_zone True,
      Cross_type_numeric_comparisons True,
      Optional_types,
      Ext ''Bindings'', Ext ''Encoders'', Ext ''Lists'', Ext ''Math'', Ext ''Protos'', Ext ''Sets'',
      Ext ''Strings'',
      Kubernetes_library ''CIDR'', Kubernetes_library ''Format'', Kubernetes_library ''IP'',
      Kubernetes_library ''Lists'', Kubernetes_library ''Regex'', Kubernetes_library ''URLs'',
      Kubernetes_library ''Quantity'', Kubernetes_library ''SemverLib'']"

subsection \<open>The provider of variable types\<close>

text \<open>The inner provider's methods, as far as the code delegates to them.\<close>

record ('e, 'x, 'v) type_provider =
  tp_enum_value :: "string \<Rightarrow> 'e"
  tp_find_ident :: "string \<Rightarrow> 'x option"
  tp_find_struct_type :: "string \<Rightarrow> cel_type option"
  tp_find_field_names :: "string \<Rightarrow> string list option"
  tp_find_field_type :: "string \<Rightarrow> string \<Rightarrow> cel_type option"
  tp_new_value :: "string \<Rightarrow> (string, 'v) gomap \<Rightarrow> 'v"

record variables_provider =
  vpr_fields :: "(string, cel_type) gomap"
  vpr_names :: "string list"

definition VariablesType :: cel_type where "VariablesType = Object_t ''kyverno.variables''"

definition variables_type_name :: string where "variables_type_name = ''kyverno.variables''"

definition new_variables_provider :: variables_provider where
  "new_variables_provider = \<lparr>vpr_fields = [], vpr_names = []\<rparr>"

definition register_field :: "string \<Rightarrow> cel_type \<Rightarrow> variables_provider \<Rightarrow> variables_provider" where
  "register_field name t p =
     p\<lparr>vpr_fields := AList.update name t (vpr_fields p), vpr_names := vpr_names p @ [name]\<rparr>"

definition vp_find_struct_type ::
  "('e, 'x, 'v) type_provider \<Rightarrow> variables_provider \<Rightarrow> string \<Rightarrow> cel_type option" where
  "vp_find_struct_type inner p struct_type =
     (if struct_type = variables_type_name then Some (Type_t VariablesType)
      else tp_find_struct_type inner struct_type)"

definition vp_find_field_names ::
  "('e, 'x, 'v) type_provider \<Rightarrow> variables_provider \<Rightarrow> string \<Rightarrow> string list option" where
  "vp_find_field_names inner p struct_type =
     (if struct_type = variables_type_name then Some (vpr_names p)
      else tp_find_field_names inner struct_type)"

definition vp_find_field_type ::
  "('e, 'x, 'v) type_provider \<Rightarrow> variables_provider \<Rightarrow> string \<Rightarrow> string \<Rightarrow> cel_type option" where
  "vp_find_field_type inner p struct_type field_name =
     (if struct_type = variables_type_name
      then (case map_of (vpr_fields p) field_name of Some t \<Rightarrow> Some t | None \<Rightarrow> None)
      else tp_find_field_type inner struct_type field_name)"

definition vp_enum_value :: "('e, 'x, 'v) type_provider \<Rightarrow> variables_provider \<Rightarrow> string \<Rightarrow> 'e" where
  "vp_enum_value inner p enum_name = tp_enum_value inner enum_name"

definition vp_find_ident :: "('e, 'x, 'v) type_provider \<Rightarrow> variables_provider \<Rightarrow> string \<Rightarrow> 'x option" where
  "vp_find_ident inner p ident_name = tp_find_ident inner ident_name"

definition vp_new_value ::
  "('e, 'x, 'v) type_provider \<Rightarrow> variables_provider \<Rightarrow> string \<Rightarrow> (string, 'v) gomap \<Rightarrow> 'v" where
  "vp_new_value inner p struct_type fs = tp_new_value inner struct_type fs"

text \<open>The variables registered one after the other.\<close>

definition register_all :: "(string \<times> cel_type) list \<Rightarrow> variables_provider \<Rightarrow> variables_provider" where
  "register_all vars p = fold (\<lambda>(n, t). register_field n t) vars p"

definition provider_ok :: "variables_provider \<Rightarrow> bool" where
  "provider_ok p \<longleftrightarrow> gomap_ok (vpr_fields p) \<and> set (vpr_names p) = fst ` set (vpr_fields p)"

lemma provider_ok_new [go_inv]: "provider_ok new_variables_provider"
  by (simp add: provider_ok_def new_variables_provider_def)

lemma provider_ok_register [go_inv]: "provider_ok p \<Longrightarrow> provider_ok (register_field n t p)"
  by (simp add: provider_ok_def register_field_def)

lemma provider_ok_register_all [go_inv]: "provider_ok p \<Longrightarrow> provider_ok (register_all vars p)"
  by (induction vars arbitrary: p) (auto simp: register_all_def provider_ok_register)

lemma register_all_fields:
  "map_of (vpr_fields (register_all vars p)) n =
     (case map_of (rev vars) n of Some t \<Rightarrow> Some t | None \<Rightarrow> map_of (vpr_fields p) n)"
  by (induction vars arbitrary: p)
    (auto simp: register_all_def register_field_def map_add_def split: option.split)

lemma register_all_names: "vpr_names (register_all vars p) = vpr_names p @ map fst vars"
  by (induction vars arbitrary: p) (auto simp: register_all_def register_field_def)

subsection \<open>The calls to the CEL library\<close>

record ('env, 'ast, 'prog) cel_lib =
  cl_new_env :: "env_option list \<Rightarrow> go_error + 'env"
  cl_extend :: "'env \<Rightarrow> env_option list \<Rightarrow> go_error + 'env"
  cl_compile :: "'env \<Rightarrow> variables_provider \<Rightarrow> string \<Rightarrow> go_error + 'ast"
  cl_output_type :: "'ast \<Rightarrow> cel_type"
  cl_program :: "'env \<Rightarrow> 'ast \<Rightarrow> go_error + 'prog"

definition new_base_env :: "('env, 'ast, 'prog) cel_lib \<Rightarrow> go_error + 'env" where
  "new_base_env C = cl_new_env C base_options"

definition common_libs :: "env_option list" where
  "common_libs = [Lib ''http'', Lib ''kyverno.jwt'', Lib ''kyverno.json'', Lib ''kyverno.mcp'',
     Lib ''resource'', Lib ''image'', Lib ''imagedata'']"

definition new_env :: "('env, 'ast, 'prog) cel_lib \<Rightarrow> string \<Rightarrow> go_error + 'env" where
  "new_env C eval_mode =
     (case new_base_env C of
        Inl err \<Rightarrow> Inl err
      | Inr base \<Rightarrow>
          (case (if eval_mode = EvaluationModeEnvoy then cl_extend C base [Lib ''kyverno.authz.envoy'']
                 else if eval_mode = EvaluationModeHTTP then cl_extend C base [Lib ''kyverno.authz.http'']
                 else Inl (Errorf ''invalid evaluation mode passed for env builder'')) of
             Inl err \<Rightarrow> Inl err
           | Inr base' \<Rightarrow> cl_extend C base' common_libs))"

subsection \<open>Conversion to native values\<close>

text \<open>
  \<open>conv\<close> is the value's own \<open>ConvertToNative\<close> and \<open>cast\<close> the type assertion to the requested
  type, whose failure panics. The library documents that a conversion gives a value of the
  requested type, so the assertion does not fail.
\<close>

definition convert_to_native ::
  "('v \<Rightarrow> go_error + 'n) \<Rightarrow> ('n \<Rightarrow> 't option) \<Rightarrow> 't \<Rightarrow> 'v \<Rightarrow> ('t \<times> go_error option) outcome" where
  "convert_to_native conv cast zero v =
     (case conv v of
        Inl err \<Rightarrow> Ret (zero, Some err)
      | Inr response \<Rightarrow>
          (case cast response of
             None \<Rightarrow> Panic ''interface conversion''
           | Some t \<Rightarrow> Ret (t, None)))"

subsection \<open>Properties\<close>

text \<open>A library that records the options of an environment: the instance for concrete inputs.\<close>

definition list_cel :: "(env_option list, string, string) cel_lib" where
  "list_cel = \<lparr>
     cl_new_env = Inr,
     cl_extend = (\<lambda>e os. Inr (e @ os)),
     cl_compile = (\<lambda>e p x. if x = [] then Inl (Errorf ''syntax error'') else Inr x),
     cl_output_type = (\<lambda>x. if x = ''null'' then Null_t else if x = ''true'' then Bool_t
        else if x = ''allow'' then Object_t ''envoy.service.auth.v3.CheckResponse''
        else if x = ''http'' then Object_t ''http.CheckResponse'' else String_t),
     cl_program = (\<lambda>e x. Inr x)\<rparr>"

text \<open>
  An environment for a policy is built in three steps, the base options, the authorization
  library of the evaluation mode and the common libraries, and only for the Envoy and HTTP
  modes; any other mode is an error. So no environment holds both authorization libraries.\<close>

theorem new_env_by_mode:
  assumes "new_env C mode = Inr env"
  shows "\<exists>base base' authz. cl_new_env C base_options = Inr base \<and>
    cl_extend C base [Lib authz] = Inr base' \<and> cl_extend C base' common_libs = Inr env \<and>
    (mode = ''Envoy'' \<and> authz = ''kyverno.authz.envoy'' \<or>
     mode = ''HTTP'' \<and> authz = ''kyverno.authz.http'')"
  using assms
  by (auto simp: new_env_def new_base_env_def EvaluationModeEnvoy_def EvaluationModeHTTP_def
      split: sum.splits if_splits)

theorem new_env_by_mode_witness:
  "new_env list_cel ''HTTP'' = Inr (base_options @ [Lib ''kyverno.authz.http''] @ common_libs) \<and>
   (\<exists>base base' authz. cl_new_env list_cel base_options = Inr base \<and>
    cl_extend list_cel base [Lib authz] = Inr base' \<and>
    cl_extend list_cel base' common_libs = Inr (base_options @ [Lib ''kyverno.authz.http''] @ common_libs) \<and>
    (''HTTP'' = ''Envoy'' \<and> authz = ''kyverno.authz.envoy'' \<or>
     ''HTTP'' = ''HTTP'' \<and> authz = ''kyverno.authz.http''))"
proof -
  have e: "new_env list_cel ''HTTP'' = Inr (base_options @ [Lib ''kyverno.authz.http''] @ common_libs)"
    by (simp add: new_env_def new_base_env_def list_cel_def EvaluationModeEnvoy_def EvaluationModeHTTP_def)
  from e new_env_by_mode [OF e] show ?thesis by (rule conjI)
qed

text \<open>
  After a sequence of registrations the provider knows exactly the registered variables: a
  lookup of a field of the variables type gives the type registered last for that name, the
  names are listed in the order of registration, and every other type is the inner provider's.\<close>

theorem variables_provider_lookup:
  "vp_find_field_type inner (register_all vars new_variables_provider) ty n =
     (if ty = ''kyverno.variables'' then map_of (rev vars) n else tp_find_field_type inner ty n) \<and>
   vp_find_field_names inner (register_all vars new_variables_provider) ty =
     (if ty = ''kyverno.variables'' then Some (map fst vars) else tp_find_field_names inner ty)"
  by (simp add: vp_find_field_type_def vp_find_field_names_def register_all_fields
      register_all_names new_variables_provider_def variables_type_name_def split: option.split)

end
