(* ===== verification/Http_Lib.thy ===== *)
theory Http_Lib
  imports Cel_Env
begin

section \<open>The HTTP authorization library\<close>

text \<open>
  Models \<open>pkg/cel/libs/authz/http\<close>: the request and response types, the functions CEL calls
  on them and \<open>NewRequest\<close>. The CEL adapter is third-party: the fields of \<open>http_adapter\<close> are
  \<open>NativeToValue\<close> and the values' own conversions to each native type (\<open>ConvertToNative\<close> of
  \<open>pkg/cel/utils\<close>, whose type assertion cannot fail on a converted value). Header names are
  compared in the canonical form of the standard library's \<open>net/textproto\<close>.
\<close>

subsection \<open>Canonical header names\<close>

definition lower_char :: "char \<Rightarrow> char" where
  "lower_char c = (let n = of_char c :: nat in if 65 \<le> n \<and> n \<le> 90 then char_of (n + 32) else c)"

definition upper_char :: "char \<Rightarrow> char" where
  "upper_char c = (let n = of_char c :: nat in if 97 \<le> n \<and> n \<le> 122 then char_of (n - 32) else c)"

definition header_byte :: "char \<Rightarrow> bool" where
  "header_byte c \<longleftrightarrow>
     (let n = of_char c :: nat in
      65 \<le> n \<and> n \<le> 90 \<or> 97 \<le> n \<and> n \<le> 122 \<or> 48 \<le> n \<and> n \<le> 57 \<or> c \<in> set ''!#$%&*+-.^_`|~'' \<or> n = 39)"

fun canonical_loop :: "bool \<Rightarrow> string \<Rightarrow> string" where
  "canonical_loop upper [] = []"
| "canonical_loop upper (c # cs) =
     (if upper then upper_char c else lower_char c) # canonical_loop (c = CHR ''-'') cs"

definition canonical_key :: "string \<Rightarrow> string" where
  "canonical_key s = (if list_all header_byte s then canonical_loop True s else s)"

lemma of_char_bound: "(of_char c :: nat) < 256"
  by (cases c) simp

lemma of_char_of: "n < 256 \<Longrightarrow> of_char (char_of n :: char) = (n :: nat)"
  by simp

lemma char_eq_code: "c = d \<longleftrightarrow> (of_char c :: nat) = of_char d"
  by simp

lemma of_lower_char: "(of_char (lower_char c) :: nat) =
    (if 65 \<le> (of_char c :: nat) \<and> (of_char c :: nat) \<le> 90 then of_char c + 32 else of_char c)"
  by (simp add: lower_char_def Let_def)

lemma of_upper_char: "(of_char (upper_char c) :: nat) =
    (if 97 \<le> (of_char c :: nat) \<and> (of_char c :: nat) \<le> 122 then of_char c - 32 else of_char c)"
  by (auto simp: upper_char_def Let_def)

lemma upper_lower [simp]: "upper_char (lower_char c) = upper_char c"
  unfolding char_eq_code of_upper_char of_lower_char by auto

lemma lower_lower [simp]: "lower_char (lower_char c) = lower_char c"
  unfolding char_eq_code of_lower_char by auto

lemma lower_char_dash [simp]: "lower_char c = CHR ''-'' \<longleftrightarrow> c = CHR ''-''"
  unfolding char_eq_code of_lower_char by auto

lemma header_byte_lower [simp]: "header_byte (lower_char c) = header_byte c"
  unfolding header_byte_def Let_def char_eq_code list.set insert_iff empty_iff of_lower_char by auto

lemma canonical_loop_lower: "canonical_loop u (map lower_char s) = canonical_loop u s"
  by (induction s arbitrary: u) simp_all

lemma canonical_key_lower:
  "list_all header_byte s \<Longrightarrow> canonical_key (map lower_char s) = canonical_key s"
  by (simp add: canonical_key_def list.pred_map comp_def canonical_loop_lower)

lemma canonical_key_cong:
  assumes "list_all header_byte s" and "list_all header_byte t" and "map lower_char s = map lower_char t"
  shows "canonical_key s = canonical_key t"
  by (metis assms canonical_key_lower)

subsection \<open>Requests and responses\<close>

type_synonym header = "(string, string list) gomap"
type_synonym query = "(string, string list) gomap"

record check_request_attributes =
  ca_method :: string
  ca_header :: header
  ca_host :: string
  ca_protocol :: string
  ca_content_length :: int
  ca_body :: string
  ca_scheme :: string
  ca_path :: string
  ca_query :: query
  ca_fragment :: string

record check_request =
  cq_attributes :: check_request_attributes

datatype check_response_ok = CheckResponseOk

record check_response_denied =
  cd_reason :: string

record check_response =
  cr_ok :: "check_response_ok option"
  cr_denied :: "check_response_denied option"

text \<open>
  The request of \<open>net/http\<close>: \<open>hr_body\<close> is what reading the whole body gives, \<open>hr_query\<close> the
  value of \<open>URL.Query()\<close>.
\<close>

record http_request =
  hr_method :: string
  hr_header :: header
  hr_host :: string
  hr_proto :: string
  hr_body :: "go_error + string"
  hr_scheme :: string
  hr_path :: string
  hr_query :: query
  hr_fragment :: string

definition zero_attributes :: check_request_attributes where
  "zero_attributes = \<lparr>ca_method = [], ca_header = [], ca_host = [], ca_protocol = [],
     ca_content_length = 0, ca_body = [], ca_scheme = [], ca_path = [], ca_query = [], ca_fragment = []\<rparr>"

definition new_request :: "http_request \<Rightarrow> check_request \<times> go_error option" where
  "new_request r =
     (case hr_body r of
        Inl err \<Rightarrow> (\<lparr>cq_attributes = zero_attributes\<rparr>, Some err)
      | Inr body \<Rightarrow>
          (\<lparr>cq_attributes = \<lparr>
              ca_method = hr_method r,
              ca_header = hr_header r,
              ca_host = hr_host r,
              ca_protocol = hr_proto r,
              ca_content_length = int (length body),
              ca_body = body,
              ca_scheme = hr_scheme r,
              ca_path = hr_path r,
              ca_query = hr_query r,
              ca_fragment = hr_fragment r\<rparr>\<rparr>, None))"

subsection \<open>The functions of the library\<close>

record 'v http_adapter =
  ha_string :: "'v \<Rightarrow> go_error + string"
  ha_attributes :: "'v \<Rightarrow> go_error + check_request_attributes"
  ha_ok :: "'v \<Rightarrow> go_error + check_response_ok"
  ha_denied :: "'v \<Rightarrow> go_error + check_response_denied"
  ha_of_ok :: "check_response_ok \<Rightarrow> 'v"
  ha_of_denied :: "check_response_denied \<Rightarrow> 'v"
  ha_of_response :: "check_response \<Rightarrow> 'v"
  ha_of_strings :: "string list \<Rightarrow> 'v"
  ha_wrap_err :: "go_error \<Rightarrow> 'v"

text \<open>A Go map returns the nil slice for a missing key.\<close>

definition lookup_values :: "(string, string list) gomap \<Rightarrow> string \<Rightarrow> string list" where
  "lookup_values h k = (case map_of h k of Some vs \<Rightarrow> vs | None \<Rightarrow> [])"

definition header_values :: "header \<Rightarrow> string \<Rightarrow> string list" where
  "header_values h key = lookup_values h (canonical_key key)"

definition http_allowed :: "'v http_adapter \<Rightarrow> 'v" where
  "http_allowed A = ha_of_ok A CheckResponseOk"

definition http_denied :: "'v http_adapter \<Rightarrow> 'v \<Rightarrow> 'v" where
  "http_denied A reason =
     (case ha_string A reason of
        Inl err \<Rightarrow> ha_wrap_err A err
      | Inr s \<Rightarrow> ha_of_denied A \<lparr>cd_reason = s\<rparr>)"

definition get_header :: "'v http_adapter \<Rightarrow> 'v \<Rightarrow> 'v \<Rightarrow> 'v" where
  "get_header A request key =
     (case ha_attributes A request of
        Inl err \<Rightarrow> ha_wrap_err A err
      | Inr r \<Rightarrow>
          (case ha_string A key of
             Inl err \<Rightarrow> ha_wrap_err A err
           | Inr k \<Rightarrow> ha_of_strings A (header_values (ca_header r) k)))"

definition get_queryparam :: "'v http_adapter \<Rightarrow> 'v \<Rightarrow> 'v \<Rightarrow> 'v" where
  "get_queryparam A request key =
     (case ha_attributes A request of
        Inl err \<Rightarrow> ha_wrap_err A err
      | Inr r \<Rightarrow>
          (case ha_string A key of
             Inl err \<Rightarrow> ha_wrap_err A err
           | Inr k \<Rightarrow> ha_of_strings A (lookup_values (ca_query r) k)))"

definition response_ok :: "'v http_adapter \<Rightarrow> 'v \<Rightarrow> 'v" where
  "response_ok A response =
     (case ha_ok A response of
        Inl err \<Rightarrow> ha_wrap_err A err
      | Inr r \<Rightarrow> ha_of_response A \<lparr>cr_ok = Some r, cr_denied = None\<rparr>)"

definition response_denied :: "'v http_adapter \<Rightarrow> 'v \<Rightarrow> 'v" where
  "response_denied A response =
     (case ha_denied A response of
        Inl err \<Rightarrow> ha_wrap_err A err
      | Inr r \<Rightarrow> ha_of_response A \<lparr>cr_ok = None, cr_denied = Some r\<rparr>)"

text \<open>The adapter converts a native value to a value that converts back to it.\<close>

definition http_adapter_ok :: "'v http_adapter \<Rightarrow> bool" where
  "http_adapter_ok A \<longleftrightarrow>
     (\<forall>r. ha_ok A (ha_of_ok A r) = Inr r) \<and> (\<forall>r. ha_denied A (ha_of_denied A r) = Inr r)"

text \<open>A concrete adapter: the values are the native ones, tagged.\<close>

datatype http_value =
    V_string string
  | V_strings "string list"
  | V_attributes check_request_attributes
  | V_ok check_response_ok
  | V_denied check_response_denied
  | V_response check_response
  | V_error go_error

definition http_values :: "http_value http_adapter" where
  "http_values = \<lparr>
     ha_string = (\<lambda>v. case v of V_string s \<Rightarrow> Inr s | _ \<Rightarrow> Inl (Errorf ''type conversion'')),
     ha_attributes = (\<lambda>v. case v of V_attributes a \<Rightarrow> Inr a | _ \<Rightarrow> Inl (Errorf ''type conversion'')),
     ha_ok = (\<lambda>v. case v of V_ok r \<Rightarrow> Inr r | _ \<Rightarrow> Inl (Errorf ''type conversion'')),
     ha_denied = (\<lambda>v. case v of V_denied r \<Rightarrow> Inr r | _ \<Rightarrow> Inl (Errorf ''type conversion'')),
     ha_of_ok = V_ok, ha_of_denied = V_denied, ha_of_response = V_response,
     ha_of_strings = V_strings, ha_wrap_err = V_error\<rparr>"

lemma http_values_sel [simp]:
  "ha_string http_values (V_string s) = Inr s"
  "ha_string http_values (V_strings l) = Inl (Errorf ''type conversion'')"
  "ha_attributes http_values (V_attributes a) = Inr a"
  "ha_of_response http_values = V_response"
  "ha_of_strings http_values = V_strings"
  by (simp_all add: http_values_def)

lemma http_values_ok [simp]: "http_adapter_ok http_values"
  by (simp add: http_adapter_ok_def http_values_def)

subsection \<open>Properties\<close>

text \<open>
  Building a response in an expression gives the response a policy means: \<open>Allowed().Response()\<close>
  is a response with only the Ok part, and \<open>Denied(reason).Response()\<close> one with only the denied
  part, carrying the reason; a reason that is not a string gives the error value.\<close>

theorem http_response_builders:
  assumes "http_adapter_ok A" and "ha_string A v = Inr reason" and "ha_string A w = Inl err"
  shows "response_ok A (http_allowed A) = ha_of_response A \<lparr>cr_ok = Some CheckResponseOk, cr_denied = None\<rparr> \<and>
    response_denied A (http_denied A v) =
      ha_of_response A \<lparr>cr_ok = None, cr_denied = Some \<lparr>cd_reason = reason\<rparr>\<rparr> \<and>
    http_denied A w = ha_wrap_err A err"
  using assms
  by (simp add: http_adapter_ok_def response_ok_def http_allowed_def response_denied_def http_denied_def)

theorem http_response_builders_witness:
  "response_denied http_values (http_denied http_values (V_string ''no'')) =
   V_response \<lparr>cr_ok = None, cr_denied = Some \<lparr>cd_reason = ''no''\<rparr>\<rparr>"
  using http_response_builders [of http_values "V_string ''no''" "''no''" "V_strings []" "Errorf ''type conversion''"]
  by simp

text \<open>
  \<open>Header\<close> does not depend on the case of its argument: two header names that differ only in
  the case of their letters select the same values of every request; \<open>QueryParam\<close> selects
  exactly the values stored under the name as given.\<close>

theorem get_header_case_insensitive:
  assumes "list_all header_byte k" and "list_all header_byte k'"
    and "map lower_char k = map lower_char k'"
    and "ha_string A key = Inr k" and "ha_string A key' = Inr k'" and "ha_attributes A request = Inr r"
  shows "get_header A request key = get_header A request key' \<and>
    get_queryparam A request key = ha_of_strings A (lookup_values (ca_query r) k)"
  using assms canonical_key_cong [OF assms(1-3)]
  by (simp add: get_header_def get_queryparam_def header_values_def)

theorem get_header_case_insensitive_witness:
  "get_header http_values
     (V_attributes (zero_attributes\<lparr>ca_header := [(''X-Foo'', [''1'', ''2''])]\<rparr>)) (V_string ''x-fOO'') =
   V_strings [''1'', ''2'']"
proof -
  let ?r = "V_attributes (zero_attributes\<lparr>ca_header := [(''X-Foo'', [''1'', ''2''])]\<rparr>)"
  have k: "list_all header_byte ''x-fOO''" "list_all header_byte ''X-Foo''"
    "map lower_char ''x-fOO'' = map lower_char ''X-Foo''" "canonical_key ''X-Foo'' = ''X-Foo''"
    by code_simp+
  have "get_header http_values ?r (V_string ''x-fOO'') = get_header http_values ?r (V_string ''X-Foo'')"
    using get_header_case_insensitive [OF k(1-3), of http_values "V_string ''x-fOO''"
        "V_string ''X-Foo''" ?r] by simp
  also have "\<dots> = V_strings [''1'', ''2'']"
    using k(4) by (simp add: get_header_def header_values_def lookup_values_def)
  finally show ?thesis .
qed

end
