(* ===== verification/Compiler.thy ===== *)
theory Compiler
  imports Cel_Env Compiled_Policy
begin

section \<open>The policy compiler\<close>

text \<open>
  Models \<open>pkg/engine/compiler/compiler.go\<close>: the environment a policy is compiled in, the
  three loops over match conditions, variables and validations, their type checks and the
  field errors they report. The variables provider is shared and mutable: match conditions are
  compiled while it is empty, each variable while it holds the variables before it, and the
  validations when it holds them all.
\<close>

definition envoy_CheckRequest :: cel_type where
  "envoy_CheckRequest = Object_t ''envoy.service.auth.v3.CheckRequest''"
definition envoy_CheckResponse :: cel_type where
  "envoy_CheckResponse = Object_t ''envoy.service.auth.v3.CheckResponse''"
definition http_RequestType :: cel_type where
  "http_RequestType = Object_t ''http.CheckRequest''"
definition http_ResponseType :: cel_type where
  "http_ResponseType = Object_t ''http.CheckResponse''"

lemmas authz_type_defs = envoy_CheckRequest_def envoy_CheckResponse_def http_RequestType_def
  http_ResponseType_def EvaluationModeEnvoy_def EvaluationModeHTTP_def

text \<open>The types of the contexts that the Kyverno libraries declare.\<close>

record context_types =
  ct_http :: cel_type
  ct_image :: cel_type
  ct_resource :: cel_type

fun compile_match_conditions ::
  "('env, 'ast, 'prog) cel_lib \<Rightarrow> 'env \<Rightarrow> variables_provider \<Rightarrow> path_elem list \<Rightarrow> nat \<Rightarrow>
   match_condition list \<Rightarrow> 'prog list \<Rightarrow> field_error list + 'prog list" where
  "compile_match_conditions C env provider path i [] progs = Inr progs"
| "compile_match_conditions C env provider path i (mc # mcs) progs =
     (let p = path @ [Index i, Child ''expression''] in
      case cl_compile C env provider (mc_expression mc) of
        Inl err \<Rightarrow> Inl [Invalid p (mc_expression mc) (error_text err)]
      | Inr ast \<Rightarrow>
          (if cl_output_type C ast \<noteq> Bool_t
           then Inl [Invalid p (mc_expression mc) ''matchCondition output is expected to be of type bool'']
           else case cl_program C env ast of
             Inl err \<Rightarrow> Inl [Invalid p (mc_expression mc) (error_text err)]
           | Inr prog \<Rightarrow> compile_match_conditions C env provider path (Suc i) mcs (progs @ [prog])))"

fun compile_variables ::
  "('env, 'ast, 'prog) cel_lib \<Rightarrow> 'env \<Rightarrow> path_elem list \<Rightarrow> nat \<Rightarrow> policy_variable list \<Rightarrow>
   variables_provider \<Rightarrow> (string, 'prog) gomap \<Rightarrow>
   field_error list + (variables_provider \<times> (string, 'prog) gomap)" where
  "compile_variables C env path i [] provider variables = Inr (provider, variables)"
| "compile_variables C env path i (v # vs) provider variables =
     (let p = path @ [Index i, Child ''expression''] in
      case cl_compile C env provider (vr_expression v) of
        Inl err \<Rightarrow> Inl [Invalid p (vr_expression v) (error_text err)]
      | Inr ast \<Rightarrow>
          (let provider' = register_field (vr_name v) (cl_output_type C ast) provider in
           case cl_program C env ast of
             Inl err \<Rightarrow> Inl [Invalid p (vr_expression v) (error_text err)]
           | Inr prog \<Rightarrow>
               compile_variables C env path (Suc i) vs provider' (AList.update (vr_name v) prog variables)))"

definition compile_authorization ::
  "('env, 'ast, 'prog) cel_lib \<Rightarrow> 'env \<Rightarrow> variables_provider \<Rightarrow> path_elem list \<Rightarrow> string \<Rightarrow>
   validation \<Rightarrow> field_error list + 'prog" where
  "compile_authorization C env provider path eval_mode rule =
     (let p = path @ [Child ''expression'']; expr = vl_expression rule in
      case cl_compile C env provider expr of
        Inl err \<Rightarrow> Inl [Invalid p expr (error_text err)]
      | Inr ast \<Rightarrow>
          (if eval_mode = EvaluationModeEnvoy \<and> cl_output_type C ast \<noteq> envoy_CheckResponse \<and>
              cl_output_type C ast \<noteq> Null_t
           then Inl [Invalid p expr
             ''rule response output is expected to be of type envoy.service.auth.v3.CheckResponse'']
           else if eval_mode = EvaluationModeHTTP \<and> cl_output_type C ast \<noteq> http_ResponseType \<and>
              cl_output_type C ast \<noteq> Null_t
           then Inl [Invalid p expr ''rule response output is expected to be of type http.CheckResponse'']
           else case cl_program C env ast of
             Inl err \<Rightarrow> Inl [Invalid p expr (error_text err)]
           | Inr prog \<Rightarrow> Inr prog))"

fun compile_validations ::
  "('env, 'ast, 'prog) cel_lib \<Rightarrow> 'env \<Rightarrow> variables_provider \<Rightarrow> path_elem list \<Rightarrow> string \<Rightarrow> nat \<Rightarrow>
   validation list \<Rightarrow> 'prog list \<Rightarrow> field_error list + 'prog list" where
  "compile_validations C env provider path eval_mode i [] rules = Inr rules"
| "compile_validations C env provider path eval_mode i (rule # rest) rules =
     (case compile_authorization C env provider (path @ [Index i]) eval_mode rule of
        Inl errs \<Rightarrow> Inl errs
      | Inr program \<Rightarrow>
          compile_validations C env provider path eval_mode (Suc i) rest (rules @ [program]))"

definition policy_env_options :: "context_types \<Rightarrow> cel_type \<Rightarrow> env_option list" where
  "policy_env_options T object_type =
     [Variable HttpKey (ct_http T), Variable ImageDataKey (ct_image T), Variable ObjectKey object_type,
      Variable VariablesKey VariablesType, Variable ResourceKey (ct_resource T), Custom_type_provider]"

definition policy_env ::
  "('env, 'ast, 'prog) cel_lib \<Rightarrow> context_types \<Rightarrow> string \<Rightarrow> field_error list + 'env" where
  "policy_env C T mode =
     (case new_env C mode of
        Inl err \<Rightarrow> Inl [Internal_error err]
      | Inr base \<Rightarrow>
          (case (if mode = EvaluationModeEnvoy then Some envoy_CheckRequest
                 else if mode = EvaluationModeHTTP then Some http_RequestType else None) of
             None \<Rightarrow> Inl [Internal_error (Errorf (''invalid policy evaluation mode: '' @ mode))]
           | Some object_type \<Rightarrow>
               (case cl_extend C base (policy_env_options T object_type) of
                  Inl err \<Rightarrow> Inl [Internal_error err]
                | Inr env \<Rightarrow> Inr env)))"

definition compiled_environment ::
  "('env, 'ast, 'prog) cel_lib \<Rightarrow> context_types \<Rightarrow> string \<Rightarrow> vpol_spec \<Rightarrow>
   field_error list + ('prog list \<times> (string, 'prog) gomap \<times> 'prog list)" where
  "compiled_environment C T mode spec =
     (case policy_env C T mode of
        Inl errs \<Rightarrow> Inl errs
      | Inr env \<Rightarrow>
          (case compile_match_conditions C env new_variables_provider
                  [Child ''spec'', Child ''matchConditions''] 0 (sp_match_conditions spec) [] of
             Inl errs \<Rightarrow> Inl errs
           | Inr match_conditions \<Rightarrow>
               (case compile_variables C env [Child ''spec'', Child ''variables''] 0
                       (sp_variables spec) new_variables_provider [] of
                  Inl errs \<Rightarrow> Inl errs
                | Inr (provider, variables) \<Rightarrow>
                    (case compile_validations C env provider [Child ''spec'', Child ''validations'']
                            mode 0 (sp_validations spec) [] of
                       Inl errs \<Rightarrow> Inl errs
                     | Inr rules \<Rightarrow> Inr (match_conditions, variables, rules)))))"

definition compile_policy ::
  "('env, 'ast, ('i, 'd, 'l, 'v) program) cel_lib \<Rightarrow> context_types \<Rightarrow> vpol_api \<Rightarrow> vpol \<Rightarrow>
   field_error list + ('i, 'd, 'l, 'v) compiled_policy" where
  "compile_policy C T api pol =
     (case compiled_environment C T (api_evaluation_mode api (vp_spec pol)) (vp_spec pol) of
        Inl errs \<Rightarrow> Inl errs
      | Inr (match_conditions, variables, rules) \<Rightarrow>
          Inr \<lparr>cp_failure_policy = api_failure_policy api pol,
               cp_match_conditions = match_conditions,
               cp_variables = variables,
               cp_rules = rules\<rparr>)"

subsection \<open>What a successful compilation has checked\<close>

definition compiled_as ::
  "('env, 'ast, 'prog) cel_lib \<Rightarrow> 'env \<Rightarrow> variables_provider \<Rightarrow> cel_type set \<Rightarrow> string \<Rightarrow> 'prog \<Rightarrow> bool" where
  "compiled_as C env provider types expr prog \<longleftrightarrow>
     (\<exists>ast. cl_compile C env provider expr = Inr ast \<and> cl_output_type C ast \<in> types \<and>
            cl_program C env ast = Inr prog)"

definition response_types :: "string \<Rightarrow> cel_type set" where
  "response_types mode =
     (if mode = EvaluationModeEnvoy then {envoy_CheckResponse, Null_t}
      else if mode = EvaluationModeHTTP then {http_ResponseType, Null_t} else UNIV)"

lemma compile_match_conditions_ok:
  "compile_match_conditions C env prov path i mcs progs = Inr res \<longleftrightarrow>
   (\<exists>ps. res = progs @ ps \<and>
     list_all2 (\<lambda>mc p. compiled_as C env prov {Bool_t} (mc_expression mc) p) mcs ps)"
proof (induction mcs arbitrary: i progs res)
  case (Cons mc mcs)
  show ?case
    by (auto simp: Let_def Cons.IH compiled_as_def list_all2_Cons1 split: sum.splits)
qed auto

lemma compile_authorization_ok:
  "compile_authorization C env prov path mode rule = Inr p \<longleftrightarrow>
   compiled_as C env prov (response_types mode) (vl_expression rule) p"
  by (auto simp: compile_authorization_def compiled_as_def response_types_def Let_def
      authz_type_defs split: sum.splits)

lemma compile_validations_ok:
  "compile_validations C env prov path mode i rules progs = Inr res \<longleftrightarrow>
   (\<exists>ps. res = progs @ ps \<and>
     list_all2 (\<lambda>r p. compiled_as C env prov (response_types mode) (vl_expression r) p) rules ps)"
proof (induction rules arbitrary: i progs res)
  case (Cons r rules)
  show ?case
    by (cases "compile_authorization C env prov (path @ [Index i]) mode r")
      (auto simp: Cons.IH list_all2_Cons1 simp flip: compile_authorization_ok [where path = "path @ [Index i]"])
qed auto

text \<open>The provider a variable is compiled with holds the variables before it.\<close>

fun variables_typed ::
  "('env, 'ast, 'prog) cel_lib \<Rightarrow> 'env \<Rightarrow> variables_provider \<Rightarrow> policy_variable list \<Rightarrow> 'prog list \<Rightarrow>
   variables_provider \<Rightarrow> bool" where
  "variables_typed C env prov [] ps prov' \<longleftrightarrow> ps = [] \<and> prov' = prov"
| "variables_typed C env prov (v # vs) ps prov' \<longleftrightarrow>
     (\<exists>ast p ps'. ps = p # ps' \<and> cl_compile C env prov (vr_expression v) = Inr ast \<and>
        cl_program C env ast = Inr p \<and>
        variables_typed C env (register_field (vr_name v) (cl_output_type C ast) prov) vs ps' prov')"

definition zip_update :: "(string, 'p) gomap \<Rightarrow> string list \<Rightarrow> 'p list \<Rightarrow> (string, 'p) gomap" where
  "zip_update m ns ps = fold (\<lambda>(n, p). AList.update n p) (zip ns ps) m"

lemma zip_update_simps [simp]:
  "zip_update m [] ps = m"
  "zip_update m (n # ns) (p # ps) = zip_update (AList.update n p m) ns ps"
  by (simp_all add: zip_update_def)

lemma compile_variables_ok:
  "compile_variables C env path i vs prov m = Inr (prov', m') \<longleftrightarrow>
   (\<exists>ps. variables_typed C env prov vs ps prov' \<and> m' = zip_update m (map vr_name vs) ps)"
proof (induction vs arbitrary: i prov m)
  case (Cons v vs)
  show ?case
    by (auto simp: Let_def Cons.IH split: sum.splits)
qed auto

lemma variables_typed_names:
  "variables_typed C env prov vs ps prov' \<Longrightarrow>
   length ps = length vs \<and> vpr_names prov' = vpr_names prov @ map vr_name vs"
  by (induction vs arbitrary: prov ps) (auto simp: register_field_def)

lemma zip_update_fresh:
  "length ns = length ps \<Longrightarrow> distinct ns \<Longrightarrow> set ns \<inter> fst ` set m = {} \<Longrightarrow>
   zip_update m ns ps = m @ zip ns ps"
proof (induction ns ps arbitrary: m rule: list_induct2)
  case (Cons n ns p ps)
  have "AList.update n p m = m @ [(n, p)]"
    using Cons.prems by (intro gomap_update_fresh) auto
  with Cons show ?case by auto
qed simp

lemma compile_policy_ok:
  assumes "compile_policy C T api pol = Inr p"
  obtains env prov ps where
    "policy_env C T (api_evaluation_mode api (vp_spec pol)) = Inr env"
    "cp_failure_policy p = api_failure_policy api pol"
    "list_all2 (\<lambda>mc q. compiled_as C env new_variables_provider {Bool_t} (mc_expression mc) q)
       (sp_match_conditions (vp_spec pol)) (cp_match_conditions p)"
    "variables_typed C env new_variables_provider (sp_variables (vp_spec pol)) ps prov"
    "cp_variables p = zip_update [] (map vr_name (sp_variables (vp_spec pol))) ps"
    "list_all2 (\<lambda>r q. compiled_as C env prov (response_types (api_evaluation_mode api (vp_spec pol)))
       (vl_expression r) q) (sp_validations (vp_spec pol)) (cp_rules p)"
  using assms
  by (auto simp: compile_policy_def compiled_environment_def compile_match_conditions_ok
      compile_variables_ok compile_validations_ok split: sum.splits)

lemma policy_env_mode:
  "policy_env C T mode = Inr env \<Longrightarrow> mode = EvaluationModeEnvoy \<or> mode = EvaluationModeHTTP"
  by (auto simp: policy_env_def split: sum.splits if_splits)

subsection \<open>What a failed compilation reports\<close>

text \<open>The error names element \<open>i\<close> of a section and carries its expression.\<close>

definition names_element :: "field_error \<Rightarrow> path_elem list \<Rightarrow> nat \<Rightarrow> string list \<Rightarrow> bool" where
  "names_element e path i exprs \<longleftrightarrow>
     (\<exists>j d. j < length exprs \<and> e = Invalid (path @ [Index (i + j), Child ''expression'']) (exprs ! j) d)"

lemma names_element_here: "names_element (Invalid (path @ [Index i, Child ''expression'']) x d) path i (x # xs)"
  by (auto simp: names_element_def intro: exI [of _ 0])

lemma names_element_next: "names_element e path (Suc i) xs \<Longrightarrow> names_element e path i (x # xs)"
  unfolding names_element_def by (metis add_Suc add_Suc_right length_Cons nth_Cons_Suc Suc_less_eq)

lemmas names_element_intros = names_element_here names_element_next

lemma compile_match_conditions_error:
  "compile_match_conditions C env prov path i mcs progs = Inl errs \<Longrightarrow>
   \<exists>e. errs = [e] \<and> names_element e path i (map mc_expression mcs)"
  by (induction mcs arbitrary: i progs)
    (fastforce simp: Let_def intro: names_element_intros split: sum.splits if_splits)+

lemma compile_variables_error:
  "compile_variables C env path i vs prov m = Inl errs \<Longrightarrow>
   \<exists>e. errs = [e] \<and> names_element e path i (map vr_expression vs)"
  by (induction vs arbitrary: i prov m)
    (fastforce simp: Let_def intro: names_element_intros split: sum.splits)+

lemma compile_authorization_error:
  "compile_authorization C env prov path mode rule = Inl errs \<Longrightarrow>
   \<exists>d. errs = [Invalid (path @ [Child ''expression'']) (vl_expression rule) d]"
  by (auto simp: compile_authorization_def Let_def split: sum.splits if_splits)

lemma compile_validations_error:
  "compile_validations C env prov path mode i rules progs = Inl errs \<Longrightarrow>
   \<exists>e. errs = [e] \<and> names_element e path i (map vl_expression rules)"
proof (induction rules arbitrary: i progs)
  case (Cons r rules)
  show ?case
  proof (cases "compile_authorization C env prov (path @ [Index i]) mode r")
    case (Inl es)
    with Cons.prems compile_authorization_error [OF Inl] show ?thesis
      by (auto intro: names_element_here)
  next
    case (Inr q)
    with Cons.prems Cons.IH show ?thesis by (fastforce intro: names_element_next)
  qed
qed simp

text \<open>C13:
  A policy that compiles has the evaluation mode Envoy or HTTP; each match condition was
  compiled to a program of type bool, in order; each validation was compiled, with the
  variables in scope, to a program whose type is the mode's response type or null, in order.\<close>

theorem compile_policy_checks:
  assumes "compile_policy C T api pol = Inr p"
  shows "\<exists>env prov mode. mode = api_evaluation_mode api (vp_spec pol) \<and>
    policy_env C T mode = Inr env \<and> mode \<in> {EvaluationModeEnvoy, EvaluationModeHTTP} \<and>
    vpr_names prov = map vr_name (sp_variables (vp_spec pol)) \<and>
    list_all2 (\<lambda>mc. compiled_as C env new_variables_provider {Bool_t} (mc_expression mc))
      (sp_match_conditions (vp_spec pol)) (cp_match_conditions p) \<and>
    list_all2 (\<lambda>r. compiled_as C env prov
        {if mode = EvaluationModeEnvoy then envoy_CheckResponse else http_ResponseType, Null_t} (vl_expression r))
      (sp_validations (vp_spec pol)) (cp_rules p)"
proof -
  from assms obtain env prov ps where c:
    "policy_env C T (api_evaluation_mode api (vp_spec pol)) = Inr env"
    "list_all2 (\<lambda>mc q. compiled_as C env new_variables_provider {Bool_t} (mc_expression mc) q)
       (sp_match_conditions (vp_spec pol)) (cp_match_conditions p)"
    "variables_typed C env new_variables_provider (sp_variables (vp_spec pol)) ps prov"
    "list_all2 (\<lambda>r q. compiled_as C env prov (response_types (api_evaluation_mode api (vp_spec pol)))
       (vl_expression r) q) (sp_validations (vp_spec pol)) (cp_rules p)"
    by (rule compile_policy_ok)
  moreover have "vpr_names prov = map vr_name (sp_variables (vp_spec pol))"
    using variables_typed_names [OF c(3)] by (simp add: new_variables_provider_def)
  ultimately show ?thesis
    using policy_env_mode [OF c(1)] by (auto simp: response_types_def EvaluationModeEnvoy_def EvaluationModeHTTP_def)
qed

text \<open>
  A CEL library for concrete inputs: \<open>list_cel\<close> whose programs read the variable with the name
  of the expression, and compile only when it is registered, or give a constant.
\<close>

definition read_variable :: "string \<Rightarrow> ('i, 'd, 'l, nat) program" where
  "read_variable x act =
     (case act VariablesKey of
        Some (Variables_b f) \<Rightarrow> (case f x of Some v \<Rightarrow> (v, None) | None \<Rightarrow> (None, Some (Errorf ''no such key'')))
      | _ \<Rightarrow> (None, Some (Errorf ''no variables'')))"

definition reading_cel :: "(env_option list, string, (unit, unit, unit, nat) program) cel_lib" where
  "reading_cel = \<lparr>
     cl_new_env = Inr,
     cl_extend = (\<lambda>e os. Inr (e @ os)),
     cl_compile = (\<lambda>e p x. if x \<in> fst ` set (vpr_fields p) \<or> x \<in> {''true'', ''http'', ''null''} then Inr x
        else Inl (Errorf ''undeclared reference'')),
     cl_output_type = cl_output_type list_cel,
     cl_program = (\<lambda>e x. Inr (if x = ''true'' then (\<lambda>_. (Some 1, None)) else if x = ''http'' then (\<lambda>_. (Some 7, None))
        else if x = ''null'' then (\<lambda>_. (Some 0, None)) else read_variable x))\<rparr>"

lemma reading_cel_sel [simp]:
  "cl_new_env reading_cel = Inr"
  "cl_extend reading_cel e opts = Inr (e @ opts)"
  "cl_compile reading_cel e p x = (if x \<in> fst ` set (vpr_fields p) \<or> x \<in> {''true'', ''http'', ''null''} then Inr x
        else Inl (Errorf ''undeclared reference''))"
  "cl_output_type reading_cel = cl_output_type list_cel"
  "cl_program reading_cel e x = Inr (if x = ''true'' then (\<lambda>_. (Some 1, None)) else if x = ''http'' then (\<lambda>_. (Some 7, None))
        else if x = ''null'' then (\<lambda>_. (Some 0, None)) else read_variable x)"
  by (simp_all add: reading_cel_def)

definition example_types :: context_types where
  "example_types = \<lparr>ct_http = Opaque_t ''http'', ct_image = Opaque_t ''image'', ct_resource = Opaque_t ''resource''\<rparr>"

text \<open>A policy for HTTP requests with a condition, two variables and a rule.\<close>

definition example_policy :: "string \<Rightarrow> vpol" where
  "example_policy rule = \<lparr>vp_name = ''p'', vp_resource_version = ''1'', vp_meta = [], vp_spec = \<lparr>
     sp_evaluation = Some EvaluationModeHTTP,
     sp_validations = [\<lparr>vl_expression = rule, vl_message = [], vl_reason = None, vl_message_expression = []\<rparr>],
     sp_variables = [\<lparr>vr_name = ''a'', vr_expression = ''http''\<rparr>, \<lparr>vr_name = ''b'', vr_expression = ''a''\<rparr>],
     sp_match_conditions = [\<lparr>mc_name = ''m'', mc_expression = ''true''\<rparr>],
     sp_failure_policy = None, sp_other = []\<rparr>\<rparr>"

definition example_compiled :: "(unit, unit, unit, nat) compiled_policy" where
  "example_compiled = \<lparr>cp_failure_policy = ''Fail'', cp_match_conditions = [\<lambda>_. (Some 1, None)],
     cp_variables = [(''a'', \<lambda>_. (Some 7, None)), (''b'', read_variable ''a'')], cp_rules = [\<lambda>_. (Some 7, None)]\<rparr>"

lemmas example_simps = compile_policy_def compiled_environment_def policy_env_def new_env_def new_base_env_def
  example_policy_def kyverno_api_def EvaluationModeEnvoy_def EvaluationModeHTTP_def
  new_variables_provider_def register_field_def compile_authorization_def authz_type_defs list_cel_def

lemma example_compiles: "compile_policy reading_cel example_types kyverno_api (example_policy ''http'') = Inr example_compiled"
  by (simp add: example_simps example_compiled_def Let_def)

lemma example_error:
  "compile_policy reading_cel example_types kyverno_api (example_policy ''true'') =
   Inl [Invalid [Child ''spec'', Child ''validations'', Index 0, Child ''expression''] ''true''
     ''rule response output is expected to be of type http.CheckResponse'']"
  by (simp add: example_simps Let_def)

theorem compile_policy_checks_witness:
  "\<exists>env. list_all2 (\<lambda>mc. compiled_as reading_cel env new_variables_provider {Bool_t} (mc_expression mc))
      (sp_match_conditions (vp_spec (example_policy ''http''))) (cp_match_conditions example_compiled)"
  using compile_policy_checks [OF example_compiles] by blast

text \<open>C14:
  A compilation that fails reports exactly one error. It is an internal error of the
  environment, or it names the path of one match condition, variable or validation of the
  policy, with the expression at that path.\<close>

theorem compile_policy_error:
  assumes "compile_policy C T api pol = Inl errs"
  shows "\<exists>e. errs = [e] \<and>
    ((\<exists>err. e = Internal_error err) \<or>
     names_element e [Child ''spec'', Child ''matchConditions''] 0 (map mc_expression (sp_match_conditions (vp_spec pol))) \<or>
     names_element e [Child ''spec'', Child ''variables''] 0 (map vr_expression (sp_variables (vp_spec pol))) \<or>
     names_element e [Child ''spec'', Child ''validations''] 0 (map vl_expression (sp_validations (vp_spec pol))))"
  using assms
  by (auto simp: compile_policy_def compiled_environment_def policy_env_def
      dest!: compile_match_conditions_error compile_variables_error compile_validations_error
      split: sum.splits option.splits)

theorem compile_policy_error_witness:
  "\<exists>e. [Invalid [Child ''spec'', Child ''validations'', Index 0, Child ''expression''] ''true''
     ''rule response output is expected to be of type http.CheckResponse''] = [e] \<and>
    ((\<exists>err. e = Internal_error err) \<or>
     names_element e [Child ''spec'', Child ''matchConditions''] 0 [''true''] \<or>
     names_element e [Child ''spec'', Child ''variables''] 0 [''http'', ''a''] \<or>
     names_element e [Child ''spec'', Child ''validations''] 0 [''true''])"
  using compile_policy_error [OF example_error] by (simp add: example_policy_def)

subsection \<open>Compiled variables read only the variables before them\<close>

text \<open>
  Documented by CEL: the type checker accepts the selection of a field only if the type declares
  it, except on a value of type \<open>dyn\<close>, whose selections are left to the evaluation. \<open>dynamic\<close> tells of
  an expression whether it converts the variables to \<open>dyn\<close>; the program of any other reads no
  variable that is not registered when it is compiled.
\<close>

definition checked_cel :: "(string \<Rightarrow> bool) \<Rightarrow> ('env, 'ast, ('i, 'd, 'l, 'v) program) cel_lib \<Rightarrow> bool" where
  "checked_cel dynamic C \<longleftrightarrow>
     (\<forall>env prov expr ast prog. \<not> dynamic expr \<longrightarrow> cl_compile C env prov expr = Inr ast \<longrightarrow>
        cl_program C env ast = Inr prog \<longrightarrow> reads_only (fst ` set (vpr_fields prov)) prog)"

lemma variables_typed_ordered:
  assumes "checked_cel dynamic C"
  shows "variables_typed C env prov vs ps prov' \<Longrightarrow> distinct (map vr_name vs) \<Longrightarrow>
    \<forall>v \<in> set vs. \<not> dynamic (vr_expression v) \<Longrightarrow>
    set (map vr_name vs) \<inter> fst ` set (vpr_fields prov) = {} \<Longrightarrow>
    vars_ordered (fst ` set (vpr_fields prov)) (zip (map vr_name vs) ps)"
proof (induction vs arbitrary: prov ps)
  case (Cons v vs)
  then obtain ast p ps' where p: "ps = p # ps'" "cl_compile C env prov (vr_expression v) = Inr ast"
    "cl_program C env ast = Inr p"
    "variables_typed C env (register_field (vr_name v) (cl_output_type C ast) prov) vs ps' prov'"
    by auto
  have "vars_ordered (fst ` set (vpr_fields (register_field (vr_name v) (cl_output_type C ast) prov)))
      (zip (map vr_name vs) ps')"
    using Cons.prems by (intro Cons.IH [OF p(4)]) (auto simp: register_field_def)
  moreover have "reads_only (fst ` set (vpr_fields prov)) p"
    using assms Cons.prems(3) p unfolding checked_cel_def by (meson list.set_intros(1))
  ultimately show ?case using Cons.prems p(1) by (auto simp: register_field_def)
qed simp

lemma compiled_variables:
  assumes "compile_policy C T api pol = Inr p" and "distinct (map vr_name (sp_variables (vp_spec pol)))"
  obtains env prov ps where
    "variables_typed C env new_variables_provider (sp_variables (vp_spec pol)) ps prov"
    "cp_variables p = zip (map vr_name (sp_variables (vp_spec pol))) ps"
    "length ps = length (sp_variables (vp_spec pol))"
proof -
  from assms(1) obtain env prov ps where v:
    "variables_typed C env new_variables_provider (sp_variables (vp_spec pol)) ps prov"
    "cp_variables p = zip_update [] (map vr_name (sp_variables (vp_spec pol))) ps"
    by (rule compile_policy_ok)
  have len: "length ps = length (sp_variables (vp_spec pol))"
    using variables_typed_names [OF v(1)] by simp
  with v assms(2) zip_update_fresh [of "map vr_name (sp_variables (vp_spec pol))" ps "[]"] show thesis
    by (intro that [of env ps prov]) simp_all
qed

text \<open>C15:
  The evaluation of the variables of a compiled policy ends, when their names are distinct and none
  of their expressions converts the variables to \<open>dyn\<close>: the type checker then allows each variable
  to read only the variables before it, so a lookup of any variable of the policy is answered
  within as many nested lookups as there are variables, and its answer is the same at every larger
  depth and whatever a lookup beyond that depth would give, that is, nothing beyond it is read. (A
  conversion to \<open>dyn\<close> defeats the check: see \<open>dynamic_variable_never_resolves\<close>.)\<close>

theorem compiled_variables_resolve:
  assumes "checked_cel dynamic C" and "compile_policy C T api pol = Inr p"
    and "distinct (map vr_name (sp_variables (vp_spec pol)))"
    and "\<forall>v \<in> set (sp_variables (vp_spec pol)). \<not> dynamic (vr_expression v)"
    and "n \<in> set (map vr_name (sp_variables (vp_spec pol)))"
    and "length (cp_variables p) \<le> k"
  shows "var_lookup ops (length (cp_variables p)) (cp_variables p) base n \<noteq> None \<and>
    var_lookup_at ops low k (cp_variables p) base n = var_lookup ops (length (cp_variables p)) (cp_variables p) base n"
proof -
  from compiled_variables [OF assms(2,3)] obtain env prov ps where v:
    "variables_typed C env new_variables_provider (sp_variables (vp_spec pol)) ps prov"
    "cp_variables p = zip (map vr_name (sp_variables (vp_spec pol))) ps"
    "length ps = length (sp_variables (vp_spec pol))" .
  have ordered: "vars_ordered {} (cp_variables p)"
    using variables_typed_ordered [OF assms(1) v(1) assms(3,4)] v(2) by (simp add: new_variables_provider_def)
  have n: "n \<in> fst ` set (cp_variables p)"
    using assms(5) v(3) by (simp add: v(2) flip: set_map)
  from vars_ordered_resolves [OF ordered n, of ops base]
  have "var_lookup_at ops low k (cp_variables p) base n =
      var_lookup_at ops (\<lambda>_. None) (length (cp_variables p)) (cp_variables p) base n"
    using assms(6) unfolding resolves_def by (metis order_refl)
  with var_lookup_enough [OF ordered n order_refl] show ?thesis by (simp add: var_lookup_at_None)
qed

lemma checked_reading_cel: "checked_cel (\<lambda>_. False) reading_cel"
  by (auto simp: checked_cel_def reads_only_def read_variable_def)

theorem compiled_variables_resolve_witness:
  "var_lookup_at nat_ops (\<lambda>_. None) 9 (cp_variables example_compiled) Map.empty ''b'' = Some (Some 7)"
  using compiled_variables_resolve [OF checked_reading_cel example_compiles, of "''b''" 9 nat_ops Map.empty "\<lambda>_. None"]
  by (simp add: example_policy_def example_compiled_def numeral_2_eq_2 read_variable_def)

text \<open>
  A policy whose variable reads itself through a conversion to \<open>dyn\<close> compiles, and a lookup of the
  variable ends at no depth: in the code it recurses until the stack is used up.\<close>

definition self_expression :: string where
  "self_expression = ''dyn(variables).x''"

definition dyn_cel :: "(env_option list, string, (unit, unit, unit, nat) program) cel_lib" where
  "dyn_cel = reading_cel\<lparr>
     cl_compile := (\<lambda>e p x. if x = self_expression then Inr x else cl_compile reading_cel e p x),
     cl_program := (\<lambda>e x. if x = self_expression then Inr (read_variable ''x'') else cl_program reading_cel e x)\<rparr>"

definition self_policy :: vpol where
  "self_policy = (example_policy ''http'')\<lparr>vp_spec := (vp_spec (example_policy ''http''))\<lparr>
     sp_variables := [\<lparr>vr_name = ''x'', vr_expression = self_expression\<rparr>]\<rparr>\<rparr>"

theorem dynamic_variable_never_resolves:
  "checked_cel (\<lambda>x. x = self_expression) dyn_cel \<and>
   (\<exists>p. compile_policy dyn_cel example_types kyverno_api self_policy = Inr p \<and>
      map_of (cp_variables p) ''x'' \<noteq> None \<and> (\<forall>depth base. \<not> resolves nat_ops depth (cp_variables p) base ''x''))"
proof -
  have "checked_cel (\<lambda>x. x = self_expression) dyn_cel"
    by (auto simp: checked_cel_def reads_only_def read_variable_def dyn_cel_def)
  moreover obtain p where p: "compile_policy dyn_cel example_types kyverno_api self_policy = Inr p"
    "cp_variables p = [(''x'', read_variable ''x'')]"
    by (simp add: example_simps dyn_cel_def self_policy_def self_expression_def Let_def)
  moreover have "reads_itself ''x'' (read_variable ''x'')"
    by (simp add: reads_itself_def read_variable_def)
  ultimately show ?thesis
    using reads_itself_unresolved [of "cp_variables p" "''x''" "read_variable ''x''" "0 :: nat" 1] by auto
qed

end
