(* ===== verification/Authz_Envoy.thy ===== *)
theory Authz_Envoy
  imports Stateful_Sources Core_Engine
begin

section \<open>The Envoy authorization service\<close>

text \<open>
  Models \<open>pkg/authz/envoy\<close> and \<open>pkg/metrics/envoy.go\<close>: the engine \<open>NewServer\<close> builds (sequential
  dispatch that stops at the first response, first decisive evaluation) and the \<open>Check\<close>
  handler. The response type is the protobuf message, a parameter; a nil response pointer is
  \<open>None\<close>. Starting the gRPC server is not modelled.
\<close>

subsection \<open>The engine of the authorization servers\<close>

definition envoy_breaker :: "('p, 'i, ('resp option) evaluation) breaker" where
  "envoy_breaker policy inp out = (ev_result out \<noteq> None)"

definition envoy_decisive :: "('resp option) evaluation \<Rightarrow> bool" where
  "envoy_decisive out \<longleftrightarrow> ev_result out \<noteq> None \<or> ev_error out \<noteq> None"

definition zero_evaluation :: "('resp option) evaluation" where
  "zero_evaluation = \<lparr>ev_result = None, ev_error = None\<rparr>"

definition envoy_engine ::
  "('s, ('d, 'i, 'resp option) policy) source \<Rightarrow> 'd \<Rightarrow> 'i \<Rightarrow> 's \<Rightarrow> ('resp option) evaluation \<times> 's" where
  "envoy_engine src =
     new_engine src
       (handler (sequential evaluator_factory (Some (\<lambda>fc. envoy_breaker)))
                (\<lambda>fc. new_first envoy_decisive zero_evaluation))"

text \<open>
  The specification of a decision: the first policy, in source order, that answers or fails.
\<close>

definition decision :: "('d, 'i, 'resp option) policy list \<Rightarrow> 'd \<Rightarrow> 'i \<Rightarrow> 'resp option \<times> go_error option" where
  "decision policies data inp =
     (case find (\<lambda>r. r \<noteq> (None, None)) (map (\<lambda>p. p data inp) policies) of
        None \<Rightarrow> (None, None)
      | Some r \<Rightarrow> r)"

lemma decision_Nil [simp]: "decision [] data inp = (None, None)"
  by (simp add: decision_def)

lemma decision_Cons [simp]:
  "decision (p # ps) data inp = (if p data inp = (None, None) then decision ps data inp else p data inp)"
  by (simp add: decision_def)

lemma decision_skip:
  "\<forall>p \<in> set silent. p data inp = (None, None) \<Longrightarrow>
   decision (silent @ ps) data inp = decision ps data inp"
  by (induction silent) simp_all

lemma make_evaluation_eq: "make_evaluation a b = make_evaluation c d \<longleftrightarrow> a = c \<and> b = d"
  by (simp add: make_evaluation_def)

lemma find_decisive:
  "find envoy_decisive (map (\<lambda>p. case p data inp of (out, err) \<Rightarrow> make_evaluation out err) ps) =
   map_option (\<lambda>(out, err). make_evaluation out err)
     (find (\<lambda>r. r \<noteq> (None, None)) (map (\<lambda>p. p data inp) ps))"
  by (induction ps) (auto simp: envoy_decisive_def make_evaluation_def split: prod.split)

lemma envoy_engine_decision:
  assumes "src s = ((policies, err), s')"
  shows "envoy_engine src data inp s =
    ((case decision policies data inp of (out, e) \<Rightarrow> make_evaluation out e), s')"
proof -
  let ?fc = "make_factory_context (make_source_context policies err) data inp"
  have "handler (sequential evaluator_factory (Some (\<lambda>fc. envoy_breaker)))
      (\<lambda>fc. new_first envoy_decisive zero_evaluation) ?fc inp =
    (case find envoy_decisive (map (snd \<circ> snd)
        (until_break (evaluator_factory ?fc) envoy_breaker inp policies)) of
      None \<Rightarrow> zero_evaluation | Some out \<Rightarrow> out)"
    by (subst first_r.handler_spec) (simp_all add: context_defs)
  also have "\<dots> = (case find envoy_decisive (map (\<lambda>p. evaluator_factory ?fc p inp) policies) of
      None \<Rightarrow> zero_evaluation | Some out \<Rightarrow> out)"
    by (subst find_until_break) (simp_all add: envoy_breaker_def envoy_decisive_def)
  also have "\<dots> = (case decision policies data inp of (out, e) \<Rightarrow> make_evaluation out e)"
    by (auto simp: evaluator_factory_def context_defs find_decisive decision_def split: option.split)
      (simp add: zero_evaluation_def make_evaluation_def)
  finally show ?thesis using assms by (simp add: envoy_engine_def new_engine_def Let_def)
qed

subsection \<open>Metrics\<close>

text \<open>
  The HTTP attributes of a check request; \<open>None\<close> when a message on the path
  \<open>Attributes.Request.Http\<close> is nil, where reading a field panics. The status label is the code
  of the response, or \<open>None\<close> for the empty label of a response with no status.
\<close>

record envoy_http =
  eh_method :: string
  eh_host :: string
  eh_path :: string
  eh_scheme :: string

record envoy_metrics =
  em_requests :: "envoy_http \<times> int option \<Rightarrow> nat"
  em_errors :: "envoy_http \<Rightarrow> nat"
  em_durations :: "envoy_http \<times> int option \<Rightarrow> nat"

definition inc :: "('a \<Rightarrow> nat) \<Rightarrow> 'a \<Rightarrow> ('a \<Rightarrow> nat)" where
  "inc c l = c(l := Suc (c l))"

definition record_envoy_request ::
  "envoy_http option \<Rightarrow> int option \<Rightarrow> envoy_metrics \<Rightarrow> envoy_metrics outcome" where
  "record_envoy_request http status m =
     (case http of
        None \<Rightarrow> Panic ''nil pointer dereference''
      | Some h \<Rightarrow> Ret (m\<lparr>em_requests := inc (em_requests m) (h, status),
                       em_durations := inc (em_durations m) (h, status)\<rparr>))"

definition record_envoy_request_error ::
  "envoy_http option \<Rightarrow> envoy_metrics \<Rightarrow> envoy_metrics outcome" where
  "record_envoy_request_error http m =
     (case http of
        None \<Rightarrow> Panic ''nil pointer dereference''
      | Some h \<Rightarrow> Ret (m\<lparr>em_errors := inc (em_errors m) h\<rparr>))"

subsection \<open>The service\<close>

text \<open>
  \<open>empty_response\<close> is \<open>&authv3.CheckResponse{}\<close>, \<open>http_of\<close> reads the HTTP attributes of the
  request and \<open>code_of\<close> the status code of a response.
\<close>

definition envoy_check_inner ::
  "'resp \<Rightarrow> ('d \<Rightarrow> 'i \<Rightarrow> 's \<Rightarrow> ('resp option) evaluation \<times> 's) \<Rightarrow> 'd \<Rightarrow> 'i \<Rightarrow> 's \<Rightarrow>
   ('resp \<times> go_error option) \<times> 's" where
  "envoy_check_inner empty_response engine dynclient r s =
     (case engine dynclient r s of (response, s') \<Rightarrow>
        ((case ev_result response of
            None \<Rightarrow> (empty_response, ev_error response)
          | Some res \<Rightarrow> (res, None)), s'))"

definition envoy_check ::
  "('i \<Rightarrow> envoy_http option) \<Rightarrow> ('resp \<Rightarrow> int option) \<Rightarrow> 'resp \<Rightarrow>
   ('d \<Rightarrow> 'i \<Rightarrow> 's \<Rightarrow> ('resp option) evaluation \<times> 's) \<Rightarrow> 'd \<Rightarrow> 'i \<Rightarrow> 's \<times> envoy_metrics \<Rightarrow>
   (('resp \<times> go_error option) \<times> ('s \<times> envoy_metrics)) outcome" where
  "envoy_check http_of code_of empty_response engine dynclient r st =
     (case st of (s, m) \<Rightarrow>
        (case envoy_check_inner empty_response engine dynclient r s of ((response, err), s') \<Rightarrow>
           bind_outcome
             (case err of
                Some e \<Rightarrow> record_envoy_request_error (http_of r) m
              | None \<Rightarrow> record_envoy_request (http_of r) (code_of response) m)
             (\<lambda>m'. Ret ((response, err), (s', m')))))"

subsection \<open>Properties\<close>

text \<open>C12:
  The Envoy engine returns the first evaluation, in source order, that carries a response or an
  error, or an empty evaluation when every policy is silent. Stopping the dispatch at the first
  response does not change the answer, and an error of the source plays no part in it.\<close>

theorem envoy_engine_first_decisive:
  "envoy_engine src data inp s =
     ((case decision (items_of (src s)) data inp of (out, err) \<Rightarrow> make_evaluation out err), snd (src s))"
proof -
  obtain policies err s' where "src s = ((policies, err), s')" by (metis prod.collapse)
  then show ?thesis by (simp add: envoy_engine_decision)
qed

text \<open>C3:
  A check answers as the first decisive policy does, in the order the source gives the policies: its
  response is passed on with no error, or its error with an empty response, so that a policy that
  failed wins over every later response. When all policies are silent, or there is none, the
  answer is the empty response with no error. An error of the source plays no part in it.\<close>

theorem envoy_check_answers:
  assumes "src s = ((policies, lerr), s')"
  shows "envoy_check_inner no_resp (envoy_engine src) data inp s =
    ((case find (\<lambda>p. p data inp \<noteq> (None, None)) policies of
        None \<Rightarrow> (no_resp, None)
      | Some p \<Rightarrow> (case p data inp of (Some resp, _) \<Rightarrow> (resp, None) | (None, err) \<Rightarrow> (no_resp, err))), s')"
proof -
  have "decision policies data inp =
      (case find (\<lambda>p. p data inp \<noteq> (None, None)) policies of None \<Rightarrow> (None, None) | Some p \<Rightarrow> p data inp)"
    by (induction policies) simp_all
  with envoy_engine_decision [of src, OF assms] show ?thesis
    by (simp add: envoy_check_inner_def make_evaluation_def split: option.split prod.split)
qed

theorem envoy_check_answers_witness:
  "envoy_check_inner ''ok?'' (envoy_engine (make_source
      [(\<lambda>_ _. (None, None)), (\<lambda>_ _. (None, Some (Errorf ''boom''))), (\<lambda>_ _. (Some ''denied'', None))])) () () () =
   ((''ok?'', Some (Errorf ''boom'')), ()) \<and>
   envoy_check_inner ''ok?'' (envoy_engine (make_source [(\<lambda>_ _. (None, None))])) () () () = ((''ok?'', None), ())"
proof -
  let ?src = "\<lambda>ps. make_source ps :: (unit, (unit, unit, string option) policy) source"
  have "?src ps () = ((ps, None), ())" for ps by (simp add: make_source_def make_source_func_def)
  from envoy_check_answers [of "?src ps" "()" ps None "()" "''ok?''" "()" "()" for ps, OF this]
  show ?thesis by simp
qed

text \<open>
  When the only source of a composite reports an error, the composite gives the engine no
  policy, so the check returns the empty response with no error, whatever policies the source
  loaded next to the error, a policy that would deny the request included.\<close>

theorem composite_error_answers_empty:
  assumes "src s = ((policies, Some e), s')"
  shows "envoy_check_inner no_resp (envoy_engine (composite_load M [src])) data inp s = ((no_resp, None), s')"
  using composite_single [of src s policies "Some e" s' M] assms
  by (simp add: envoy_check_inner_def envoy_engine_decision make_evaluation_def)

theorem composite_error_answers_empty_witness:
  "envoy_check_inner ''ok?'' (envoy_engine (composite_load multierr_list
      [(\<lambda>s. (([(\<lambda>_ _. (Some ''denied'', None))], Some (Errorf ''bad document'')), s))])) () () () =
   ((''ok?'', None), ())"
  using composite_error_answers_empty [of "\<lambda>s. (([(\<lambda>_ _. (Some ''denied'', None))], Some (Errorf ''bad document'')), s)"
      "()" "[(\<lambda>_ _. (Some ''denied'', None))]" "Errorf ''bad document''" "()" "''ok?''" multierr_list "()" "()"]
  by simp

text \<open>
  A check of a request with HTTP attributes never panics and counts the request once: in the
  error counter when the check has an error, and otherwise in the request counter and the
  duration histogram under the status of the response; other labels are unchanged.\<close>

theorem envoy_check_counts:
  assumes "http_of r = Some h"
    and "envoy_check_inner no_resp engine data r s = ((resp, err), s')"
  shows "envoy_check http_of code_of no_resp engine data r (s, m) =
    Ret ((resp, err), (s',
      case err of
        Some _ \<Rightarrow> m\<lparr>em_errors := (em_errors m)(h := em_errors m h + 1)\<rparr>
      | None \<Rightarrow> m\<lparr>em_requests := (em_requests m)((h, code_of resp) := em_requests m (h, code_of resp) + 1),
                 em_durations := (em_durations m)((h, code_of resp) := em_durations m (h, code_of resp) + 1)\<rparr>))"
  using assms
  by (simp add: envoy_check_def record_envoy_request_def record_envoy_request_error_def inc_def
      split: option.split)

theorem envoy_check_counts_witness:
  "envoy_check (\<lambda>_. Some (envoy_http.make ''GET'' ''h'' ''/'' ''http'')) (\<lambda>_. Some 7) ''deny''
      (\<lambda>_ _ s. (\<lparr>ev_result = None, ev_error = Some (Errorf ''boom'')\<rparr>, s)) () ()
      ((), envoy_metrics.make (\<lambda>_. 0) (\<lambda>_. 0) (\<lambda>_. 0)) =
   Ret ((''deny'', Some (Errorf ''boom'')), ((),
     (envoy_metrics.make (\<lambda>_. 0) ((\<lambda>_. 0)(envoy_http.make ''GET'' ''h'' ''/'' ''http'' := 1)) (\<lambda>_. 0))))"
  using envoy_check_counts [of "\<lambda>_. Some (envoy_http.make ''GET'' ''h'' ''/'' ''http'')" "()"
      "envoy_http.make ''GET'' ''h'' ''/'' ''http''" "''deny''"
      "\<lambda>_ _ s. (\<lparr>ev_result = None, ev_error = Some (Errorf ''boom'')\<rparr>, s)" "()" "()" "''deny''"
      "Some (Errorf ''boom'')" "()" "\<lambda>_. Some 7" "envoy_metrics.make (\<lambda>_. 0) (\<lambda>_. 0) (\<lambda>_. 0)"]
  by (simp add: envoy_check_inner_def envoy_metrics.defs)

text \<open>
  A check request that lacks the HTTP attributes makes the handler panic, after the policies
  were evaluated, whatever they answered.\<close>

theorem envoy_check_without_http_panics:
  assumes "http_of r = None"
  shows "envoy_check http_of code_of no_resp engine data r st = Panic ''nil pointer dereference''"
  using assms
  by (simp add: envoy_check_def record_envoy_request_def record_envoy_request_error_def
      split: prod.split option.split)

theorem envoy_check_without_http_panics_witness:
  "envoy_check (\<lambda>_. None) (\<lambda>_. None) ''ok'' (\<lambda>_ _ s. (\<lparr>ev_result = Some ''ok'', ev_error = None\<rparr>, s)) () ()
     ((), envoy_metrics.make (\<lambda>_. 0) (\<lambda>_. 0) (\<lambda>_. 0)) = Panic ''nil pointer dereference''"
  by (rule envoy_check_without_http_panics) simp

end
