(* ===== verification/Authz_Http.thy ===== *)
theory Authz_Http
  imports Http_Lib Compiler Authz_Envoy
begin

section \<open>The HTTP authorization server\<close>

text \<open>
  Models \<open>pkg/authz/http\<close> and \<open>pkg/metrics/http.go\<close>: compiling the input and output expressions,
  the engine and the handler \<open>ServeHTTP\<close> over the response writer of the standard library.
  Reading a request nested in the body is the parameter \<open>read_request\<close> (\<open>http.ReadRequest\<close>);
  CEL programs are parameters. A declared \<open>Content-Length\<close> header, which makes longer writes
  fail, and the listening socket are not modelled.
\<close>

subsection \<open>The response writer of the standard library\<close>

record response_writer =
  rw_header :: header
  rw_status :: "int option"
  rw_body :: string
  rw_informational :: "int list"

definition fresh_writer :: response_writer where
  "fresh_writer = \<lparr>rw_header = [], rw_status = None, rw_body = [], rw_informational = []\<rparr>"

definition write_header :: "int \<Rightarrow> response_writer \<Rightarrow> response_writer outcome" where
  "write_header code w =
     (if rw_status w \<noteq> None then Ret w
      else if code < 100 \<or> code > 999 then Panic ''invalid WriteHeader code''
      else if 100 \<le> code \<and> code \<le> 199 \<and> code \<noteq> 101
      then Ret (w\<lparr>rw_informational := rw_informational w @ [code]\<rparr>)
      else Ret (w\<lparr>rw_status := Some code\<rparr>))"

definition body_allowed :: "int option \<Rightarrow> bool" where
  "body_allowed status \<longleftrightarrow>
     (case status of None \<Rightarrow> True | Some c \<Rightarrow> \<not> (100 \<le> c \<and> c \<le> 199) \<and> c \<noteq> 204 \<and> c \<noteq> 304)"

definition write_body :: "string \<Rightarrow> response_writer \<Rightarrow> response_writer outcome" where
  "write_body data w =
     bind_outcome (write_header 200 w)
       (\<lambda>w. Ret (if body_allowed (rw_status w) then w\<lparr>rw_body := rw_body w @ data\<rparr> else w))"

definition set_header :: "string \<Rightarrow> string \<Rightarrow> response_writer \<Rightarrow> response_writer" where
  "set_header k v w = w\<lparr>rw_header := AList.update (canonical_key k) [v] (rw_header w)\<rparr>"

subsection \<open>Writing responses\<close>

record http_response =
  hs_status :: int
  hs_header :: header
  hs_body :: "string option"

definition write_err_resp :: "go_error \<Rightarrow> response_writer \<Rightarrow> response_writer outcome" where
  "write_err_resp err w =
     bind_outcome (write_header 500 w) (write_body (error_text err))"

definition write_headers :: "header \<Rightarrow> response_writer \<Rightarrow> response_writer" where
  "write_headers h w = fold (\<lambda>(k, v). fold (set_header k) v) h w"

definition write_response :: "http_response \<Rightarrow> response_writer \<Rightarrow> response_writer outcome" where
  "write_response resp w =
     bind_outcome (write_header (hs_status resp) (write_headers (hs_header resp) w))
       (\<lambda>w. case hs_body resp of None \<Rightarrow> Ret w | Some body \<Rightarrow> write_body body w)"

subsection \<open>Metrics\<close>

record http_label =
  hl_method :: string
  hl_host :: string
  hl_path :: string
  hl_scheme :: string

record http_metrics =
  hm_requests :: "http_label \<times> string \<Rightarrow> nat"
  hm_errors :: "http_label \<Rightarrow> nat"
  hm_durations :: "http_label \<times> string \<Rightarrow> nat"

definition no_requests :: http_metrics where
  "no_requests = \<lparr>hm_requests = (\<lambda>_. 0), hm_errors = (\<lambda>_. 0), hm_durations = (\<lambda>_. 0)\<rparr>"

definition http_label_of :: "check_request \<Rightarrow> http_label" where
  "http_label_of req = (let a = cq_attributes req in
     \<lparr>hl_method = ca_method a, hl_host = ca_host a, hl_path = ca_path a, hl_scheme = ca_scheme a\<rparr>)"

definition http_status_label :: "check_response \<Rightarrow> string" where
  "http_status_label res = (if cr_denied res \<noteq> None then ''denied'' else ''ok'')"

definition record_http_request :: "check_request \<Rightarrow> check_response \<Rightarrow> http_metrics \<Rightarrow> http_metrics" where
  "record_http_request req res m =
     (let l = (http_label_of req, http_status_label res)
      in m\<lparr>hm_requests := inc (hm_requests m) l, hm_durations := inc (hm_durations m) l\<rparr>)"

definition record_http_request_error :: "check_request \<Rightarrow> http_metrics \<Rightarrow> http_metrics" where
  "record_http_request_error req m = m\<lparr>hm_errors := inc (hm_errors m) (http_label_of req)\<rparr>"

subsection \<open>The engine\<close>

definition http_breaker :: "('p, 'i, ('resp option) evaluation) breaker" where
  "http_breaker policy inp out = (ev_result out \<noteq> None)"

definition http_decisive :: "('resp option) evaluation \<Rightarrow> bool" where
  "http_decisive out \<longleftrightarrow> ev_result out \<noteq> None \<or> ev_error out \<noteq> None"

definition http_engine ::
  "('s, ('d, 'i, 'resp option) policy) source \<Rightarrow> 'd \<Rightarrow> 'i \<Rightarrow> 's \<Rightarrow> ('resp option) evaluation \<times> 's" where
  "http_engine src =
     new_engine src
       (handler (sequential evaluator_factory (Some (\<lambda>fc. http_breaker)))
                (\<lambda>fc. new_first http_decisive zero_evaluation))"

text \<open>Both servers build the same engine.\<close>

lemma http_breaker_eq: "http_breaker = envoy_breaker"
  by (intro ext) (simp add: http_breaker_def envoy_breaker_def)

lemma http_decisive_eq: "http_decisive = envoy_decisive"
  by (intro ext) (simp add: http_decisive_def envoy_decisive_def)

lemma http_engine_eq: "http_engine = envoy_engine"
  by (intro ext) (simp add: http_engine_def envoy_engine_def http_breaker_eq http_decisive_eq)

subsection \<open>The handler\<close>

text \<open>
  \<open>au_input\<close> and \<open>au_output\<close> are the compiled programs as functions of the variable \<open>object\<close>;
  \<open>as_request\<close> is the assertion that a value holds a non-nil \<open>*CheckRequest\<close> and \<open>as_response\<close>
  the conversion to \<open>HttpResponse\<close>.
\<close>

record ('s, 'd, 'v) authorizer =
  au_engine :: "'d \<Rightarrow> check_request \<Rightarrow> 's \<Rightarrow> (check_response option) evaluation \<times> 's"
  au_dyn :: 'd
  au_input :: "(check_request \<Rightarrow> 'v option \<times> go_error option) option"
  au_output :: "check_response \<Rightarrow> 'v option \<times> go_error option"
  au_nested :: bool

definition authorizer_input ::
  "('v \<Rightarrow> check_request option) \<Rightarrow> ('s, 'd, 'v) authorizer \<Rightarrow> check_request \<Rightarrow>
   (go_error + check_request) outcome" where
  "authorizer_input as_request a httpReq =
     (case au_input a of
        None \<Rightarrow> Ret (Inr httpReq)
      | Some program \<Rightarrow>
          (case program httpReq of
             (out, Some err) \<Rightarrow> Ret (Inl err)
           | (None, None) \<Rightarrow> Panic ''nil pointer dereference''
           | (Some out, None) \<Rightarrow>
               Ret (Inr (case as_request out of Some req \<Rightarrow> req | None \<Rightarrow> httpReq))))"

definition authorizer_output ::
  "('v \<Rightarrow> go_error + http_response) \<Rightarrow> ('s, 'd, 'v) authorizer \<Rightarrow> check_response \<Rightarrow>
   response_writer \<Rightarrow> response_writer outcome" where
  "authorizer_output as_response a result w =
     (case au_output a result of
        (out, Some err) \<Rightarrow> write_err_resp err w
      | (None, None) \<Rightarrow> Panic ''nil pointer dereference''
      | (Some out, None) \<Rightarrow>
          (case as_response out of
             Inl err \<Rightarrow> write_err_resp err w
           | Inr resp \<Rightarrow> write_response resp w))"

definition serve_http ::
  "(http_request \<Rightarrow> go_error + http_request) \<Rightarrow> ('v \<Rightarrow> check_request option) \<Rightarrow>
   ('v \<Rightarrow> go_error + http_response) \<Rightarrow> ('s, 'd, 'v) authorizer \<Rightarrow> http_request \<Rightarrow>
   's \<times> http_metrics \<times> response_writer \<Rightarrow> ('s \<times> http_metrics \<times> response_writer) outcome" where
  "serve_http read_request as_request as_response a r st =
     (case st of (s, m, w) \<Rightarrow>
        (let fail = (\<lambda>err. bind_outcome (write_err_resp err w) (\<lambda>w. Ret (s, m, w)))
         in case (if au_nested a then read_request r else Inr r) of
              Inl err \<Rightarrow> fail err
            | Inr r \<Rightarrow>
                (case new_request r of
                   (_, Some err) \<Rightarrow> fail err
                 | (httpReq, None) \<Rightarrow>
                     bind_outcome (authorizer_input as_request a httpReq) (\<lambda>res.
                       case res of
                         Inl err \<Rightarrow> fail err
                       | Inr httpReq \<Rightarrow>
                           (case au_engine a (au_dyn a) httpReq s of (response, s') \<Rightarrow>
                              (case ev_error response of
                                 Some err \<Rightarrow>
                                   bind_outcome (write_err_resp err w)
                                     (\<lambda>w. Ret (s', record_http_request_error httpReq m, w))
                               | None \<Rightarrow>
                                   (let result = (case ev_result response of
                                          None \<Rightarrow> \<lparr>cr_ok = Some CheckResponseOk, cr_denied = None\<rparr>
                                        | Some res \<Rightarrow> res)
                                    in bind_outcome (authorizer_output as_response a result w)
                                         (\<lambda>w. Ret (s', record_http_request httpReq result m, w)))))))))"

subsection \<open>Compiling the expressions of the server\<close>

record http_config =
  hc_address :: string
  hc_nested :: bool
  hc_input :: string
  hc_output :: string
  hc_cert :: string
  hc_key :: string

text \<open>The text of the default expression, up to white space.\<close>

definition default_output :: string where
  "default_output =
     ''has(object.ok) ? httpserver.HttpResponse{ status: 200 } : '' @
     ''httpserver.HttpResponse{ status: 403, body: bytes(object.denied.reason) }''"

definition compile_program ::
  "('env, 'ast, 'prog) cel_lib \<Rightarrow> 'env \<Rightarrow> env_option list \<Rightarrow> string \<Rightarrow> go_error + 'prog" where
  "compile_program C base opts expr =
     (case cl_extend C base opts of
        Inl err \<Rightarrow> Inl err
      | Inr env \<Rightarrow>
          (case cl_compile C env new_variables_provider expr of
             Inl err \<Rightarrow> Inl err
           | Inr ast \<Rightarrow> cl_program C env ast))"

definition new_http_programs ::
  "('env, 'ast, 'prog) cel_lib \<Rightarrow> http_config \<Rightarrow> go_error + ('prog option \<times> 'prog)" where
  "new_http_programs C config =
     (case new_env C EvaluationModeHTTP of
        Inl err \<Rightarrow> Inl err
      | Inr base \<Rightarrow>
          (case (if hc_input config \<noteq> []
                 then map_sum id Some (compile_program C base [Variable ''object'' http_RequestType] (hc_input config))
                 else Inr None) of
             Inl err \<Rightarrow> Inl err
           | Inr inputProgram \<Rightarrow>
               (let expr = (if hc_output config = [] then default_output else hc_output config)
                in case compile_program C base
                          [Variable ''object'' http_ResponseType, Lib ''kyverno.httpserver''] expr of
                     Inl err \<Rightarrow> Inl err
                   | Inr outputProgram \<Rightarrow> Inr (inputProgram, outputProgram))))"

subsection \<open>Facts on the writer\<close>

lemmas writer_defs = write_response_def write_headers_def write_header_def write_body_def
  body_allowed_def fresh_writer_def

lemma write_err_resp_fresh:
  "write_err_resp err fresh_writer = Ret (fresh_writer\<lparr>rw_status := Some 500, rw_body := error_text err\<rparr>)"
  by (simp add: write_err_resp_def write_header_def write_body_def body_allowed_def fresh_writer_def)

lemma set_headers_lookup:
  "map_of (rw_header (fold (set_header k) vs w)) q =
     (if q = canonical_key k \<and> vs \<noteq> [] then Some [last vs] else map_of (rw_header w) q)"
  by (induction vs arbitrary: w) (auto simp: set_header_def)

lemma write_headers_other:
  "\<forall>(k', vs) \<in> set h. canonical_key k' \<noteq> q \<Longrightarrow>
   map_of (rw_header (write_headers h w)) q = map_of (rw_header w) q"
  by (induction h arbitrary: w) (auto simp: write_headers_def set_headers_lookup)

lemma write_headers_status: "rw_status (write_headers h w) = rw_status w"
proof -
  have "rw_status (fold (set_header k) vs w) = rw_status w" for k vs w
    by (induction vs arbitrary: w) (simp_all add: set_header_def)
  then show ?thesis by (induction h arbitrary: w) (auto simp: write_headers_def)
qed

lemma write_headers_append: "write_headers (g @ h) w = write_headers h (write_headers g w)"
  by (simp add: write_headers_def)

lemma write_response_header:
  "write_response resp w = Ret w' \<Longrightarrow> rw_header w' = rw_header (write_headers (hs_header resp) w)"
  by (auto simp: write_response_def bind_outcome_eq_Ret write_header_def write_body_def
      split: if_splits option.splits)

subsection \<open>Properties\<close>

text \<open>
  What the default output expression means: a response with the Ok part becomes status 200, one
  with only the denied part status 403 with the reason as its body.
\<close>

definition runs_default_output ::
  "('v \<Rightarrow> go_error + http_response) \<Rightarrow> (check_response \<Rightarrow> 'v option \<times> go_error option) \<Rightarrow> bool" where
  "runs_default_output as_response prog \<longleftrightarrow>
     (\<forall>r. cr_ok r \<noteq> None \<longrightarrow> (\<exists>v. prog r = (Some v, None) \<and>
        as_response v = Inr \<lparr>hs_status = 200, hs_header = [], hs_body = None\<rparr>)) \<and>
     (\<forall>r d. cr_ok r = None \<and> cr_denied r = Some d \<longrightarrow> (\<exists>v. prog r = (Some v, None) \<and>
        as_response v = Inr \<lparr>hs_status = 403, hs_header = [], hs_body = Some (cd_reason d)\<rparr>))"

definition response_given :: "check_response \<Rightarrow> bool" where
  "response_given r \<longleftrightarrow> cr_ok r \<noteq> None \<or> cr_denied r \<noteq> None"

definition allow_response :: check_response where
  "allow_response = \<lparr>cr_ok = Some CheckResponseOk, cr_denied = None\<rparr>"

text \<open>The answer of the default output for a response.\<close>

definition default_answer :: "check_response \<Rightarrow> response_writer" where
  "default_answer r =
     (case cr_ok r of
        Some _ \<Rightarrow> fresh_writer\<lparr>rw_status := Some 200\<rparr>
      | None \<Rightarrow> fresh_writer\<lparr>rw_status := Some 403,
                  rw_body := (case cr_denied r of Some d \<Rightarrow> cd_reason d | None \<Rightarrow> [])\<rparr>)"

lemma authorizer_output_default:
  assumes "runs_default_output as_response (au_output a)" and "response_given r"
  shows "authorizer_output as_response a r fresh_writer = Ret (default_answer r)"
proof (cases "cr_ok r")
  case None
  with assms(2) obtain d where d: "cr_denied r = Some d" by (auto simp: response_given_def)
  with None assms(1) obtain v where "au_output a r = (Some v, None)"
    "as_response v = Inr \<lparr>hs_status = 403, hs_header = [], hs_body = Some (cd_reason d)\<rparr>"
    unfolding runs_default_output_def by blast
  with None d show ?thesis by (simp add: authorizer_output_def default_answer_def writer_defs)
next
  case (Some x)
  with assms(1) obtain v where "au_output a r = (Some v, None)"
    "as_response v = Inr \<lparr>hs_status = 200, hs_header = [], hs_body = None\<rparr>"
    unfolding runs_default_output_def by blast
  with Some show ?thesis by (simp add: authorizer_output_def default_answer_def writer_defs)
qed

lemma serve_http_default:
  assumes "\<not> au_nested a" and "au_input a = None" and "au_engine a = http_engine src"
    and "runs_default_output as_response (au_output a)"
    and "new_request r = (req, None)" and "src s = ((policies, lerr), s')"
    and "decision policies (au_dyn a) req = (out, err)"
    and "case out of Some res \<Rightarrow> response_given res | None \<Rightarrow> True"
  shows "serve_http read_request as_request as_response a r (s, m, fresh_writer) =
    (case err of
       Some e \<Rightarrow> Ret (s', record_http_request_error req m,
                    fresh_writer\<lparr>rw_status := Some 500, rw_body := error_text e\<rparr>)
     | None \<Rightarrow> (let res = (case out of Some res \<Rightarrow> res | None \<Rightarrow> allow_response)
               in Ret (s', record_http_request req res m, default_answer res)))"
proof -
  have "au_engine a (au_dyn a) req s = (make_evaluation out err, s')"
    using assms(3,6,7) by (simp add: http_engine_eq envoy_engine_decision [of src s policies lerr s'])
  moreover have "authorizer_output as_response a (case out of None \<Rightarrow> allow_response | Some res \<Rightarrow> res) fresh_writer =
      Ret (default_answer (case out of None \<Rightarrow> allow_response | Some res \<Rightarrow> res))"
    using assms(8) by (intro authorizer_output_default [OF assms(4)])
      (auto simp: allow_response_def response_given_def split: option.splits)
  ultimately show ?thesis using assms(1,2,5)
    by (auto simp: serve_http_def authorizer_input_def make_evaluation_def write_err_resp_fresh Let_def
        allow_response_def split: option.split)
qed

text \<open>C4:
  With the default output expression and no input expression the server answers as its first
  decisive policy does: 500 with the error's text when that policy failed, 403 with the reason
  when it denied, 200 when it allowed, and 200 as well when every policy is silent or there is
  none. The request is counted once, as an error or under the status of its response.\<close>

theorem http_default_answers:
  assumes "\<not> au_nested a" and "au_input a = None" and "au_engine a = http_engine src"
    and "runs_default_output as_response (au_output a)"
    and "new_request r = (req, None)" and "src s = ((policies, lerr), s')"
    and "decision policies (au_dyn a) req = (out, err)"
    and "case out of Some res \<Rightarrow> response_given res | None \<Rightarrow> True"
  shows "serve_http read_request as_request as_response a r (s, m, fresh_writer) =
    (case err of
       Some e \<Rightarrow> Ret (s', record_http_request_error req m,
                    fresh_writer\<lparr>rw_status := Some 500, rw_body := error_text e\<rparr>)
     | None \<Rightarrow> (let res = (case out of Some res \<Rightarrow> res | None \<Rightarrow> allow_response)
               in Ret (s', record_http_request req res m, default_answer res)))"
  using assms by (rule serve_http_default)

text \<open>An authorizer for concrete inputs, whose output values are the HTTP responses themselves.\<close>

definition example_authorizer ::
  "(check_request \<Rightarrow> check_response option \<times> go_error option) list \<Rightarrow> (unit, unit, http_response) authorizer" where
  "example_authorizer policies = \<lparr>
     au_engine = http_engine (make_source (map (\<lambda>p _. p) policies)), au_dyn = (), au_input = None,
     au_output = (\<lambda>r. (Some (case cr_ok r of
        Some _ \<Rightarrow> \<lparr>hs_status = 200, hs_header = [], hs_body = None\<rparr>
      | None \<Rightarrow> \<lparr>hs_status = 403, hs_header = [], hs_body = map_option cd_reason (cr_denied r)\<rparr>), None)),
     au_nested = False\<rparr>"

definition example_request :: http_request where
  "example_request = \<lparr>hr_method = ''POST'', hr_header = [], hr_host = ''h'', hr_proto = ''HTTP/1.1'',
     hr_body = Inr ''x'', hr_scheme = [], hr_path = ''/'', hr_query = [], hr_fragment = []\<rparr>"

lemma example_output: "runs_default_output Inr (au_output (example_authorizer ps))"
  by (auto simp: runs_default_output_def example_authorizer_def)

theorem http_default_answers_witness:
  "\<exists>m'. serve_http Inr (\<lambda>_. None) Inr
      (example_authorizer [\<lambda>_. (None, None), \<lambda>_. (Some \<lparr>cr_ok = None, cr_denied = Some \<lparr>cd_reason = ''no''\<rparr>\<rparr>, None)])
      example_request ((), no_requests, fresh_writer) =
   Ret ((), m', fresh_writer\<lparr>rw_status := Some 403, rw_body := ''no''\<rparr>)"
  using http_default_answers [OF _ _ _ example_output, of
      "[\<lambda>_. (None, None), \<lambda>_. (Some \<lparr>cr_ok = None, cr_denied = Some \<lparr>cd_reason = ''no''\<rparr>\<rparr>, None)]" _
      example_request _ "()" _ None "()"
      "Some \<lparr>cr_ok = None, cr_denied = Some \<lparr>cd_reason = ''no''\<rparr>\<rparr>" None Inr "\<lambda>_. None" no_requests]
  by (simp add: example_authorizer_def make_source_def make_source_func_def new_request_def example_request_def
      response_given_def default_answer_def Let_def)

text \<open>
  Of the values an output expression gives for a header only the last one is sent: after a
  response is written, the values stored under the header's canonical name are exactly the
  last value, whatever the others were.\<close>

theorem write_response_keeps_last_value:
  assumes "hs_header resp = before @ (k, vs @ [v]) # after"
    and "\<forall>(k', vs') \<in> set after. canonical_key k' \<noteq> canonical_key k"
    and "write_response resp w = Ret w'"
  shows "map_of (rw_header w') (canonical_key k) = Some [v]"
proof -
  have "rw_header w' = rw_header (write_headers after (fold (set_header k) (vs @ [v]) (write_headers before w)))"
    using write_response_header [OF assms(3)] assms(1)
    by (simp add: write_headers_append write_headers_def)
  then show ?thesis
    using write_headers_other [OF assms(2)] by (simp add: set_headers_lookup del: fold_append)
qed

theorem write_response_keeps_last_value_witness:
  "\<exists>w'. write_response \<lparr>hs_status = 200, hs_header = [(''set-cookie'', [''a=1'', ''b=2''])], hs_body = None\<rparr> fresh_writer = Ret w' \<and>
    map_of (rw_header w') (canonical_key ''set-cookie'') = Some [''b=2'']"
proof -
  let ?r = "\<lparr>hs_status = 200, hs_header = [(''set-cookie'', [''a=1'', ''b=2''])], hs_body = None\<rparr>"
  obtain w' where w: "write_response ?r fresh_writer = Ret w'"
    by (simp add: write_response_def write_header_def write_headers_status fresh_writer_def)
  from write_response_keeps_last_value [OF _ _ w, of "[]" "''set-cookie''" "[''a=1'']" "''b=2''" "[]"] w
  show ?thesis by auto
qed

text \<open>
  Writing a response to a fresh writer panics exactly when its status is not a three-digit
  code, which the zero status of a response built without one is; otherwise the status that
  is sent is the response's, or 200 when an informational one is followed by a body.\<close>

theorem write_response_status:
  "case write_response resp fresh_writer of
     Panic _ \<Rightarrow> hs_status resp < 100 \<or> hs_status resp > 999
   | Ret w \<Rightarrow> 100 \<le> hs_status resp \<and> hs_status resp \<le> 999 \<and>
       rw_status w =
         (if hs_status resp \<ge> 200 \<or> hs_status resp = 101 then Some (hs_status resp)
          else if hs_body resp = None then None else Some 200)"
  by (auto simp: write_response_def write_header_def write_headers_status write_body_def fresh_writer_def
      split: option.split)

text \<open>
  An input expression replaces the request the policies see: they get the request it gives
  (the original one if it gives no request), and when it fails the server answers 500 with the
  error's text, without loading or evaluating a policy and without counting the request.\<close>

theorem http_input_decides:
  assumes "\<not> au_nested a" and "au_input a = Some program" and "new_request r = (req, None)"
    and "program req = (Some out, None) \<or> program req = (none, Some err)"
  shows "serve_http read_request as_request as_response a r (s, m, fresh_writer) =
    (case program req of
       (_, Some err) \<Rightarrow> Ret (s, m, fresh_writer\<lparr>rw_status := Some 500, rw_body := error_text err\<rparr>)
     | (Some out, None) \<Rightarrow>
         (let req' = (case as_request out of Some q \<Rightarrow> q | None \<Rightarrow> req);
              res = au_engine a (au_dyn a) req' s
          in case ev_error (fst res) of
               Some e \<Rightarrow> Ret (snd res, record_http_request_error req' m,
                  fresh_writer\<lparr>rw_status := Some 500, rw_body := error_text e\<rparr>)
             | None \<Rightarrow> (let resp = (case ev_result (fst res) of Some x \<Rightarrow> x | None \<Rightarrow> allow_response)
                 in bind_outcome (authorizer_output as_response a resp fresh_writer)
                      (\<lambda>w. Ret (snd res, record_http_request req' resp m, w)))))"
  using assms
  by (auto simp: serve_http_def authorizer_input_def write_err_resp_fresh Let_def allow_response_def
      case_prod_beta split: option.split)

theorem http_input_decides_witness:
  "serve_http Inr (\<lambda>_. None) Inr ((example_authorizer [])\<lparr>au_input := Some (\<lambda>_. (None, Some (Errorf ''boom'')))\<rparr>)
     example_request ((), no_requests, fresh_writer) =
   Ret ((), no_requests, fresh_writer\<lparr>rw_status := Some 500, rw_body := ''boom''\<rparr>)"
  using http_input_decides [of "(example_authorizer [])\<lparr>au_input := Some (\<lambda>_. (None, Some (Errorf ''boom'')))\<rparr>"
      "\<lambda>_. (None, Some (Errorf ''boom''))" example_request "fst (new_request example_request)" undefined None
      "Errorf ''boom''" Inr "\<lambda>_. None" Inr "()" no_requests]
  by (simp add: example_authorizer_def new_request_def example_request_def)

end
