(* ===== verification/Admission.thy ===== *)
theory Admission
  imports Authz_Http
begin

section \<open>Webhooks, sidecars and probes\<close>

text \<open>
  Models \<open>pkg/server/handlers\<close>, \<open>pkg/webhook/mutation\<close>, \<open>pkg/webhook/validation\<close>, \<open>pkg/sidecar\<close> and
  \<open>pkg/version\<close>. JSON encoding and patches, the Kubernetes decoders and YAML are third-party:
  parameters. A handler writes on the response writer of \<open>Authz_Http\<close>.
\<close>

subsection \<open>Probes and errors\<close>

definition healthy :: "bool \<Rightarrow> response_writer \<Rightarrow> response_writer outcome" where
  "healthy ok w = write_header (if ok then 200 else 500) w"

definition ready :: "bool \<Rightarrow> response_writer \<Rightarrow> response_writer outcome" where
  "ready ok w = write_header (if ok then 200 else 500) w"

text \<open>\<open>http.Error\<close> of the standard library.\<close>

definition http_error :: "go_error \<Rightarrow> int \<Rightarrow> response_writer \<Rightarrow> response_writer outcome" where
  "http_error err code w =
     (let w = w\<lparr>rw_header := AList.delete ''Content-Length'' (rw_header w)\<rparr>;
          w = set_header ''Content-Type'' ''text/plain; charset=utf-8'' w;
          w = set_header ''X-Content-Type-Options'' ''nosniff'' w
      in bind_outcome (write_header code w) (write_body (error_text err @ [CHR 0x0A])))"

subsection \<open>Admission responses\<close>

record admission_response =
  ar_uid :: string
  ar_allowed :: bool
  ar_message :: string
  ar_patch :: "string option"

text \<open>
  The status text of the result, \<open>Success\<close> or \<open>Failure\<close>, follows \<open>ar_allowed\<close>, and the patch type,
  \<open>JSONPatch\<close>, goes with a patch. \<open>marshal\<close> encodes a patch. A nil request panics when its UID is read.
\<close>

definition admission_response ::
  "('p list \<Rightarrow> go_error + string) \<Rightarrow> string option \<Rightarrow> go_error option \<Rightarrow> 'p list \<Rightarrow> admission_response outcome" where
  "admission_response marshal uid err patch =
     (case uid of
        None \<Rightarrow> Panic ''nil pointer dereference''
      | Some uid \<Rightarrow>
          (case (case err of
                   Some e \<Rightarrow> Inl e
                 | None \<Rightarrow> (if patch = [] then Inr None else map_sum id Some (marshal patch))) of
             Inl e \<Rightarrow> Ret \<lparr>ar_uid = uid, ar_allowed = False, ar_message = error_text e, ar_patch = None\<rparr>
           | Inr bytes \<Rightarrow> Ret \<lparr>ar_uid = uid, ar_allowed = True, ar_message = [], ar_patch = bytes\<rparr>))"

text \<open>
  The review handler: \<open>decode\<close> gives the request of a review (\<open>None\<close> when it is nil), \<open>encode\<close>
  the bytes of the answered review. The body of the request is never nil on a server.
\<close>

definition admission_review ::
  "(string \<Rightarrow> go_error + 'req option) \<Rightarrow> ('req option \<Rightarrow> admission_response \<Rightarrow> go_error + string) \<Rightarrow>
   ('req option \<Rightarrow> admission_response outcome) \<Rightarrow> http_request \<Rightarrow> response_writer \<Rightarrow> response_writer outcome" where
  "admission_review decode encode inner r w =
     (case hr_body r of
        Inl err \<Rightarrow> http_error err 400 w
      | Inr body \<Rightarrow>
          (if hd (header_values (hr_header r) ''Content-Type'' @ [[]]) \<noteq> ''application/json''
           then http_error (Errorf ''invalid Content-Type'') 415 w
           else case decode body of
             Inl err \<Rightarrow> http_error err 417 w
           | Inr req \<Rightarrow>
               bind_outcome (inner req) (\<lambda>resp.
                 case encode req resp of
                   Inl err \<Rightarrow> http_error err 500 w
                 | Inr json \<Rightarrow>
                     write_body json (set_header ''Content-Type'' ''application/json; charset=utf-8'' w))))"

subsection \<open>The sidecar\<close>

record ('c, 'vol, 's) sidecar =
  sc_init_containers :: "'c list"
  sc_containers :: "'c list"
  sc_volumes :: "'vol list"
  sc_image_pull_secrets :: "'s list"

record ('c, 'vol, 's, 'x) pod =
  pod_init_containers :: "'c list"
  pod_containers :: "'c list"
  pod_volumes :: "'vol list"
  pod_image_pull_secrets :: "'s list"
  pod_rest :: 'x

definition load_sidecar :: "go_error + string \<Rightarrow> (string \<Rightarrow> go_error + 'sc option) \<Rightarrow> go_error + 'sc option" where
  "load_sidecar data unmarshal = (case data of Inl err \<Rightarrow> Inl err | Inr bytes \<Rightarrow> unmarshal bytes)"

definition inject :: "('c, 'vol, 's, 'x) pod \<Rightarrow> ('c, 'vol, 's) sidecar option \<Rightarrow> ('c, 'vol, 's, 'x) pod" where
  "inject pod sc =
     (case sc of
        None \<Rightarrow> pod
      | Some s \<Rightarrow> pod\<lparr>
          pod_image_pull_secrets := pod_image_pull_secrets pod @ sc_image_pull_secrets s,
          pod_init_containers := pod_init_containers pod @ sc_init_containers s,
          pod_containers := pod_containers pod @ sc_containers s,
          pod_volumes := pod_volumes pod @ sc_volumes s\<rparr>)"

record review_request =
  rv_uid :: string
  rv_raw :: string

text \<open>The mutation: the raw object is decoded, injected, encoded and compared with the raw one.\<close>

record ('pod, 'p) json_lib =
  js_decode :: "string \<Rightarrow> go_error + 'pod"
  js_encode :: "'pod \<Rightarrow> go_error + string"
  js_create_patch :: "string \<Rightarrow> string \<Rightarrow> go_error + 'p list"
  js_marshal_patch :: "'p list \<Rightarrow> go_error + string"

definition mutate ::
  "(('c, 'vol, 's, 'x) pod, 'p) json_lib \<Rightarrow> ('c, 'vol, 's) sidecar option \<Rightarrow> review_request option \<Rightarrow>
   admission_response outcome" where
  "mutate J scar r =
     (case r of
        None \<Rightarrow> Panic ''nil pointer dereference''
      | Some r \<Rightarrow>
          (let respond = admission_response (js_marshal_patch J) (Some (rv_uid r))
           in case js_decode J (rv_raw r) of
                Inl err \<Rightarrow> respond (Some err) []
              | Inr pod \<Rightarrow>
                  (case js_encode J (inject pod scar) of
                     Inl err \<Rightarrow> respond (Some err) []
                   | Inr data \<Rightarrow>
                       (case js_create_patch J (rv_raw r) data of
                          Inl err \<Rightarrow> respond (Some err) []
                        | Inr patch \<Rightarrow> respond None patch))))"

subsection \<open>The validating webhook\<close>

datatype runtime_object = Policy_object vpol | Other_object string

definition validate_vpol ::
  "(vpol \<Rightarrow> field_error list) \<Rightarrow> (string \<Rightarrow> field_error list \<Rightarrow> go_error) \<Rightarrow> vpol \<Rightarrow> go_error option" where
  "validate_vpol compile_vpol new_invalid policy =
     (let allErrs = compile_vpol policy
      in if allErrs \<noteq> [] then Some (new_invalid (vp_name policy) allErrs) else None)"

definition validate_create where
  "validate_create compile_vpol new_invalid obj =
     (case obj of
        Policy_object p \<Rightarrow> validate_vpol compile_vpol new_invalid p
      | Other_object ty \<Rightarrow> Some (Errorf (''expected a ValidatingPolicy object but got '' @ ty)))"

definition validate_update where
  "validate_update compile_vpol new_invalid (old_obj :: runtime_object) new_obj =
     (case new_obj of
        Policy_object p \<Rightarrow> validate_vpol compile_vpol new_invalid p
      | Other_object ty \<Rightarrow> Some (Errorf (''expected a ValidatingPolicy object but got '' @ ty)))"

definition validate_delete :: "runtime_object \<Rightarrow> go_error option" where
  "validate_delete obj = None"

subsection \<open>Versions\<close>

definition not_found :: string where "not_found = ''---''"

text \<open>Build information: the version of the main module and the settings. The state is \<open>BuildVersion\<close>.\<close>

definition version :: "(string \<times> (string \<times> string) list) option \<Rightarrow> string \<Rightarrow> string \<times> string" where
  "version reader build_version =
     (if build_version = [] then
        (case reader of
           None \<Rightarrow> (not_found, build_version)
         | Some (v, _) \<Rightarrow> if v = [] then (not_found, build_version) else (v, v))
      else (build_version, build_version))"

fun try_find_setting :: "string \<Rightarrow> (string \<times> string) list \<Rightarrow> string" where
  "try_find_setting key [] = not_found"
| "try_find_setting key ((k, v) # settings) = (if k = key then v else try_find_setting key settings)"

definition build_time :: "(string \<times> (string \<times> string) list) option \<Rightarrow> string" where
  "build_time reader = (case reader of None \<Rightarrow> not_found | Some (_, s) \<Rightarrow> try_find_setting ''vcs.time'' s)"

definition build_hash :: "(string \<times> (string \<times> string) list) option \<Rightarrow> string" where
  "build_hash reader = (case reader of None \<Rightarrow> not_found | Some (_, s) \<Rightarrow> try_find_setting ''vcs.revision'' s)"

lemma try_find_setting_lookup:
  "try_find_setting key s = (case map_of s key of Some v \<Rightarrow> v | None \<Rightarrow> not_found)"
  by (induction key s rule: try_find_setting.induct) auto

lemma version_stable: "version r b = (v, b') \<Longrightarrow> v \<noteq> not_found \<Longrightarrow> version r' b' = (v, b')"
  by (auto simp: version_def split: if_splits option.splits)

subsection \<open>Properties\<close>

text \<open>
  Documented by the libraries: applying a created patch to the original document gives the new
  one, an empty patch means the documents are equal, a patch can be encoded, and an encoded pod
  is decoded to itself.
\<close>

definition json_ok :: "('pod, 'p) json_lib \<Rightarrow> (string \<Rightarrow> 'p list \<Rightarrow> string) \<Rightarrow> bool" where
  "json_ok J apply_patch \<longleftrightarrow>
     (\<forall>a b p. js_create_patch J a b = Inr p \<longrightarrow> apply_patch a p = b) \<and>
     (\<forall>p. p \<noteq> [] \<longrightarrow> (\<exists>bytes. js_marshal_patch J p = Inr bytes)) \<and>
     (\<forall>pod data. js_encode J pod = Inr data \<longrightarrow> js_decode J data = Inr pod)"

text \<open>
  The sidecar webhook answers every request it can decode with the injected pod: the request is
  allowed, and the document its patch turns the submitted one into decodes to the submitted pod
  with the sidecar's containers, init containers, volumes and pull secrets after its own, and
  nothing else changed; a pod it cannot decode is refused with the decoder's message.\<close>

theorem mutate_injects:
  assumes "json_ok J apply_patch" and "js_decode J (rv_raw r) = Inr pod"
    and "js_encode J (inject pod (Some s)) = Inr data" and "js_create_patch J (rv_raw r) data = Inr p"
    and "js_decode J (rv_raw r') = Inl err"
  shows "(\<exists>bytes. mutate J (Some s) (Some r) =
      Ret \<lparr>ar_uid = rv_uid r, ar_allowed = True, ar_message = [], ar_patch = bytes\<rparr> \<and>
      (bytes = None \<longleftrightarrow> p = [])) \<and>
    js_decode J (apply_patch (rv_raw r) p) = Inr (pod\<lparr>
      pod_init_containers := pod_init_containers pod @ sc_init_containers s,
      pod_containers := pod_containers pod @ sc_containers s,
      pod_volumes := pod_volumes pod @ sc_volumes s,
      pod_image_pull_secrets := pod_image_pull_secrets pod @ sc_image_pull_secrets s\<rparr>) \<and>
    mutate J (Some s) (Some r') =
      Ret \<lparr>ar_uid = rv_uid r', ar_allowed = False, ar_message = error_text err, ar_patch = None\<rparr>"
proof -
  have "apply_patch (rv_raw r) p = data" "js_decode J data = Inr (inject pod (Some s))"
    using assms(1,3,4) unfolding json_ok_def by blast+
  moreover have "p = [] \<or> (\<exists>bytes. js_marshal_patch J p = Inr bytes)"
    using assms(1) unfolding json_ok_def by blast
  ultimately show ?thesis
    using assms(2-5) by (auto simp: mutate_def admission_response_def Let_def inject_def)
qed

lemma compile_errors_nonempty: "compile_policy C T api p = Inl errs \<Longrightarrow> errs \<noteq> []"
  by (auto simp: compile_policy_def compiled_environment_def policy_env_def
      dest!: compile_match_conditions_error compile_variables_error compile_validations_error
      split: sum.splits option.splits)

text \<open>
  The validating webhook accepts what compiles: over the policy compiler it admits a policy, on
  creation and on update alike, exactly when the compiler compiles it, and it refuses every
  object that is not a policy; deletions are always admitted.\<close>

theorem webhook_accepts_compilable:
  "(validate_create (\<lambda>p. case compile_policy C T api p of Inl errs \<Rightarrow> errs | Inr _ \<Rightarrow> []) new_invalid
      (Policy_object p) = None \<longleftrightarrow> (\<exists>q. compile_policy C T api p = Inr q)) \<and>
   validate_update compile_vpol new_invalid old_obj obj = validate_create compile_vpol new_invalid obj \<and>
   validate_create compile_vpol new_invalid (Other_object ty) \<noteq> None \<and>
   validate_delete obj = None"
  using compile_errors_nonempty [of C T api p]
  by (auto simp: validate_create_def validate_update_def validate_delete_def validate_vpol_def Let_def
      split: sum.split runtime_object.split)

text \<open>A concrete JSON library: documents are the names of the containers, one character each.\<close>

definition char_json :: "((char, unit, unit, unit) pod, string) json_lib" where
  "char_json = \<lparr>
     js_decode = (\<lambda>d. if d = ''!'' then Inl (Errorf ''bad'') else
        Inr \<lparr>pod_init_containers = [], pod_containers = d, pod_volumes = [], pod_image_pull_secrets = [], pod_rest = ()\<rparr>),
     js_encode = (\<lambda>p. if pod_init_containers p = [] \<and> pod_volumes p = [] \<and> pod_image_pull_secrets p = [] \<and>
        pod_containers p \<noteq> ''!'' then Inr (pod_containers p) else Inl (Errorf ''bad'')),
     js_create_patch = (\<lambda>a b. Inr (if a = b then [] else [b])),
     js_marshal_patch = (\<lambda>p. Inr (concat p))\<rparr>"

theorem mutate_injects_witness:
  "\<exists>bytes. mutate char_json (Some \<lparr>sc_init_containers = [], sc_containers = ''s'', sc_volumes = [], sc_image_pull_secrets = []\<rparr>)
      (Some \<lparr>rv_uid = ''u'', rv_raw = ''ab''\<rparr>) =
    Ret \<lparr>ar_uid = ''u'', ar_allowed = True, ar_message = [], ar_patch = bytes\<rparr>"
proof -
  have ok: "json_ok char_json (\<lambda>a p. case p of [] \<Rightarrow> a | b # _ \<Rightarrow> b)"
    by (auto simp: json_ok_def char_json_def split: if_splits)
  show ?thesis
    using mutate_injects [OF ok, of "\<lparr>rv_uid = ''u'', rv_raw = ''ab''\<rparr>"
        "\<lparr>pod_init_containers = [], pod_containers = ''ab'', pod_volumes = [], pod_image_pull_secrets = [], pod_rest = ()\<rparr>"
        "\<lparr>sc_init_containers = [], sc_containers = ''s'', sc_volumes = [], sc_image_pull_secrets = []\<rparr>" "''abs''" "[''abs'']"
        "\<lparr>rv_uid = ''w'', rv_raw = ''!''\<rparr>" "Errorf ''bad''"]
    by (auto simp: char_json_def inject_def)
qed

end
