(* ===== verification/Oci_Fs.thy ===== *)
theory Oci_Fs
  imports Fs_Source Keyed_Sources
begin

section \<open>File systems in OCI images\<close>

text \<open>
  Models \<open>pkg/utils/ocifs\<close>: the registry options with the keychain that reads the pull secrets of
  the cluster anew for every image, and the read-only file system over the flattened layers of an
  image. The container registry library, the reader of tar archives and the other keychains are
  third-party: the record \<open>oci_lib\<close> and the constructors of \<open>keychain\<close>. Of the standard
  library, \<open>fs.ValidPath\<close> and the UTF-8 test it starts with are modelled over bytes.
\<close>

subsection \<open>Registry options\<close>

datatype keychain =
    Acr_keychain | Google_keychain | Default_keychain | Github_keychain | Ecr_keychain
  | Secrets_keychain "string list"

datatype remote_option = Auth_from_keychain "keychain list"

datatype name_option = Insecure

definition new_auto_refresh_secrets_keychain :: "string list \<Rightarrow> go_error + keychain" where
  "new_auto_refresh_secrets_keychain secrets = Inr (Secrets_keychain secrets)"

definition registry_opts :: "bool \<Rightarrow> string list \<Rightarrow> go_error + remote_option list \<times> name_option list" where
  "registry_opts insecure secrets =
     (let keychains = [Acr_keychain, Google_keychain, Default_keychain, Github_keychain, Ecr_keychain];
          nOpts = (if insecure then [Insecure] else [])
      in if secrets \<noteq> []
         then (case new_auto_refresh_secrets_keychain secrets of
                 Inl err \<Rightarrow> Inl err
               | Inr secretsKc \<Rightarrow> Inr ([Auth_from_keychain (keychains @ [secretsKc])], nOpts))
         else Inr ([Auth_from_keychain keychains], nOpts))"

text \<open>\<open>get\<close> is the lister at the time of the call; \<open>from_secrets\<close> makes a keychain of secrets.\<close>

fun pull_secrets :: "(string \<Rightarrow> 'sec get_result) \<Rightarrow> string list \<Rightarrow> 'sec list \<Rightarrow> go_error + 'sec list" where
  "pull_secrets get [] secrets = Inr secrets"
| "pull_secrets get (n # ns) secrets =
     (case get n of
        Found secret \<Rightarrow> pull_secrets get ns (secrets @ [secret])
      | Not_found \<Rightarrow> pull_secrets get ns secrets
      | Get_error err \<Rightarrow> Inl err)"

definition generate_keychain ::
  "('sec list \<Rightarrow> go_error + 'kc) \<Rightarrow> (string \<Rightarrow> 'sec get_result) \<Rightarrow> string list \<Rightarrow> go_error + 'kc" where
  "generate_keychain from_secrets get names =
     (case pull_secrets get names [] of Inl err \<Rightarrow> Inl err | Inr secrets \<Rightarrow> from_secrets secrets)"

definition resolve_secrets ::
  "('sec list \<Rightarrow> go_error + 'kc) \<Rightarrow> ('kc \<Rightarrow> 'res \<Rightarrow> go_error + 'auth) \<Rightarrow> (string \<Rightarrow> 'sec get_result) \<Rightarrow>
   string list \<Rightarrow> 'res \<Rightarrow> go_error + 'auth" where
  "resolve_secrets from_secrets resolve get names resource =
     (case generate_keychain from_secrets get names of Inl err \<Rightarrow> Inl err | Inr inner \<Rightarrow> resolve inner resource)"

subsection \<open>Valid paths\<close>

definition byte :: "char \<Rightarrow> nat" where
  "byte c = of_char c"

definition continuation :: "char \<Rightarrow> bool" where
  "continuation c \<longleftrightarrow> 128 \<le> byte c \<and> byte c \<le> 191"

text \<open>\<open>utf8.ValidString\<close>: the well-formed sequences, without surrogates and overlong forms.\<close>

definition lead2 :: "char \<Rightarrow> bool" where
  "lead2 a \<longleftrightarrow> 194 \<le> byte a \<and> byte a \<le> 223"

definition second3 :: "char \<Rightarrow> char \<Rightarrow> bool" where
  "second3 a b \<longleftrightarrow> 224 \<le> byte a \<and> byte a \<le> 239 \<and> continuation b \<and>
     (byte a = 224 \<longrightarrow> 160 \<le> byte b) \<and> (byte a = 237 \<longrightarrow> byte b \<le> 159)"

definition second4 :: "char \<Rightarrow> char \<Rightarrow> bool" where
  "second4 a b \<longleftrightarrow> 240 \<le> byte a \<and> byte a \<le> 244 \<and> continuation b \<and>
     (byte a = 240 \<longrightarrow> 144 \<le> byte b) \<and> (byte a = 244 \<longrightarrow> byte b \<le> 143)"

fun valid_utf8 :: "string \<Rightarrow> bool" where
  "valid_utf8 [] = True"
| "valid_utf8 (a # s) =
     (if byte a < 128 then valid_utf8 s
      else case s of
        [] \<Rightarrow> False
      | b # s1 \<Rightarrow>
          (if lead2 a then continuation b \<and> valid_utf8 s1
           else case s1 of
             [] \<Rightarrow> False
           | c # s2 \<Rightarrow>
               (if second3 a b then continuation c \<and> valid_utf8 s2
                else case s2 of
                  [] \<Rightarrow> False
                | d # s3 \<Rightarrow> second4 a b \<and> continuation c \<and> continuation d \<and> valid_utf8 s3)))"

fun path_elements :: "string \<Rightarrow> string list" where
  "path_elements [] = [[]]"
| "path_elements (c # s) =
     (if c = CHR ''/'' then [] # path_elements s
      else (case path_elements s of e # es \<Rightarrow> (c # e) # es | [] \<Rightarrow> [[c]]))"

definition valid_element :: "string \<Rightarrow> bool" where
  "valid_element e \<longleftrightarrow> e \<noteq> [] \<and> e \<noteq> ''.'' \<and> e \<noteq> ''..''"

definition valid_path :: "string \<Rightarrow> bool" where
  "valid_path name \<longleftrightarrow> valid_utf8 name \<and> (name = ''.'' \<or> list_all valid_element (path_elements name))"

subsection \<open>The file system\<close>

record ('ref, 'img, 'tar, 'file) oci_lib =
  ol_parse_reference :: "string \<Rightarrow> name_option list \<Rightarrow> go_error + 'ref"
  ol_image :: "'ref \<Rightarrow> remote_option list \<Rightarrow> go_error + 'img"
  ol_tarfs :: "'img \<Rightarrow> go_error + 'tar"
  ol_open :: "'tar \<Rightarrow> string \<Rightarrow> go_error + 'file"

record oci_url =
  ou_host :: string
  ou_path :: string

text \<open>A context is a value of \<open>'ctx\<close>; the file system under construction has no archive yet.\<close>

record ('ctx, 'img, 'tar) oci_fs =
  of_ctx :: 'ctx
  of_repo :: oci_url
  of_img :: "'img option"
  of_name_opts :: "name_option list"
  of_remote_opts :: "remote_option list"
  of_tar_fs :: "'tar option"

definition fetch_manifest ::
  "('ref, 'img, 'tar, 'file) oci_lib \<Rightarrow> ('ctx, 'img, 'tar) oci_fs \<Rightarrow>
   (go_error + 'img) \<times> ('ctx, 'img, 'tar) oci_fs" where
  "fetch_manifest L f =
     (case ol_parse_reference L (ou_host (of_repo f) @ ou_path (of_repo f)) (of_name_opts f) of
        Inl err \<Rightarrow> (Inl err, f)
      | Inr repo_ref \<Rightarrow>
          (case ol_image L repo_ref (of_remote_opts f) of
             Inl err \<Rightarrow> (Inl err, f)
           | Inr img \<Rightarrow> (Inr img, f\<lparr>of_img := Some img\<rparr>)))"

definition new_oci_fs ::
  "('ref, 'img, 'tar, 'file) oci_lib \<Rightarrow> 'ctx \<Rightarrow> oci_url \<Rightarrow> name_option list \<Rightarrow> remote_option list \<Rightarrow>
   go_error + ('ctx, 'img, 'tar) oci_fs" where
  "new_oci_fs L background u nOpts rOpts =
     (let fsys = \<lparr>of_ctx = background, of_repo = u, of_img = None, of_name_opts = nOpts,
                  of_remote_opts = rOpts, of_tar_fs = None\<rparr>
      in case fetch_manifest L fsys of
           (Inl err, _) \<Rightarrow> Inl err
         | (Inr img, fsys) \<Rightarrow>
             (let fsys = fsys\<lparr>of_img := Some img\<rparr>
              in case ol_tarfs L img of
                   Inl err \<Rightarrow> Inl err
                 | Inr tar \<Rightarrow> Inr (fsys\<lparr>of_tar_fs := Some tar\<rparr>)))"

text \<open>The copies share the archive.\<close>

definition with_context :: "'ctx option \<Rightarrow> ('ctx, 'img, 'tar) oci_fs \<Rightarrow> ('ctx, 'img, 'tar) oci_fs" where
  "with_context ctx f = (case ctx of None \<Rightarrow> f | Some ctx \<Rightarrow> f\<lparr>of_ctx := ctx\<rparr>)"

definition with_registry_opts ::
  "name_option list \<Rightarrow> remote_option list \<Rightarrow> ('ctx, 'img, 'tar) oci_fs \<Rightarrow> ('ctx, 'img, 'tar) oci_fs" where
  "with_registry_opts nOpts rOpts f = f\<lparr>of_name_opts := nOpts, of_remote_opts := rOpts\<rparr>"

definition configure_oci_fs ::
  "('ref, 'img, 'tar, 'file) oci_lib \<Rightarrow> 'ctx \<Rightarrow> name_option list \<Rightarrow> remote_option list \<Rightarrow> oci_url \<Rightarrow>
   go_error + ('ctx, 'img, 'tar) oci_fs" where
  "configure_oci_fs L background nOpts rOpts u =
     (case new_oci_fs L background u nOpts rOpts of
        Inl err \<Rightarrow> Inl err
      | Inr fsys \<Rightarrow> Inr (with_registry_opts nOpts rOpts fsys))"

definition err_invalid :: go_error where
  "err_invalid = Errorf ''invalid argument''"

definition path_error :: "string \<Rightarrow> go_error \<Rightarrow> go_error" where
  "path_error name err = Wrapf (''open '' @ name) err"

definition oci_open ::
  "('ref, 'img, 'tar, 'file) oci_lib \<Rightarrow> ('ctx, 'img, 'tar) oci_fs \<Rightarrow> string \<Rightarrow> (go_error + 'file) outcome" where
  "oci_open L f name =
     (if \<not> valid_path name then Ret (Inl (path_error name err_invalid))
      else case of_tar_fs f of
        None \<Rightarrow> Panic ''nil pointer dereference''
      | Some tar \<Rightarrow>
          (case ol_open L tar name of
             Inl err \<Rightarrow> Ret (Inl (path_error name err))
           | Inr oci_file \<Rightarrow> Ret (Inr oci_file)))"

subsection \<open>Paths of a tree\<close>

declare valid_utf8.simps(2) [simp del]

lemma valid_utf8_append: "valid_utf8 xs \<Longrightarrow> valid_utf8 ys \<Longrightarrow> valid_utf8 (xs @ ys)"
proof (induction xs rule: valid_utf8.induct)
  case (2 a s)
  show ?case
  proof (cases "byte a < 128")
    case False
    with 2 show ?thesis
      by (cases s; cases "tl s"; cases "tl (tl s)") (simp_all add: valid_utf8.simps(2) [of a] split: if_splits)
  qed (use 2 in \<open>simp add: valid_utf8.simps(2)\<close>)
qed simp

lemma path_elements_nonempty [simp]: "path_elements s \<noteq> []"
  by (induction s) (auto split: list.split)

lemma path_elements_join [simp]: "path_elements (a @ CHR ''/'' # b) = path_elements a @ path_elements b"
proof (induction a)
  case (Cons c a)
  then show ?case by (cases "path_elements a") auto
qed simp

lemma path_elements_name: "CHR ''/'' \<notin> set n \<Longrightarrow> path_elements n = [n]"
  by (induction n) auto

definition proper_name :: "string \<Rightarrow> bool" where
  "proper_name n \<longleftrightarrow> valid_utf8 n \<and> CHR ''/'' \<notin> set n \<and> valid_element n"

fun proper :: "fs_node \<Rightarrow> bool" where
  "proper (File_node n) = True"
| "proper (Dir_node n rd es) = (list_all (\<lambda>x. proper_name (node_name x)) es \<and> list_all proper es)"

lemma slash_utf8: "valid_utf8 ''/''"
  by code_simp

lemma valid_path_join: "valid_path path \<Longrightarrow> proper_name n \<Longrightarrow> valid_path (path_join path n)"
  using valid_utf8_append [of path "''/'' @ n"] valid_utf8_append [OF slash_utf8, of n]
  by (auto simp: path_join_def valid_path_def proper_name_def path_elements_name)

lemma proper_name_valid: "proper_name n \<Longrightarrow> valid_path n"
  by (simp add: valid_path_def proper_name_def path_elements_name)

lemma visits_valid:
  "proper node \<Longrightarrow> valid_path path \<Longrightarrow> proper_name (node_name node) \<or> path = ''.'' \<Longrightarrow>
   (p, e) \<in> set (fst (visits path node)) \<Longrightarrow>
   valid_path p \<and> (p = ''.'' \<or> proper_name (de_name e))"
  "list_all proper nodes \<Longrightarrow> list_all (\<lambda>x. proper_name (node_name x)) nodes \<Longrightarrow> valid_path path \<Longrightarrow>
   (p, e) \<in> set (fst (visits_list path nodes)) \<Longrightarrow> valid_path p \<and> (p = ''.'' \<or> proper_name (de_name e))"
proof (induction path node and path nodes rule: visits_visits_list.induct)
  case (2 path n rd es)
  then show ?case by (auto split: option.splits prod.splits)
next
  case (4 path x xs)
  then show ?case
    using valid_path_join [of path "node_name x"] by (auto split: option.splits prod.splits)
qed auto

text \<open>The options a command gets: \<open>registry_opts\<close> never fails.\<close>

definition remote_opts :: "string list \<Rightarrow> remote_option list" where
  "remote_opts secrets = [Auth_from_keychain ([Acr_keychain, Google_keychain, Default_keychain, Github_keychain,
     Ecr_keychain] @ (if secrets = [] then [] else [Secrets_keychain secrets]))]"

definition name_opts :: "bool \<Rightarrow> name_option list" where
  "name_opts insecure = (if insecure then [Insecure] else [])"

lemma registry_opts_eq: "registry_opts insecure secrets = Inr (remote_opts secrets, name_opts insecure)"
  by (simp add: registry_opts_def new_auto_refresh_secrets_keychain_def remote_opts_def name_opts_def)

subsection \<open>Properties\<close>

lemma pull_secrets_found:
  "pull_secrets get ns acc = Inr ss \<longleftrightarrow>
   (\<forall>n \<in> set ns. \<forall>err. get n \<noteq> Get_error err) \<and>
   ss = acc @ List.map_filter (\<lambda>n. case get n of Found s \<Rightarrow> Some s | _ \<Rightarrow> None) ns"
  by (induction ns arbitrary: acc) (auto simp: map_filter_simps split: get_result.split)

text \<open>
  Pull secrets are read when an image is resolved: the keychain is made, at each resolution, of
  the secrets the cluster holds then, in the order they were named; missing secrets are left
  out, and it fails if reading one of them fails. The registry options always exist and carry
  that keychain, after the five others, exactly when secrets are named.\<close>

theorem secrets_follow_cluster:
  "(generate_keychain from_secrets get names = from_secrets
      (List.map_filter (\<lambda>n. case get n of Found s \<Rightarrow> Some s | _ \<Rightarrow> None) names) \<or>
    (\<exists>n \<in> set names. \<exists>err. get n = Get_error err \<and>
       resolve_secrets from_secrets resolve get names resource = Inl err)) \<and>
   registry_opts insecure secrets = Inr
     ([Auth_from_keychain ([Acr_keychain, Google_keychain, Default_keychain, Github_keychain, Ecr_keychain] @
        (if secrets = [] then [] else [Secrets_keychain secrets]))],
      if insecure then [Insecure] else [])"
proof
  have err: "\<exists>n \<in> set ns. get n = Get_error err" if "pull_secrets get ns acc = Inl err" for ns acc err
    using that by (induction ns arbitrary: acc) (auto split: get_result.splits)
  show "generate_keychain from_secrets get names = from_secrets
      (List.map_filter (\<lambda>n. case get n of Found s \<Rightarrow> Some s | _ \<Rightarrow> None) names) \<or>
    (\<exists>n \<in> set names. \<exists>err. get n = Get_error err \<and>
       resolve_secrets from_secrets resolve get names resource = Inl err)"
  proof (cases "pull_secrets get names []")
    case (Inl e)
    then show ?thesis using err [OF Inl] by (auto simp: generate_keychain_def resolve_secrets_def)
  next
    case (Inr ss)
    then show ?thesis using pull_secrets_found [of get names "[]" ss] by (simp add: generate_keychain_def)
  qed
qed (simp add: registry_opts_eq remote_opts_def name_opts_def)

text \<open>Over a tree with proper names every path and every file name that a walk meets is valid.\<close>

lemma walked_paths_valid:
  assumes "proper root" and "(p, e) \<in> set (fst (visits ''.'' root))"
  shows "valid_path p \<and> (p = ''.'' \<or> valid_path (de_name e))"
proof -
  have "valid_path ''.''" by code_simp
  with assms show ?thesis using visits_valid(1) [of root "''.''" p e] proper_name_valid by blast
qed

text \<open>C33:
  An OCI file system serves the image as it was when it was opened. Opening it parses the host and
  path of the URL with the name options, fetches the image with the remote options and reads its
  layers; it fails with the error of the first of these steps that fails, and otherwise succeeds.
  Then, with any context and any options set later, a valid path opens what the archive of that
  image has at it, its error wrapped, an invalid one is refused, and nothing panics.\<close>

theorem oci_fs_serves_image:
  "case ol_parse_reference L (ou_host u @ ou_path u) nOpts of
     Inl err \<Rightarrow> configure_oci_fs L background nOpts rOpts u = Inl err
   | Inr ref \<Rightarrow>
     (case ol_image L ref rOpts of
        Inl err \<Rightarrow> configure_oci_fs L background nOpts rOpts u = Inl err
      | Inr img \<Rightarrow>
        (case ol_tarfs L img of
           Inl err \<Rightarrow> configure_oci_fs L background nOpts rOpts u = Inl err
         | Inr tar \<Rightarrow>
             \<exists>f. configure_oci_fs L background nOpts rOpts u = Inr f \<and>
               (\<forall>ctx nOpts' rOpts' name. oci_open L (with_context ctx (with_registry_opts nOpts' rOpts' f)) name =
                  Ret (if valid_path name
                       then (case ol_open L tar name of Inl err \<Rightarrow> Inl (path_error name err) | Inr opened \<Rightarrow> Inr opened)
                       else Inl (path_error name err_invalid)))))"
  by (auto simp: configure_oci_fs_def new_oci_fs_def fetch_manifest_def Let_def oci_open_def with_context_def
      with_registry_opts_def split: sum.split option.split)

definition sample_oci :: "(string, string, string, string) oci_lib" where
  "sample_oci = \<lparr>ol_parse_reference = (\<lambda>ref _. Inr ref), ol_image = (\<lambda>ref _. Inr ref), ol_tarfs = Inr,
     ol_open = (\<lambda>tar name. if name = ''p.yaml'' then Inr tar else Inl (Errorf ''file does not exist''))\<rparr>"

theorem oci_fs_serves_image_witness:
  "\<exists>f. configure_oci_fs sample_oci () [] [] \<lparr>ou_host = ''ghcr.io'', ou_path = ''/p:1''\<rparr> = Inr f \<and>
     oci_open sample_oci (with_registry_opts [Insecure] [] f) ''p.yaml'' = Ret (Inr ''ghcr.io/p:1'') \<and>
     oci_open sample_oci (with_registry_opts [Insecure] [] f) ''../p.yaml'' = Ret (Inl (path_error ''../p.yaml'' err_invalid))"
proof -
  have ctx: "with_context None f = f" for f :: "(unit, string, string) oci_fs" by (simp add: with_context_def)
  obtain f where f: "configure_oci_fs sample_oci () [] [] \<lparr>ou_host = ''ghcr.io'', ou_path = ''/p:1''\<rparr> = Inr f"
    "\<And>name. oci_open sample_oci (with_context None (with_registry_opts [Insecure] [] f)) name =
       Ret (if valid_path name
            then (case ol_open sample_oci ''ghcr.io/p:1'' name of
                    Inl err \<Rightarrow> Inl (path_error name err) | Inr opened \<Rightarrow> Inr opened)
            else Inl (path_error name err_invalid))"
    using oci_fs_serves_image [where L = sample_oci and u = "\<lparr>ou_host = ''ghcr.io'', ou_path = ''/p:1''\<rparr>"
        and nOpts = "[]" and rOpts = "[]" and background = "()"]
    by (force simp: sample_oci_def)
  have "valid_path ''p.yaml''" "\<not> valid_path ''../p.yaml''" by code_simp+
  with f show ?thesis by (intro exI [of _ f]) (simp add: ctx sample_oci_def)
qed

end
