(* ===== verification/Serve_Commands.thy ===== *)
theory Serve_Commands
  imports Oci_Fs
begin

section \<open>The commands that start the servers\<close>

text \<open>
  Models \<open>pkg/commands/serve/http/authz-server\<close>, \<open>pkg/commands/serve/envoy/authz-server\<close>,
  \<open>pkg/commands/serve/control-plane\<close> and \<open>pkg/commands/run/command.go\<close>: which sources the
  engine gets, which tasks run, in which order deferred calls run and when the command returns.
  What the Kubernetes and file-system libraries answer is the record \<open>serve_env\<close>; parsing
  the flags is third-party.
\<close>

subsection \<open>Deferred calls and tasks\<close>

datatype deferred = Cancel | Wait_group

datatype task = Probes_task | Server_task | Manager_task | Listener_task | Flush_task

text \<open>
  Deferred calls run last in, first out; the list holds the latest first. \<open>alone\<close> tells whether
  the tasks end although the context is not cancelled: then waiting for them returns. The
  result tells whether the function returns.
\<close>

fun run_deferred :: "deferred list \<Rightarrow> bool \<Rightarrow> bool \<Rightarrow> bool" where
  "run_deferred [] cancelled alone = True"
| "run_deferred (Cancel # ds) cancelled alone = run_deferred ds True alone"
| "run_deferred (Wait_group # ds) cancelled alone = ((cancelled \<or> alone) \<and> run_deferred ds cancelled alone)"

text \<open>
  A task that cancels the context when it ends lets the others end too; the listener's and the
  flush monitor's loops end only when the context is cancelled.
\<close>

definition cancels :: "task \<Rightarrow> bool" where
  "cancels t \<longleftrightarrow> t \<in> {Probes_task, Server_task, Manager_task}"

definition tasks_end :: "(task \<Rightarrow> bool) \<Rightarrow> task list \<Rightarrow> bool" where
  "tasks_end ends ts \<longleftrightarrow> ts = [] \<or> (\<exists>t \<in> set ts. cancels t \<and> ends t)"

subsection \<open>Sources\<close>

datatype 'fs provider =
    Once_fs 'fs
  | Kube_provider string
  | Listener_provider
  | Composite "'fs provider list"

text \<open>The sources a provider loads.\<close>

fun leaves :: "'fs provider \<Rightarrow> 'fs provider list" where
  "leaves (Composite ps) = concat (map leaves ps)"
| "leaves p = [p]"

fun get_external_providers :: "(string \<Rightarrow> go_error + 'fs) \<Rightarrow> string list \<Rightarrow> 'fs provider list \<Rightarrow> go_error + 'fs provider list" where
  "get_external_providers lookup [] providers = Inr providers"
| "get_external_providers lookup (url # urls) providers =
     (case lookup url of
        Inl err \<Rightarrow> Inl err
      | Inr fsys \<Rightarrow> get_external_providers lookup urls (providers @ [Once_fs fsys]))"

subsection \<open>The environment and the options\<close>

record 'fs serve_env =
  se_client_config :: "go_error option"
  se_dynamic :: "go_error option"
  se_clientset :: "go_error option"
  se_namespace :: "go_error option"
  se_lookup :: "name_option list \<Rightarrow> remote_option list \<Rightarrow> string \<Rightarrow> go_error + 'fs"
  se_install :: "go_error option"
  se_manager :: "go_error option"
  se_kube_source :: "go_error option"
  se_controller :: "go_error option"
  se_cache_sync :: bool
  se_pod_ip :: string

record serve_opts =
  so_external :: "string list"
  so_kube :: bool
  so_control_plane :: string
  so_secrets :: "string list"
  so_insecure :: bool

text \<open>
  How the body of a command is left: by \<open>log.Fatalf\<close>, by a panic, or by a return with its error,
  the deferred calls, the tasks started and the source the authorization server was given.
\<close>

record 'fs left =
  lf_error :: "go_error option"
  lf_deferred :: "deferred list"
  lf_tasks :: "task list"
  lf_source :: "'fs provider option"
  lf_processors :: "string list"

datatype 'fs exit_of = Fatal string | Panicked string | Left "'fs left"

definition leave :: "go_error option \<Rightarrow> deferred list \<Rightarrow> task list \<Rightarrow> 'fs exit_of" where
  "leave err ds ts = Left \<lparr>lf_error = err, lf_deferred = ds, lf_tasks = ts, lf_source = None, lf_processors = []\<rparr>"

text \<open>The two calls every command defers first: \<open>cancel\<close>, then \<open>group.Wait\<close>.\<close>

definition base_deferred :: "deferred list" where
  "base_deferred = [Wait_group, Cancel]"

subsection \<open>The HTTP authorization server\<close>

definition serve_http_servers ::
  "'fs provider \<Rightarrow> deferred list \<Rightarrow> task list \<Rightarrow> string list \<Rightarrow> 'fs exit_of" where
  "serve_http_servers provider ds ts procs =
     Left \<lparr>lf_error = None, lf_deferred = ds, lf_tasks = ts @ [Probes_task, Server_task],
           lf_source = Some provider, lf_processors = procs\<rparr>"

definition serve_http_kube ::
  "'fs serve_env \<Rightarrow> serve_opts \<Rightarrow> 'fs provider \<Rightarrow> task list \<Rightarrow> string list \<Rightarrow> 'fs exit_of" where
  "serve_http_kube E opts httpProvider ts procs =
     (if \<not> so_kube opts then serve_http_servers httpProvider base_deferred ts procs
      else case se_install E of
        Some err \<Rightarrow> leave (Some err) base_deferred ts
      | None \<Rightarrow>
          (case se_manager E of
             Some err \<Rightarrow> leave (Some (Wrapf ''failed to construct manager'' err)) base_deferred ts
           | None \<Rightarrow>
               (case se_kube_source E of
                  Some err \<Rightarrow> leave (Some (Wrapf ''failed to create http source'' err)) base_deferred ts
                | None \<Rightarrow>
                    (let httpProvider = Composite [Kube_provider ''http'', httpProvider];
                         ts = ts @ [Manager_task]
                     in if \<not> se_cache_sync E
                        then leave (Some (Errorf ''failed to wait for http cache sync'')) (Cancel # base_deferred) ts
                        else serve_http_servers httpProvider base_deferred ts procs))))"

definition serve_http_command :: "'fs serve_env \<Rightarrow> serve_opts \<Rightarrow> 'fs exit_of" where
  "serve_http_command E opts =
     (case se_client_config E of
        Some err \<Rightarrow> leave (Some err) [] []
      | None \<Rightarrow>
     (case se_dynamic E of
        Some err \<Rightarrow> leave (Some err) base_deferred []
      | None \<Rightarrow>
     (case se_clientset E of
        Some err \<Rightarrow> leave (Some err) base_deferred []
      | None \<Rightarrow>
     (case se_namespace E of
        Some err \<Rightarrow> leave (Some (Wrapf ''failed to get namespace from kubeconfig'' err)) base_deferred []
      | None \<Rightarrow>
     (case registry_opts (so_insecure opts) (so_secrets opts) of
        Inl err \<Rightarrow> Fatal ''failed to initialize registry opts''
      | Inr (rOpts, nOpts) \<Rightarrow>
     (case get_external_providers (se_lookup E nOpts rOpts) (so_external opts) [] of
        Inl err \<Rightarrow> leave (Some err) base_deferred []
      | Inr extForHTTP \<Rightarrow>
          (let httpProvider = Composite extForHTTP
           in if so_control_plane opts \<noteq> []
              then (if se_pod_ip E = []
                    then Panicked ''can't start auth server, no POD_IP has been passed''
                    else serve_http_kube E opts httpProvider [Listener_task] [EvaluationModeHTTP])
              else serve_http_kube E opts httpProvider [] [])))))))"

subsection \<open>The Envoy authorization server\<close>

definition serve_envoy_command :: "'fs serve_env \<Rightarrow> serve_opts \<Rightarrow> 'fs exit_of" where
  "serve_envoy_command E opts =
     (case se_client_config E of
        Some err \<Rightarrow> leave (Some err) [] []
      | None \<Rightarrow>
     (case se_dynamic E of
        Some err \<Rightarrow> leave (Some err) base_deferred []
      | None \<Rightarrow>
     (case se_clientset E of
        Some err \<Rightarrow> leave (Some err) base_deferred []
      | None \<Rightarrow>
     (case se_namespace E of
        Some err \<Rightarrow> leave (Some (Wrapf ''failed to get namespace from kubeconfig'' err)) base_deferred []
      | None \<Rightarrow>
     (case registry_opts (so_insecure opts) (so_secrets opts) of
        Inl err \<Rightarrow> Fatal ''failed to initialize registry opts''
      | Inr (rOpts, nOpts) \<Rightarrow>
     (case get_external_providers (se_lookup E nOpts rOpts) (so_external opts) [] of
        Inl err \<Rightarrow> leave (Some err) base_deferred []
      | Inr extForEnvoy \<Rightarrow>
          (let envoyProvider = Composite extForEnvoy
           in if \<not> so_kube opts then serve_http_servers envoyProvider base_deferred [] []
              else case se_install E of
                Some err \<Rightarrow> leave (Some err) base_deferred []
              | None \<Rightarrow>
             (case se_manager E of
                Some err \<Rightarrow> leave (Some (Wrapf ''failed to construct manager'' err)) base_deferred []
              | None \<Rightarrow>
             (case se_kube_source E of
                Some err \<Rightarrow> leave (Some (Wrapf ''failed to create envoy source'' err)) base_deferred []
              | None \<Rightarrow>
                 (if \<not> se_cache_sync E
                  then leave (Some (Errorf ''failed to wait for envoy cache sync'')) (Cancel # base_deferred) [Manager_task]
                  else serve_http_servers (Composite [Kube_provider ''envoy'', envoyProvider]) base_deferred
                         [Manager_task] []))))))))))"

subsection \<open>The control plane\<close>

definition control_plane_command :: "'fs serve_env \<Rightarrow> 'fs exit_of" where
  "control_plane_command E =
     (case se_client_config E of
        Some err \<Rightarrow> leave (Some err) [] []
      | None \<Rightarrow>
     (case se_install E of
        Some err \<Rightarrow> leave (Some err) base_deferred []
      | None \<Rightarrow>
     (case se_manager E of
        Some err \<Rightarrow> leave (Some (Wrapf ''failed to construct manager'' err)) base_deferred []
      | None \<Rightarrow>
     (case se_controller E of
        Some err \<Rightarrow> leave (Some (Wrapf ''failed to register controller to manager'' err)) base_deferred []
      | None \<Rightarrow>
          (if \<not> se_cache_sync E
           then leave (Some (Errorf ''failed to wait for cache sync'')) (Cancel # base_deferred) [Manager_task]
           else leave None base_deferred [Manager_task, Probes_task, Server_task, Flush_task])))))"

subsection \<open>The controller command\<close>

text \<open>
  \<open>run\<close> of \<open>pkg/commands/run/command.go\<close>. Its error is the value of its return expression, which is
  evaluated before the deferred calls wait for the tasks: the errors the tasks have
  stored by then are the arguments.
\<close>

definition run_body :: "multierr \<Rightarrow> bool \<Rightarrow> go_error option \<Rightarrow> go_error option \<Rightarrow> 'fs exit_of" where
  "run_body M cache_sync probes_err mgr_err =
     (if \<not> cache_sync
      then leave (Some (Errorf ''failed to wait for cache sync'')) (Cancel # base_deferred) [Manager_task]
      else leave (m_combine M [probes_err, mgr_err]) base_deferred [Manager_task, Probes_task])"

text \<open>The result of a serve command: the errors of the tasks are combined after the body returned.\<close>

definition serve_result :: "multierr \<Rightarrow> 'fs left \<Rightarrow> (task \<Rightarrow> go_error option) \<Rightarrow> go_error option" where
  "serve_result M l task_err =
     m_combine M [lf_error l, task_err Probes_task, task_err Server_task, task_err Manager_task]"

text \<open>Whether a body that is left returns: no signal arrives, and \<open>ends\<close> tells which tasks end by themselves.\<close>

definition returns :: "(task \<Rightarrow> bool) \<Rightarrow> 'fs left \<Rightarrow> bool" where
  "returns ends l \<longleftrightarrow> run_deferred (lf_deferred l) False (tasks_end ends (lf_tasks l))"

subsection \<open>Properties\<close>

definition external_lookup :: "'fs serve_env \<Rightarrow> serve_opts \<Rightarrow> string \<Rightarrow> go_error + 'fs" where
  "external_lookup E opts = se_lookup E (name_opts (so_insecure opts)) (remote_opts (so_secrets opts))"

lemma external_lookup_sel [simp]:
  "se_lookup E (name_opts (so_insecure opts)) (remote_opts (so_secrets opts)) = external_lookup E opts"
  by (simp add: external_lookup_def)

lemma external_providers:
  "get_external_providers lookup urls ps = Inr qs \<longleftrightarrow>
   (\<exists>fss. qs = ps @ map Once_fs fss \<and> list_all2 (\<lambda>u f. lookup u = Inr f) urls fss)"
proof (induction urls arbitrary: ps)
  case (Cons u us)
  show ?case
  proof (cases "lookup u")
    case (Inr f)
    have "(\<exists>fss. qs = ps @ map Once_fs fss \<and> list_all2 (\<lambda>u f. lookup u = Inr f) (u # us) fss) \<longleftrightarrow>
      (\<exists>gss. qs = ps @ map Once_fs (f # gss) \<and> list_all2 (\<lambda>u f. lookup u = Inr f) us gss)"
    proof
      assume "\<exists>gss. qs = ps @ map Once_fs (f # gss) \<and> list_all2 (\<lambda>u f. lookup u = Inr f) us gss"
      then obtain gss where "qs = ps @ map Once_fs (f # gss)" "list_all2 (\<lambda>u f. lookup u = Inr f) us gss" by blast
      with Inr show "\<exists>fss. qs = ps @ map Once_fs fss \<and> list_all2 (\<lambda>u f. lookup u = Inr f) (u # us) fss"
        by (intro exI [of _ "f # gss"]) simp
    qed (use Inr in \<open>auto simp: list_all2_Cons1\<close>)
    with Inr Cons.IH [of "ps @ [Once_fs f]"] show ?thesis by simp
  qed (simp add: list_all2_Cons1)
qed auto

lemmas serve_defs = serve_http_command_def serve_envoy_command_def serve_http_kube_def
  serve_http_servers_def leave_def Let_def registry_opts_eq

text \<open>
  The HTTP server never evaluates a policy of the control plane: when it starts, the sources
  its engine loads are the external ones in the order of the flags, after the cluster's when that
  is enabled, and no other, although a listener for the HTTP mode runs when an address is given.\<close>

theorem http_server_ignores_control_plane:
  assumes "serve_http_command E opts = Left l" and "lf_source l = Some p"
  shows "(\<exists>fss. list_all2 (\<lambda>u f. external_lookup E opts u = Inr f) (so_external opts) fss \<and>
      leaves p = (if so_kube opts then [Kube_provider ''http''] else []) @ map Once_fs fss) \<and>
    Listener_provider \<notin> set (leaves p) \<and>
    (lf_processors l = (if so_control_plane opts = [] then [] else [EvaluationModeHTTP]))"
proof -
  have leaves_fs: "concat (map leaves (map Once_fs fss)) = map Once_fs fss" for fss :: "'a list"
    by (induction fss) simp_all
  from assms obtain fss where "list_all2 (\<lambda>u f. external_lookup E opts u = Inr f) (so_external opts) fss"
    "p = (if so_kube opts then Composite [Kube_provider ''http'', Composite (map Once_fs fss)]
          else Composite (map Once_fs fss))"
    "lf_processors l = (if so_control_plane opts = [] then [] else [EvaluationModeHTTP])"
    by (auto simp: serve_defs external_providers split: option.splits sum.splits if_splits)
  then show ?thesis using leaves_fs [of fss] by (auto simp: comp_def)
qed

definition good_env :: "string serve_env" where
  "good_env = \<lparr>se_client_config = None, se_dynamic = None, se_clientset = None, se_namespace = None,
     se_lookup = (\<lambda>_ _. Inr), se_install = None, se_manager = None, se_kube_source = None,
     se_controller = None, se_cache_sync = True, se_pod_ip = ''10.0.0.1''\<rparr>"

theorem http_server_ignores_control_plane_witness:
  "\<exists>l p. serve_http_command good_env \<lparr>so_external = [''file:///p''], so_kube = False, so_control_plane = ''cp:9081'', so_secrets = [], so_insecure = False\<rparr> = Left l \<and>
     lf_source l = Some p \<and> leaves p = [Once_fs ''file:///p''] \<and> Listener_provider \<notin> set (leaves p)"
proof -
  let ?o = "\<lparr>so_external = [''file:///p''], so_kube = False, so_control_plane = ''cp:9081'', so_secrets = [], so_insecure = False\<rparr>"
  obtain l p where l: "serve_http_command good_env ?o = Left l" "lf_source l = Some p"
    by (simp add: serve_defs good_env_def)
  then have "p = Composite [Once_fs ''file:///p'']"
    by (auto simp: serve_defs good_env_def)
  with l http_server_ignores_control_plane [OF l] show ?thesis by auto
qed

text \<open>
  A failed start can hang instead of being reported: when the HTTP server is connected to a
  control plane and the manager of the cluster source cannot be built, the body returns an
  error, but its deferred wait runs before the cancellation and never ends; without a control
  plane the same failure, and with it a failed cache sync, lets the command return.\<close>

theorem http_start_error_hangs:
  assumes "serve_http_command E opts = Left l" and "so_kube opts" and "se_manager E = Some err"
    and "se_install E = None"
  shows "lf_error l \<noteq> None \<and>
    (lf_tasks l \<noteq> [] \<longrightarrow> so_control_plane opts \<noteq> [] \<and> \<not> returns ends l) \<and>
    (so_control_plane opts = [] \<longrightarrow> returns ends l)"
  using assms
  by (auto simp: serve_defs returns_def base_deferred_def tasks_end_def cancels_def
      split: option.splits sum.splits if_splits)

theorem http_start_error_hangs_witness:
  "\<exists>l. serve_http_command (good_env\<lparr>se_manager := Some (Errorf ''no cluster'')\<rparr>)
      \<lparr>so_external = [], so_kube = True, so_control_plane = ''cp:9081'', so_secrets = [], so_insecure = False\<rparr> = Left l \<and>
     lf_error l \<noteq> None \<and> \<not> returns (\<lambda>_. True) l"
proof -
  let ?e = "good_env\<lparr>se_manager := Some (Errorf ''no cluster'')\<rparr>"
  let ?o = "\<lparr>so_external = [], so_kube = True, so_control_plane = ''cp:9081'', so_secrets = [], so_insecure = False\<rparr>"
  obtain l where l: "serve_http_command ?e ?o = Left l" "lf_tasks l \<noteq> []"
    by (simp add: serve_defs good_env_def)
  with http_start_error_hangs [OF l(1), of "Errorf ''no cluster''" "\<lambda>_. True"]
  show ?thesis by (simp add: good_env_def)
qed

lemma envoy_returns:
  assumes "serve_envoy_command E opts = Left l" and "lf_source l \<noteq> None"
  shows "returns ends l = (ends Probes_task \<or> ends Server_task \<or> so_kube opts \<and> ends Manager_task)"
proof -
  from assms have "lf_deferred l = base_deferred \<and>
      lf_tasks l = (if so_kube opts then [Manager_task] else []) @ [Probes_task, Server_task]"
    by (auto simp: serve_envoy_command_def serve_http_servers_def leave_def Let_def registry_opts_eq
        split: option.splits sum.splits if_splits)
  then show ?thesis
    by (auto simp: returns_def base_deferred_def tasks_end_def cancels_def)
qed

lemma control_plane_returns:
  assumes "control_plane_command E = Left l" and "lf_error l = None"
  shows "returns ends l = (ends Probes_task \<or> ends Server_task \<or> ends Manager_task)"
proof -
  from assms have "lf_deferred l = base_deferred \<and>
      lf_tasks l = [Manager_task, Probes_task, Server_task, Flush_task]"
    by (auto simp: control_plane_command_def leave_def split: option.splits if_splits)
  then show ?thesis
    by (auto simp: returns_def base_deferred_def tasks_end_def cancels_def)
qed

text \<open>
  The servers of a command stop together: once the body has started its servers, the command
  returns exactly when one of the probes, the server or the manager ends; and a failed cache
  sync always lets the controller command return, while its result, unlike that of the serve
  commands, is fixed before the tasks it waits for end.\<close>

theorem commands_return:
  assumes "serve_envoy_command E opts = Left l" and "lf_source l \<noteq> None"
    and "control_plane_command E' = Left l'" and "lf_error l' = None" and "multierr_ok M"
  shows "returns ends l = (ends Probes_task \<or> ends Server_task \<or> so_kube opts \<and> ends Manager_task) \<and>
    returns ends l' = (ends Probes_task \<or> ends Server_task \<or> ends Manager_task) \<and>
    (\<exists>r. run_body M True None None = Left r \<and> lf_error r = None \<and>
      returns ends r = (ends Manager_task \<or> ends Probes_task)) \<and>
    (\<exists>r. run_body M False pe me = Left r \<and> lf_error r \<noteq> None \<and> returns ends r)"
  using envoy_returns [OF assms(1,2)] control_plane_returns [OF assms(3,4)]
  by (simp add: run_body_def leave_def returns_def base_deferred_def tasks_end_def cancels_def
      multierr_combine_None [OF assms(5)] disj_commute)

theorem commands_return_witness:
  "\<exists>l. control_plane_command good_env = Left l \<and> returns (\<lambda>t. t = Server_task) l \<and> \<not> returns (\<lambda>t. t = Flush_task) l"
proof -
  obtain l where l: "serve_envoy_command good_env \<lparr>so_external = [], so_kube = True, so_control_plane = [], so_secrets = [], so_insecure = False\<rparr> = Left l"
    "lf_source l \<noteq> None"
    by (simp add: serve_defs good_env_def)
  obtain l' where l': "control_plane_command good_env = Left l'" "lf_error l' = None"
    by (simp add: control_plane_command_def leave_def good_env_def)
  show ?thesis
    using commands_return [OF l l' multierr_list_ok, of "\<lambda>t. t = Server_task"]
      commands_return [OF l l' multierr_list_ok, of "\<lambda>t. t = Flush_task"] l'(1) by auto
qed

end
