(* ===== verification/Deployments.thy ===== *)
theory Deployments
  imports Authz_Http Engine_Sources Serve_Commands
begin

section \<open>Running servers\<close>

text \<open>
  Puts the parts together: the provider a command of \<open>Serve_Commands\<close> gives to its server is
  read as a source over the state of the running process, with the sources of \<open>Engine_Sources\<close>,
  \<open>once\<close> and composites, and the server answers from it. Policies are compiled by
  \<open>compile_policy\<close>. Files may change and the cluster may be reconciled between requests.
\<close>

subsection \<open>The state of a process\<close>

text \<open>
  \<open>dp_once\<close> holds the states of the \<open>once\<close> sources, numbered in the order of the provider, and
  \<open>dp_files\<close> what the external file systems hold; \<open>read fs\<close> is the source \<open>NewFs\<close> builds on
  \<open>fs\<close>, as a function of the files.
\<close>

record ('p, 'e) deployment =
  dp_kube :: "(string, 'p) cache \<times> (string, vpol) gomap"
  dp_control :: "(string, 'p) cache \<times> (string, vpol) gomap"
  dp_once :: "nat \<Rightarrow> 'p once"
  dp_files :: 'e

definition new_deployment :: "'e \<Rightarrow> ('p, 'e) deployment" where
  "new_deployment e = \<lparr>dp_kube = (new_cache, new_api_source), dp_control = (new_cache, new_listener),
     dp_once = (\<lambda>_. new_once), dp_files = e\<rparr>"

definition once_leaf :: "('e \<Rightarrow> 'p load) \<Rightarrow> nat \<Rightarrow> (('p, 'e) deployment, 'p) source" where
  "once_leaf read i d =
     (case once_load (\<lambda>e. (read e, e)) (dp_once d i, dp_files d) of
        (r, (p, e)) \<Rightarrow> (r, d\<lparr>dp_once := (dp_once d)(i := p), dp_files := e\<rparr>))"

definition kube_leaf ::
  "multierr \<Rightarrow> (field_error list \<Rightarrow> go_error option) \<Rightarrow> 'p compiler \<Rightarrow> (('p, 'e) deployment, 'p) source" where
  "kube_leaf M agg compile d =
     (case kube_load M agg compile (dp_kube d) of (r, k) \<Rightarrow> (r, d\<lparr>dp_kube := k\<rparr>))"

definition control_leaf ::
  "multierr \<Rightarrow> (field_error list \<Rightarrow> go_error option) \<Rightarrow> 'p compiler \<Rightarrow> (('p, 'e) deployment, 'p) source" where
  "control_leaf M agg compile d =
     (case control_plane_load M agg compile (dp_control d) of (r, k) \<Rightarrow> (r, d\<lparr>dp_control := k\<rparr>))"

fun once_count :: "'fs provider \<Rightarrow> nat" where
  "once_count (Once_fs fs) = 1"
| "once_count (Kube_provider name) = 0"
| "once_count Listener_provider = 0"
| "once_count (Composite ps) = sum_list (map once_count ps)"

fun provider_source ::
  "multierr \<Rightarrow> (field_error list \<Rightarrow> go_error option) \<Rightarrow> 'p compiler \<Rightarrow> ('fs \<Rightarrow> 'e \<Rightarrow> 'p load) \<Rightarrow> nat \<Rightarrow>
   'fs provider \<Rightarrow> (('p, 'e) deployment, 'p) source"
  and provider_sources ::
  "multierr \<Rightarrow> (field_error list \<Rightarrow> go_error option) \<Rightarrow> 'p compiler \<Rightarrow> ('fs \<Rightarrow> 'e \<Rightarrow> 'p load) \<Rightarrow> nat \<Rightarrow>
   'fs provider list \<Rightarrow> (('p, 'e) deployment, 'p) source list" where
  "provider_source M agg compile read i (Once_fs fs) = once_leaf (read fs) i"
| "provider_source M agg compile read i (Kube_provider name) = kube_leaf M agg compile"
| "provider_source M agg compile read i Listener_provider = control_leaf M agg compile"
| "provider_source M agg compile read i (Composite ps) =
     composite_load M (provider_sources M agg compile read i ps)"
| "provider_sources M agg compile read i [] = []"
| "provider_sources M agg compile read i (p # ps) =
     provider_source M agg compile read i p #
     provider_sources M agg compile read (i + once_count p) ps"

text \<open>What happens to a process: the cluster changes, files change, a request loads the policies.\<close>

datatype 'e deploy_event = Cluster string "vpol get_result" | Files 'e | Serve_request

fun deploy_step ::
  "(('p, 'e) deployment, 'p) source \<Rightarrow> 'e deploy_event \<Rightarrow> ('p, 'e) deployment \<Rightarrow> ('p, 'e) deployment" where
  "deploy_step src (Cluster req res) d =
     d\<lparr>dp_kube := (fst (dp_kube d), api_event (req, res) (snd (dp_kube d)))\<rparr>"
| "deploy_step src (Files e) d = d\<lparr>dp_files := e\<rparr>"
| "deploy_step src Serve_request d = snd (src d)"

subsection \<open>The external sources\<close>

definition once_result :: "('e \<Rightarrow> 'p load) \<Rightarrow> nat \<Rightarrow> ('p, 'e) deployment \<Rightarrow> 'p load" where
  "once_result read i d =
     (if once_called (dp_once d i) then (once_data (dp_once d i), once_err (dp_once d i)) else read (dp_files d))"

fun once_results :: "('fs \<Rightarrow> 'e \<Rightarrow> 'p load) \<Rightarrow> nat \<Rightarrow> 'fs list \<Rightarrow> ('p, 'e) deployment \<Rightarrow> 'p load list" where
  "once_results read i [] d = []"
| "once_results read i (fs # fss) d = once_result (read fs) i d # once_results read (Suc i) fss d"

lemma once_leaf_eq:
  "once_leaf read i d = (once_result read i d, d\<lparr>dp_once := (dp_once d)(i :=
     \<lparr>once_called = True, once_data = fst (once_result read i d), once_err = snd (once_result read i d)\<rparr>)\<rparr>)"
  by (cases d; cases "dp_once d i") (auto simp: once_leaf_def once_result_def split: prod.split)

lemma once_results_new: "once_results read i fss (new_deployment e) = map (\<lambda>fs. read fs e) fss"
  by (induction fss arbitrary: i) (simp_all add: once_result_def new_deployment_def new_once_def)

lemma once_results_later:
  "\<forall>j \<ge> i. dp_once d' j = dp_once d j \<Longrightarrow> dp_files d' = dp_files d \<Longrightarrow>
   once_results read i fss d' = once_results read i fss d"
  by (induction fss arbitrary: i) (simp_all add: once_result_def)

text \<open>\<open>holds i rs d\<close>: from number \<open>i\<close> on, the \<open>once\<close> sources were loaded with the results \<open>rs\<close>.\<close>

fun holds :: "nat \<Rightarrow> 'p load list \<Rightarrow> ('p, 'e) deployment \<Rightarrow> bool" where
  "holds i [] d \<longleftrightarrow> True"
| "holds i (r # rs) d \<longleftrightarrow>
     dp_once d i = \<lparr>once_called = True, once_data = fst r, once_err = snd r\<rparr> \<and> holds (Suc i) rs d"

lemma holds_later: "\<forall>j \<ge> i. dp_once d' j = dp_once d j \<Longrightarrow> holds i rs d' = holds i rs d"
  by (induction rs arbitrary: i) simp_all

lemma holds_update [simp]:
  "holds i rs (d\<lparr>dp_kube := k\<rparr>) = holds i rs d" "holds i rs (d\<lparr>dp_files := e\<rparr>) = holds i rs d"
  by (rule holds_later; simp)+

lemma holds_results: "holds i rs d \<Longrightarrow> length fss = length rs \<Longrightarrow> once_results read i fss d = rs"
proof (induction rs arbitrary: i fss)
  case (Cons r rs)
  then show ?case by (cases fss) (auto simp: once_result_def)
qed simp

lemma once_leaves:
  "case load_all (provider_sources M agg compile read i (map Once_fs fss)) d of (rs, d') \<Rightarrow>
     rs = once_results read i fss d \<and> holds i rs d' \<and> length rs = length fss \<and>
     dp_kube d' = dp_kube d \<and> dp_files d' = dp_files d \<and> (\<forall>j < i. dp_once d' j = dp_once d j)"
proof (induction fss arbitrary: i d)
  case (Cons fs fss)
  let ?r = "once_result (read fs) i d"
  let ?d = "d\<lparr>dp_once := (dp_once d)(i := \<lparr>once_called = True, once_data = fst ?r, once_err = snd ?r\<rparr>)\<rparr>"
  obtain rs d' where l: "load_all (provider_sources M agg compile read (Suc i) (map Once_fs fss)) ?d = (rs, d')"
    by fastforce
  from Cons.IH [of "Suc i" ?d] l have IH: "rs = once_results read (Suc i) fss ?d" "holds (Suc i) rs d'"
    "length rs = length fss" "dp_kube d' = dp_kube d" "dp_files d' = dp_files d"
    "\<forall>j < Suc i. dp_once d' j = dp_once ?d j"
    by auto
  have "once_results read (Suc i) fss ?d = once_results read (Suc i) fss d"
    by (rule once_results_later) simp_all
  with IH l show ?case by (simp add: once_leaf_eq)
qed simp

subsection \<open>The provider of a server\<close>

definition merged :: "'p load list \<Rightarrow> 'p list" where
  "merged rs = concat (map fst (filter (\<lambda>r. snd r = None) rs))"

lemma composite_items: "items_of (composite_load M sources s) = merged (fst (load_all sources s))"
  by (simp add: composite_load_def composite_loop_items merged_def)

lemma composite_error:
  assumes "multierr_ok M"
  shows "error_of (composite_load M sources s) = None \<longleftrightarrow> (\<forall>r \<in> set (fst (load_all sources s)). snd r = None)"
  using composite_loop_errors [OF assms, of sources "[]" None s]
  by (simp add: composite_load_def multierr_errors_Nil [OF assms, symmetric] del: split_paired_All)
    (use assms in \<open>auto simp: multierr_ok_def\<close>)

lemma composite_state: "snd (composite_load M sources s) = snd (load_all sources s)"
  by (simp add: composite_load_def composite_loop_state)

definition server_provider :: "bool \<Rightarrow> string \<Rightarrow> 'fs list \<Rightarrow> 'fs provider" where
  "server_provider kube name fss =
     (if kube then Composite [Kube_provider name, Composite (map Once_fs fss)] else Composite (map Once_fs fss))"

lemma command_provider:
  assumes "serve_http_command E opts = Left l \<or> serve_envoy_command E opts = Left l" and "lf_source l = Some p"
  shows "\<exists>name fss. list_all2 (\<lambda>u f. external_lookup E opts u = Inr f) (so_external opts) fss \<and>
    p = server_provider (so_kube opts) name fss"
  using assms(1)
proof
  assume "serve_http_command E opts = Left l"
  with assms(2) have "\<exists>fss. list_all2 (\<lambda>u f. external_lookup E opts u = Inr f) (so_external opts) fss \<and>
      p = server_provider (so_kube opts) ''http'' fss"
    by (auto simp: serve_defs external_providers server_provider_def split: option.splits sum.splits if_splits)
  then show ?thesis by blast
next
  assume "serve_envoy_command E opts = Left l"
  with assms(2) have "\<exists>fss. list_all2 (\<lambda>u f. external_lookup E opts u = Inr f) (so_external opts) fss \<and>
      p = server_provider (so_kube opts) ''envoy'' fss"
    by (auto simp: serve_defs external_providers server_provider_def split: option.splits sum.splits if_splits)
  then show ?thesis by blast
qed

lemma external_load:
  "case load_all (provider_sources M agg compile read 0 (map Once_fs fss)) d of (rs, d') \<Rightarrow>
     rs = once_results read 0 fss d \<and> holds 0 rs d' \<and> dp_kube d' = dp_kube d \<and> dp_files d' = dp_files d"
  using once_leaves [where M = M and agg = agg and compile = compile and read = read and i = 0 and fss = fss and d = d] by auto

lemma server_load:
  assumes "multierr_ok M"
    and "src = provider_source M agg compile read 0 (server_provider kube name fss)"
  shows "items_of (src d) =
      (if kube
       then (if snd (fst (kube_load M agg compile (dp_kube d))) = None then fst (fst (kube_load M agg compile (dp_kube d))) else []) @
         (if \<forall>r \<in> set (once_results read 0 fss d). snd r = None then merged (once_results read 0 fss d) else [])
       else merged (once_results read 0 fss d)) \<and>
    holds 0 (once_results read 0 fss d) (snd (src d)) \<and> dp_files (snd (src d)) = dp_files d \<and>
    dp_kube (snd (src d)) = (if kube then snd (kube_load M agg compile (dp_kube d)) else dp_kube d)"
proof (cases kube)
  case False
  with external_load [where M = M and agg = agg and compile = compile and read = read and fss = fss and d = d] show ?thesis
    by (auto simp: assms(2) server_provider_def composite_items composite_state split: prod.splits)
next
  case True
  obtain r k where k: "kube_load M agg compile (dp_kube d) = (r, k)" by (metis surj_pair)
  let ?d = "d\<lparr>dp_kube := k\<rparr>"
  have "once_results read 0 fss ?d = once_results read 0 fss d" by (rule once_results_later) simp_all
  moreover obtain rs d' where l: "load_all (provider_sources M agg compile read 0 (map Once_fs fss)) ?d = (rs, d')"
    by fastforce
  ultimately have e: "rs = once_results read 0 fss d" "holds 0 rs d'" "dp_kube d' = k" "dp_files d' = dp_files d"
    using external_load [where M = M and agg = agg and compile = compile and read = read and fss = fss and d = ?d] by auto
  obtain items err d'' where c: "composite_load M (provider_sources M agg compile read 0 (map Once_fs fss)) ?d = ((items, err), d'')"
    by (metis surj_pair)
  have "items = merged rs" "err = None \<longleftrightarrow> (\<forall>r \<in> set rs. snd r = None)" "d'' = d'"
    using composite_items [of M _ ?d] composite_error [OF assms(1), of _ ?d] composite_state [of M _ ?d] c l
    by (metis fst_conv snd_conv)+
  with True e c k show ?thesis
    by (simp add: assms(2) server_provider_def composite_items composite_state kube_leaf_def merged_def)
qed

subsection \<open>Runs\<close>

fun cluster_events :: "'e deploy_event list \<Rightarrow> kube_event list" where
  "cluster_events [] = []"
| "cluster_events (Cluster req res # evs) = Reconciled req res # cluster_events evs"
| "cluster_events (Files e # evs) = cluster_events evs"
| "cluster_events (Serve_request # evs) = Loaded # cluster_events evs"

text \<open>The files at the first request, or at the end when there is none.\<close>

fun first_files :: "'e \<Rightarrow> 'e deploy_event list \<Rightarrow> 'e" where
  "first_files e [] = e"
| "first_files e (Cluster req res # evs) = first_files e evs"
| "first_files e (Files e' # evs) = first_files e' evs"
| "first_files e (Serve_request # evs) = e"

lemma run_kube:
  assumes "multierr_ok M" and "src = provider_source M agg compile read 0 (server_provider True name fss)"
  shows "dp_kube (fold (deploy_step src) evs d) =
    fold (kube_event_step M agg compile) (cluster_events evs) (dp_kube d)"
proof (induction evs arbitrary: d rule: cluster_events.induct)
  case (2 req res evs)
  then show ?case by (cases "dp_kube d") simp
next
  case (4 evs)
  have "dp_kube (snd (src d)) = snd (kube_load M agg compile (dp_kube d))"
    using server_load [OF assms, of d] by simp
  with 4 show ?case by (cases "dp_kube d") simp
qed simp_all

lemma holds_step:
  assumes "multierr_ok M" and "src = provider_source M agg compile read 0 (server_provider kube name fss)"
    and "holds 0 rs d" and "length fss = length rs"
  shows "holds 0 rs (deploy_step src ev d)"
proof (cases ev)
  case Serve_request
  with server_load [OF assms(1,2), of d] holds_results [OF assms(3,4), of read] show ?thesis by simp
qed (use assms(3) in simp_all)

lemma holds_run:
  assumes "multierr_ok M" and "src = provider_source M agg compile read 0 (server_provider kube name fss)"
    and "holds 0 rs d" and "length fss = length rs"
  shows "holds 0 rs (fold (deploy_step src) evs d)"
  using assms(3) holds_step [OF assms(1,2) _ assms(4)] by (induction evs arbitrary: d) simp_all

lemma length_once_results [simp]: "length (once_results read i fss d) = length fss"
  by (induction fss arbitrary: i) simp_all

lemma run_external:
  assumes "multierr_ok M" and "src = provider_source M agg compile read 0 (server_provider kube name fss)"
    and "dp_once d = (\<lambda>_. new_once)"
  shows "once_results read 0 fss (fold (deploy_step src) evs d) =
    map (\<lambda>fs. read fs (first_files (dp_files d) evs)) fss"
  using assms(3)
proof (induction evs arbitrary: d rule: cluster_events.induct)
  case (1 d)
  have "once_results read 0 fss d = once_results read 0 fss (new_deployment (dp_files d))"
    using 1 by (intro once_results_later) (simp_all add: new_deployment_def)
  then show ?case by (simp add: once_results_new)
next
  case (4 evs)
  have "once_results read 0 fss d = once_results read 0 fss (new_deployment (dp_files d))"
    using 4 by (intro once_results_later) (simp_all add: new_deployment_def)
  moreover have "holds 0 (once_results read 0 fss d) (fold (deploy_step src) evs (snd (src d)))"
    using server_load [OF assms(1,2), of d] by (intro holds_run [OF assms(1,2)]) simp_all
  ultimately show ?case using holds_results by (fastforce simp: once_results_new)
qed simp_all

text \<open>The policies a server evaluates for the next request.\<close>

definition current_policies ::
  "(field_error list \<Rightarrow> go_error option) \<Rightarrow> 'p compiler \<Rightarrow> bool \<Rightarrow> vpol list \<Rightarrow> 'p load list \<Rightarrow> 'p list" where
  "current_policies agg compile kube cluster ext =
     (if kube
      then (if \<forall>p \<in> set cluster. agg (snd (compile p)) = None then map (\<lambda>p. fst (compile p)) cluster else []) @
        (if \<forall>r \<in> set ext. snd r = None then concat (map fst ext) else [])
      else merged ext)"

lemma accepted_all:
  "\<forall>p \<in> set ps. agg (snd (compile p)) = None \<Longrightarrow>
   accepted (compiled agg compile) ps = map (\<lambda>p. fst (compile p)) ps"
  by (induction ps) (simp_all add: compiled_def)

lemma merged_all: "\<forall>r \<in> set rs. snd r = None \<Longrightarrow> merged rs = concat (map fst rs)"
  by (simp add: merged_def)

abbreviation cluster_policies :: "'e deploy_event list \<Rightarrow> vpol list" where
  "cluster_policies evs \<equiv>
     values_by_key (last_changes api_change (reconciliations (cluster_events evs)))"

lemma server_policies:
  assumes "multierr_ok M" and "src = provider_source M agg compile read 0 (server_provider kube name fss)"
    and "keys_distinct (seen (cluster_events evs))"
  shows "items_of (src (fold (deploy_step src) evs (new_deployment e))) =
    current_policies agg compile kube (cluster_policies evs) (map (\<lambda>fs. read fs (first_files e evs)) fss)"
proof -
  let ?d = "fold (deploy_step src) evs (new_deployment e)"
  have ext: "once_results read 0 fss ?d = map (\<lambda>fs. read fs (first_files e evs)) fss"
    using run_external [OF assms(1,2), of "new_deployment e" evs] by (simp add: new_deployment_def)
  show ?thesis
  proof (cases kube)
    case False
    with server_load [OF assms(1,2), of ?d] ext show ?thesis by (simp add: current_policies_def)
  next
    case True
    with run_kube [of M src agg compile read name fss evs "new_deployment e"] assms(1,2)
    have k: "dp_kube ?d = kube_run M agg compile (cluster_events evs)"
      by (simp add: kube_run_def new_deployment_def)
    from server_load [OF assms(1,2), of ?d] ext True k show ?thesis
      by (simp add: kube_load_current [OF assms(3)] uncached_policies(1) uncached_policies(2) [OF assms(1)]
          current_policies_def accepted_all merged_all)
  qed
qed

subsection \<open>Policies compiled by the compiler\<close>

definition zero_policy :: "('i, 'd, 'l, 'v) compiled_policy" where
  "zero_policy = \<lparr>cp_failure_policy = [], cp_match_conditions = [], cp_variables = [], cp_rules = []\<rparr>"

text \<open>\<open>Compile\<close> as the sources call it: the policy and its errors, with the zero policy on failure.\<close>

definition policy_compiler ::
  "multierr \<Rightarrow> ('v, 'n, 'o) cel_ops \<Rightarrow> go_error + 'l \<Rightarrow>
   ('env, 'ast, ('i, 'd, 'l, 'v) program) cel_lib \<Rightarrow> context_types \<Rightarrow> vpol_api \<Rightarrow> ('d, 'i, 'o) policy compiler" where
  "policy_compiler M ops img C T api pol =
     (case compile_policy C T api pol of
        Inl errs \<Rightarrow> (cp_evaluate M ops img zero_policy, errs)
      | Inr q \<Rightarrow> (cp_evaluate M ops img q, []))"

subsection \<open>Properties\<close>

text \<open>C5:
  Which policies a server evaluates, at any moment of its life: started by the HTTP or the Envoy
  command and after any sequence of changes of the cluster, changes of the files and requests,
  it evaluates the compiled policies of the cluster as it is now, but none of them when one does
  not compile; then those the external sources held at the first request, and none of them when
  one reported an error. Without the cluster source an external source that reported an error
  takes only its own policies away. The cluster's cache is keyed by the name and the version of a
  policy, written after one another, so this assumes that two policies the cluster held with the
  same key are the same policy.\<close>

theorem policies_in_force:
  assumes "multierr_ok M"
    and "serve_http_command E opts = Left l \<or> serve_envoy_command E opts = Left l" and "lf_source l = Some p"
    and "src = provider_source M agg compile read 0 p"
    and "keys_distinct (seen (cluster_events evs))"
  shows "\<exists>fss. list_all2 (\<lambda>u f. external_lookup E opts u = Inr f) (so_external opts) fss \<and>
    (let cluster = values_by_key (last_changes api_change (reconciliations (cluster_events evs)));
         ext = map (\<lambda>fs. read fs (first_files e evs)) fss
     in items_of (src (fold (deploy_step src) evs (new_deployment e))) =
       (if so_kube opts
        then (if \<forall>q \<in> set cluster. agg (snd (compile q)) = None then map (\<lambda>q. fst (compile q)) cluster else []) @
          (if \<forall>r \<in> set ext. snd r = None then concat (map fst ext) else [])
        else concat (map fst (filter (\<lambda>r. snd r = None) ext))))"
proof -
  obtain name fss where f: "list_all2 (\<lambda>u f. external_lookup E opts u = Inr f) (so_external opts) fss"
    "p = server_provider (so_kube opts) name fss"
    using command_provider [OF assms(2,3)] by blast
  show ?thesis
    using f(1) server_policies [OF assms(1) assms(4) [unfolded f(2)] assms(5), of e]
    by (intro exI [of _ fss]) (simp add: current_policies_def merged_def Let_def)
qed

text \<open>An external source whose files are what it loads: the instance for concrete inputs.\<close>

theorem policies_in_force_witness:
  "\<exists>l p. serve_http_command good_env \<lparr>so_external = [''file:///p''], so_kube = False, so_control_plane = [], so_secrets = [], so_insecure = False\<rparr> = Left l \<and>
     lf_source l = Some p \<and>
     items_of (provider_source multierr_list aggregate_list (\<lambda>_. (''x'', [])) (\<lambda>fs e. e) 0 p
       (fold (deploy_step (provider_source multierr_list aggregate_list (\<lambda>_. (''x'', [])) (\<lambda>fs e. e) 0 p))
         [Serve_request, Files ([''new''], None)] (new_deployment ([''old''], None)))) = [''old'']"
proof -
  let ?o = "\<lparr>so_external = [''file:///p''], so_kube = False, so_control_plane = [], so_secrets = [], so_insecure = False\<rparr>"
  obtain l p where l: "serve_http_command good_env ?o = Left l" "lf_source l = Some p"
    by (simp add: serve_defs good_env_def)
  have k: "keys_distinct (seen (cluster_events [Serve_request, Files ([''new''], None)]))"
    by (simp add: keys_distinct_def seen_def)
  from l policies_in_force [OF multierr_list_ok disjI1 [OF l(1)] l(2) refl k,
      where e = "([''old''], None)" and agg = aggregate_list and compile = "\<lambda>_. (''x'', [])" and read = "\<lambda>fs e. e"]
  show ?thesis by (auto simp: good_env_def list_all2_Cons1)
qed

lemma cluster_server:
  assumes "multierr_ok M" and "serve_http_command E opts = Left l \<or> serve_envoy_command E opts = Left l"
    and "lf_source l = Some p" and "so_kube opts" and "so_external opts = []"
    and "src = provider_source M agg compile read 0 p" and "keys_distinct (seen (cluster_events evs))"
  shows "items_of (src (fold (deploy_step src) evs (new_deployment e))) =
    (if \<forall>q \<in> set (cluster_policies evs). agg (snd (compile q)) = None
     then map (\<lambda>q. fst (compile q)) (cluster_policies evs) else [])"
proof -
  obtain name fss where f: "list_all2 (\<lambda>u f. external_lookup E opts u = Inr f) (so_external opts) fss"
    "p = server_provider (so_kube opts) name fss"
    using command_provider [OF assms(2,3)] by blast
  with assms(5) have "fss = []" by simp
  with server_policies [OF assms(1) assms(6) [unfolded f(2)] assms(7), of e] assms(4)
  show ?thesis by (simp add: current_policies_def)
qed

text \<open>C6:
  One policy that does not compile opens the server: with the cluster as its only source and the
  default output expression, while the cluster holds a policy of its mode that the compiler
  rejects, a HTTP server that is not nested answers 200 to every request whose body can be read,
  whatever the other policies say, and counts it as allowed (keys as in the property before).\<close>

theorem broken_policy_opens_server:
  assumes "multierr_ok M" and "serve_http_command E opts = Left l" and "lf_source l = Some p"
    and "so_kube opts" and "so_external opts = []"
    and "src = provider_source M agg compile read 0 p" and "keys_distinct (seen (cluster_events evs))"
    and "q \<in> set (values_by_key (last_changes api_change (reconciliations (cluster_events evs))))"
    and "agg (snd (compile q)) \<noteq> None"
    and "\<not> au_nested a" and "au_input a = None" and "au_engine a = http_engine src"
    and "runs_default_output as_response (au_output a)" and "new_request r = (req, None)"
  shows "\<exists>d. serve_http read_request as_request as_response a r
      (fold (deploy_step src) evs (new_deployment e), m, fresh_writer) =
    Ret (d, record_http_request req allow_response m, fresh_writer\<lparr>rw_status := Some 200\<rparr>)"
proof -
  obtain items err d where s: "src (fold (deploy_step src) evs (new_deployment e)) = ((items, err), d)"
    by (metis surj_pair)
  have "items = []" using cluster_server [OF assms(1) disjI1 [OF assms(2)] assms(3-7), of e] assms(8,9) s by auto
  then have dec: "decision items (au_dyn a) req = (None, None)" by simp
  show ?thesis
    using serve_http_default [OF assms(10-14) s dec, of read_request as_request m]
    by (simp add: Let_def default_answer_def allow_response_def)
qed

text \<open>C7:
  A denial reaches the client of a HTTP server with the cluster as its only source and the default
  expressions: a policy of the cluster that compiles, whose match conditions hold
  for the request and whose first rule that is not silent gives a denied response, is answered
  by the HTTP server with 403 and its reason, when the policies before it in the order of the
  keys are silent on the request and every policy of the cluster compiles (for a request whose
  body can be read and a server that is not nested; keys as before).\<close>

theorem denial_reaches_client:
  assumes "multierr_ok M" and "serve_http_command E opts = Left l" and "lf_source l = Some p"
    and "so_kube opts" and "so_external opts = []"
    and "src = provider_source M agg (policy_compiler M ops img C T api) read 0 p"
    and "keys_distinct (seen (cluster_events evs))"
    and "values_by_key (last_changes api_change (reconciliations (cluster_events evs))) = before @ q # after"
    and "\<forall>b \<in> set (before @ after). \<exists>c. compile_policy C T api b = Inr c" and "compile_policy C T api q = Inr cp"
    and "\<forall>b \<in> set before. fst (policy_compiler M ops img C T api b) (au_dyn a) req = (None, None)"
    and "list_all (\<lambda>c. c = Inr True) (cond_results ops cp req)"
    and "setup_variables ops img cp req (au_dyn a) = Inr act" and "cp_rules cp = silent @ rule # rest"
    and "\<forall>s \<in> set silent. rule_silent ops act s"
    and "rule_decides ops rule act (Inr (Some \<lparr>cr_ok = None, cr_denied = Some \<lparr>cd_reason = reason\<rparr>\<rparr>))"
    and "\<not> au_nested a" and "au_input a = None" and "au_engine a = http_engine src" and "aggregate_ok agg"
    and "runs_default_output as_response (au_output a)" and "new_request r = (req, None)"
  shows "\<exists>d m'. serve_http read_request as_request as_response a r
      (fold (deploy_step src) evs (new_deployment e), m, fresh_writer) =
    Ret (d, m', fresh_writer\<lparr>rw_status := Some 403, rw_body := reason\<rparr>)"
proof -
  let ?compile = "policy_compiler M ops img C T api"
  let ?res = "\<lparr>cr_ok = None, cr_denied = Some \<lparr>cd_reason = reason\<rparr>\<rparr>"
  obtain items err d where s: "src (fold (deploy_step src) evs (new_deployment e)) = ((items, err), d)"
    by (metis surj_pair)
  have compiles: "snd (?compile b) = []" if "b \<in> set (before @ q # after)" for b
  proof -
    from that assms(9,10) obtain c where "compile_policy C T api b = Inr c" by auto
    then show ?thesis by (simp add: policy_compiler_def)
  qed
  have "\<forall>b \<in> set (before @ q # after). agg (snd (?compile b)) = None"
    using compiles assms(20) unfolding aggregate_ok_def by blast
  then have items: "items = map (\<lambda>b. fst (?compile b)) before @ fst (?compile q) # map (\<lambda>b. fst (?compile b)) after"
    using cluster_server [OF assms(1) disjI1 [OF assms(2)] assms(3-7), of e] assms(8) s by auto
  have "fst (?compile q) (au_dyn a) req = (Some ?res, None)"
    using first_rule_result [OF assms(1) assms(12-16)] assms(10) by (simp add: policy_compiler_def)
  then have dec: "decision items (au_dyn a) req = (Some ?res, None)"
    unfolding items using assms(11) by (subst decision_skip) auto
  show ?thesis
    using serve_http_default [OF assms(17-19,21,22) s dec, of read_request as_request m]
    by (simp add: Let_def default_answer_def response_given_def)
qed

text \<open>C8:
  The answers of an Envoy server as a function of the cluster: with the cluster as its only
  source, after every interleaving of reconciliations, file changes and checks, the server
  answers with the first policy in the order of the keys that responds or fails, by its response
  or by its error next to an empty response; while the cluster holds a policy that does not
  compile, it answers every check with the empty response and no error, as if there were none
  (keys as before).\<close>

theorem envoy_server_answers:
  assumes "multierr_ok M" and "serve_envoy_command E opts = Left l" and "lf_source l = Some p"
    and "so_kube opts" and "so_external opts = []"
    and "src = provider_source M agg compile read 0 p" and "keys_distinct (seen (cluster_events evs))"
  shows "let cluster = values_by_key (last_changes api_change (reconciliations (cluster_events evs)));
      usable = (\<forall>q \<in> set cluster. agg (snd (compile q)) = None)
    in fst (envoy_check_inner no_resp (envoy_engine src) dyn req (fold (deploy_step src) evs (new_deployment e))) =
      (case decision (if usable then map (\<lambda>q. fst (compile q)) cluster else []) dyn req of
         (Some resp, _) \<Rightarrow> (resp, None)
       | (None, err) \<Rightarrow> (no_resp, err))"
proof -
  obtain items err d where s: "src (fold (deploy_step src) evs (new_deployment e)) = ((items, err), d)"
    by (metis surj_pair)
  show ?thesis
    using cluster_server [OF assms(1) disjI2 [OF assms(2)] assms(3-7), of e] s
    by (auto simp: envoy_check_inner_def envoy_engine_decision [where src = src, OF s] make_evaluation_def
        split: option.split prod.split)
qed

text \<open>
  A process for concrete inputs: CEL knows the expressions \<open>true\<close> and \<open>deny\<close>, the cluster holds
  one policy whose only rule is the given one.
\<close>

definition deny_cel :: "(env_option list, string, (check_request, unit, unit, nat) program) cel_lib" where
  "deny_cel = \<lparr>
     cl_new_env = Inr,
     cl_extend = (\<lambda>e os. Inr (e @ os)),
     cl_compile = (\<lambda>e p x. if x \<in> {''true'', ''deny''} then Inr x else Inl (Errorf ''undeclared reference'')),
     cl_output_type = (\<lambda>x. if x = ''true'' then Bool_t else http_ResponseType),
     cl_program = (\<lambda>e x. Inr (\<lambda>_. (Some (if x = ''true'' then 1 else 7), None)))\<rparr>"

lemma deny_cel_sel [simp]:
  "cl_new_env deny_cel = Inr"
  "cl_extend deny_cel e opts = Inr (e @ opts)"
  "cl_compile deny_cel e p x = (if x \<in> {''true'', ''deny''} then Inr x else Inl (Errorf ''undeclared reference''))"
  "cl_output_type deny_cel x = (if x = ''true'' then Bool_t else http_ResponseType)"
  "cl_program deny_cel e x = Inr (\<lambda>_. (Some (if x = ''true'' then 1 else 7), None))"
  by (simp_all add: deny_cel_def)

definition deny_policy :: "string \<Rightarrow> vpol" where
  "deny_policy rule = \<lparr>vp_name = ''p'', vp_resource_version = ''1'', vp_meta = [], vp_spec = \<lparr>
     sp_evaluation = Some EvaluationModeHTTP,
     sp_validations = [\<lparr>vl_expression = rule, vl_message = [], vl_reason = None, vl_message_expression = []\<rparr>],
     sp_variables = [], sp_match_conditions = [\<lparr>mc_name = ''m'', mc_expression = ''true''\<rparr>],
     sp_failure_policy = None, sp_other = []\<rparr>\<rparr>"

definition deny_compiled :: "(check_request, unit, unit, nat) compiled_policy" where
  "deny_compiled = \<lparr>cp_failure_policy = ''Fail'', cp_match_conditions = [\<lambda>_. (Some 1, None)],
     cp_variables = [], cp_rules = [\<lambda>_. (Some 7, None)]\<rparr>"

lemmas deny_simps = compile_policy_def compiled_environment_def policy_env_def new_env_def new_base_env_def
  deny_policy_def kyverno_api_def EvaluationModeEnvoy_def EvaluationModeHTTP_def new_variables_provider_def
  compile_authorization_def authz_type_defs

lemma deny_compiles: "compile_policy deny_cel example_types kyverno_api (deny_policy ''deny'') = Inr deny_compiled"
  by (simp add: deny_simps deny_compiled_def Let_def)

lemma deny_rejected: "\<exists>err errs. compile_policy deny_cel example_types kyverno_api (deny_policy ''oops'') = Inl (err # errs)"
  by (simp add: deny_simps Let_def)

definition deny_response :: check_response where
  "deny_response = \<lparr>cr_ok = None, cr_denied = Some \<lparr>cd_reason = ''no''\<rparr>\<rparr>"

definition deny_ops :: "(nat, nat, check_response option) cel_ops" where
  "deny_ops = \<lparr>
     cv_is_null = (\<lambda>v. v = 0), cv_value = Some,
     cv_to_bool = (\<lambda>v. case v of None \<Rightarrow> Inl (Errorf ''nil'') | Some n \<Rightarrow> Inr (n = 1)),
     cv_as_out = (\<lambda>n. if n = 7 then Some (Some deny_response) else None),
     cv_zero = None, cv_wrap_err = (\<lambda>_. 99)\<rparr>"

abbreviation deny_compiler :: "(unit, check_request, check_response option) policy compiler" where
  "deny_compiler \<equiv> policy_compiler multierr_list deny_ops (Inr ()) deny_cel example_types kyverno_api"

abbreviation deny_source ::
  "string provider \<Rightarrow> (((unit, check_request, check_response option) policy, unit) deployment,
   (unit, check_request, check_response option) policy) source" where
  "deny_source p \<equiv> provider_source multierr_list aggregate_list deny_compiler (\<lambda>fs e. ([], None)) 0 p"

definition deny_authorizer where
  "deny_authorizer p = \<lparr>
     au_engine = http_engine (deny_source p), au_dyn = (), au_input = None,
     au_output = au_output (example_authorizer []), au_nested = False\<rparr>"

lemma deny_authorizer_sel [simp]:
  "au_engine (deny_authorizer p) = http_engine (deny_source p)" "au_input (deny_authorizer p) = None"
  "au_output (deny_authorizer p) = au_output (example_authorizer [])" "\<not> au_nested (deny_authorizer p)"
  by (simp_all add: deny_authorizer_def)

abbreviation kube_opts :: serve_opts where
  "kube_opts \<equiv> \<lparr>so_external = [], so_kube = True, so_control_plane = [], so_secrets = [], so_insecure = False\<rparr>"

lemma kube_opts_serve: "\<exists>l p. serve_http_command good_env kube_opts = Left l \<and> lf_source l = Some p"
  by (simp add: serve_defs good_env_def)

lemma one_policy_cluster:
  "values_by_key (last_changes api_change (reconciliations (cluster_events [Cluster k (Found q)]))) = [q]"
proof -
  have "last_changes api_change (reconciliations (cluster_events [Cluster k (Found q)])) = [k \<mapsto> q]"
    by (rule ext) (simp add: last_changes_def List.map_filter_def)
  then show ?thesis by (simp add: values_by_key_def)
qed

lemma one_policy_keys: "keys_distinct (seen (cluster_events [Cluster k (Found q)]))"
  by (simp add: keys_distinct_def seen_def)

lemma deny_output: "runs_default_output Inr (au_output (deny_authorizer p))"
  using example_output [of "[]"] by simp

lemma kube_opts_sel: "so_kube kube_opts" "so_external kube_opts = []"
  by simp_all

lemma example_new_request: "new_request example_request = (fst (new_request example_request), None)"
  by (simp add: new_request_def example_request_def)

theorem broken_policy_opens_server_witness:
  "\<exists>p d m. serve_http Inr (\<lambda>_. None) Inr (deny_authorizer p) example_request
      (fold (deploy_step (deny_source p)) [Cluster ''p'' (Found (deny_policy ''oops''))] (new_deployment ()),
       no_requests, fresh_writer) =
    Ret (d, m, fresh_writer\<lparr>rw_status := Some 200\<rparr>)"
proof -
  obtain l p where l: "serve_http_command good_env kube_opts = Left l" "lf_source l = Some p"
    using kube_opts_serve by blast
  let ?q = "deny_policy ''oops''"
  have broken: "aggregate_list (snd (deny_compiler ?q)) \<noteq> None"
    using deny_rejected by (auto simp: policy_compiler_def aggregate_list_def)
  have held: "?q \<in> set (values_by_key (last_changes api_change (reconciliations (cluster_events [Cluster ''p'' (Found ?q)]))))"
    unfolding one_policy_cluster by simp
  show ?thesis
    using broken_policy_opens_server [where src = "deny_source p" and read = "\<lambda>fs e. ([], None)" and e = "()"
        and evs = "[Cluster ''p'' (Found ?q)]" and compile = deny_compiler and agg = aggregate_list and q = ?q
        and a = "deny_authorizer p" and read_request = Inr and as_request = "\<lambda>_. None" and m = no_requests,
        OF multierr_list_ok l kube_opts_sel refl one_policy_keys held broken deny_authorizer_sel(4,2,1)
          deny_output example_new_request]
    by blast
qed

theorem denial_reaches_client_witness:
  "\<exists>p d m. serve_http Inr (\<lambda>_. None) Inr (deny_authorizer p) example_request
      (fold (deploy_step (deny_source p)) [Cluster ''p'' (Found (deny_policy ''deny''))] (new_deployment ()),
       no_requests, fresh_writer) =
    Ret (d, m, fresh_writer\<lparr>rw_status := Some 403, rw_body := ''no''\<rparr>)"
proof -
  obtain l p where l: "serve_http_command good_env kube_opts = Left l" "lf_source l = Some p"
    using kube_opts_serve by blast
  let ?q = "deny_policy ''deny''" and ?req = "fst (new_request example_request)"
  have dyn: "au_dyn (deny_authorizer p) = ()" by simp
  have held: "values_by_key (last_changes api_change (reconciliations (cluster_events [Cluster ''p'' (Found ?q)]))) = [] @ ?q # []"
    unfolding one_policy_cluster by simp
  obtain act where act: "setup_variables deny_ops (Inr ()) deny_compiled ?req (au_dyn (deny_authorizer p)) = Inr act"
    by (simp add: setup_variables_def Let_def)
  have rule: "rule_decides deny_ops (\<lambda>_. (Some 7, None)) act (Inr (Some \<lparr>cr_ok = None, cr_denied = Some \<lparr>cd_reason = ''no''\<rparr>\<rparr>))"
    by (simp add: rule_decides_def evaluate_rule_def deny_ops_def deny_response_def)
  have conds: "list_all (\<lambda>c. c = Inr True) (cond_results deny_ops deny_compiled ?req)"
    by (simp add: deny_compiled_def cond_result_def deny_ops_def)
  have rules: "cp_rules deny_compiled = [] @ (\<lambda>_. (Some 7, None)) # []" by (simp add: deny_compiled_def)
  have none: "\<forall>b \<in> set ([] @ []). \<exists>c. compile_policy deny_cel example_types kyverno_api b = Inr c"
    "\<forall>b \<in> set []. fst (deny_compiler b) (au_dyn (deny_authorizer p)) ?req = (None, None)"
    "\<forall>s \<in> set []. rule_silent deny_ops act s"
    by simp_all
  show ?thesis
    using denial_reaches_client [where src = "deny_source p" and read = "\<lambda>fs e. ([], None)" and e = "()"
        and evs = "[Cluster ''p'' (Found ?q)]" and agg = aggregate_list and q = ?q
        and a = "deny_authorizer p" and read_request = Inr and as_request = "\<lambda>_. None" and m = no_requests,
        OF multierr_list_ok l kube_opts_sel refl one_policy_keys held none(1) deny_compiles none(2) conds act
          rules none(3) rule deny_authorizer_sel(4,2,1) aggregate_list_ok deny_output example_new_request]
    by blast
qed

lemma kube_opts_serve_envoy: "\<exists>l p. serve_envoy_command good_env kube_opts = Left l \<and> lf_source l = Some p"
  by (simp add: serve_defs good_env_def)

abbreviation denying_source ::
  "string provider \<Rightarrow> (((unit, unit, string option) policy, unit) deployment, (unit, unit, string option) policy) source" where
  "denying_source p \<equiv> provider_source multierr_list aggregate_list
     (\<lambda>_. ((\<lambda>_ _. (Some ''denied'', None)), [])) (\<lambda>fs e. ([], None)) 0 p"

theorem envoy_server_answers_witness:
  "\<exists>p. fst (envoy_check_inner ''ok?'' (envoy_engine (denying_source p)) () ()
      (fold (deploy_step (denying_source p)) [Cluster ''p'' (Found (deny_policy ''deny''))] (new_deployment ()))) =
    (''denied'', None)"
proof -
  obtain l p where l: "serve_envoy_command good_env kube_opts = Left l" "lf_source l = Some p"
    using kube_opts_serve_envoy by blast
  let ?evs = "[Cluster ''p'' (Found (deny_policy ''deny''))]"
  have "fst (envoy_check_inner ''ok?'' (envoy_engine (denying_source p)) () ()
      (fold (deploy_step (denying_source p)) ?evs (new_deployment ()))) = (''denied'', None)"
    using envoy_server_answers [where src = "denying_source p" and e = "()" and no_resp = "''ok?''" and dyn = "()"
        and req = "()" and evs = ?evs, OF multierr_list_ok l kube_opts_sel refl one_policy_keys]
    unfolding one_policy_cluster by (simp add: aggregate_list_def)
  then show ?thesis by blast
qed

end
