(* ===== verification/Step_Systems.thy ===== *)
theory Step_Systems
  imports Main
begin

section \<open>Step relations that finish\<close>

text \<open>
  The contract shared by the concurrent parts that are expected to come to an end (servers that
  shut down, groups of tasks, the signal handler): the steps of the program itself lower a bound
  and are possible until the program has finished. The steps of its environment may come between
  them. Each component interprets the locales on its own step relation.
\<close>

locale finishing =
  fixes prog :: "'s \<Rightarrow> 's \<Rightarrow> bool"
    and good :: "'s \<Rightarrow> bool"
    and bound :: "'s \<Rightarrow> nat"
    and finished :: "'s \<Rightarrow> bool"
  assumes prog_good: "good s \<Longrightarrow> prog s s' \<Longrightarrow> good s'"
    and prog_bound: "good s \<Longrightarrow> prog s s' \<Longrightarrow> bound s' < bound s"
    and prog_progress: "good s \<Longrightarrow> \<not> finished s \<Longrightarrow> \<exists>s'. prog s s'"
begin

lemma run_good: "(prog ^^ n) s t \<Longrightarrow> good s \<Longrightarrow> good t"
  by (induction n arbitrary: t) (auto intro: prog_good)

lemma run_bound: "(prog ^^ n) s t \<Longrightarrow> good s \<Longrightarrow> n + bound t \<le> bound s"
proof (induction n arbitrary: t)
  case (Suc n)
  then obtain u where u: "(prog ^^ n) s u" "prog u t" by auto
  with Suc.prems(2) have "bound t < bound u" by (blast intro: prog_bound run_good)
  with Suc.IH [OF u(1) Suc.prems(2)] show ?case by simp
qed simp

lemma stuck_finished: "good s \<Longrightarrow> \<nexists>s'. prog s s' \<Longrightarrow> finished s"
  using prog_progress by blast

lemma finishes: "good s \<Longrightarrow> \<exists>n t. (prog ^^ n) s t \<and> n \<le> bound s \<and> finished t"
proof (induction "bound s" arbitrary: s rule: less_induct)
  case less
  show ?case
  proof (cases "finished s")
    case True
    then show ?thesis by (intro exI [of _ 0] exI [of _ s]) simp
  next
    case False
    then obtain s' where s': "prog s s'" using less.prems prog_progress by blast
    with less.prems have "bound s' < bound s" "good s'" by (auto intro: prog_bound prog_good)
    with less.hyps obtain n t where "(prog ^^ n) s' t" "n \<le> bound s'" "finished t" by blast
    moreover from s' this(1) have "(prog ^^ Suc n) s t" by (rule relpowp_Suc_I2)
    ultimately show ?thesis using \<open>bound s' < bound s\<close> by (meson Suc_le_eq le_less_trans)
  qed
qed

end

text \<open>Runs in which steps of the environment come between those of the program, which are counted.\<close>

inductive mixed_run :: "('s \<Rightarrow> 's \<Rightarrow> bool) \<Rightarrow> ('s \<Rightarrow> 's \<Rightarrow> bool) \<Rightarrow> nat \<Rightarrow> 's \<Rightarrow> 's \<Rightarrow> bool"
  for prog env where
  none: "mixed_run prog env 0 s s"
| program: "mixed_run prog env n s t \<Longrightarrow> prog t u \<Longrightarrow> mixed_run prog env (Suc n) s u"
| environment: "mixed_run prog env n s t \<Longrightarrow> env t u \<Longrightarrow> mixed_run prog env n s u"

locale finishing_reactive = finishing prog good bound finished
  for prog :: "'s \<Rightarrow> 's \<Rightarrow> bool" and good bound finished +
  fixes env :: "'s \<Rightarrow> 's \<Rightarrow> bool"
  assumes env_good: "good s \<Longrightarrow> env s s' \<Longrightarrow> good s'"
    and env_bound: "good s \<Longrightarrow> env s s' \<Longrightarrow> bound s' \<le> bound s"
begin

lemma mixed_bound: "mixed_run prog env n s t \<Longrightarrow> good s \<Longrightarrow> good t \<and> n + bound t \<le> bound s"
proof (induction rule: mixed_run.induct)
  case (program n s t u)
  then show ?case using prog_good prog_bound [of t u] by fastforce
next
  case (environment n s t u)
  then show ?case using env_good env_bound [of t u] by fastforce
qed simp

end

text \<open>States reachable from a start, and invariants of them.\<close>

lemma mixed_run_invariant:
  assumes "mixed_run prog env n s t" and "P s"
    and "\<And>u v. P u \<Longrightarrow> prog u v \<Longrightarrow> P v" and "\<And>u v. P u \<Longrightarrow> env u v \<Longrightarrow> P v"
  shows "P t"
  using assms by (induction rule: mixed_run.induct) blast+

lemma mixed_run_append:
  "mixed_run prog env n t u \<Longrightarrow> mixed_run prog env m s t \<Longrightarrow> mixed_run prog env (m + n) s u"
  by (induction rule: mixed_run.induct) (auto intro: mixed_run.intros)

lemma mixed_run_env: "env s t \<Longrightarrow> mixed_run prog env 0 s t"
  by (rule mixed_run.environment [OF mixed_run.none])

lemma mixed_run_prog: "prog s t \<Longrightarrow> mixed_run prog env 1 s t"
  using mixed_run.program [OF mixed_run.none, of prog s t env] by simp

end
