(* ===== verification/Server_Loops.thy ===== *)
theory Server_Loops
  imports Prelude Step_Systems
begin

section \<open>Running and stopping servers\<close>

text \<open>
  Models \<open>pkg/server/http.go\<close>, \<open>pkg/server/grpc.go\<close> and \<open>pkg/signals/context.go\<close>. Each function
  starts one goroutine that waits for the end of its context, does its work and defers the
  cancellation and the wait for the goroutine; deferred calls run in the reverse order. The
  goroutine and the function interleave. Of \<open>net/http\<close> the model has what is documented: the
  serving call returns \<open>ErrServerClosed\<close> once \<open>Shutdown\<close> was called and another error otherwise,
  \<open>Shutdown\<close> stops accepting and returns when no connection is active, with the
  error of closing the listeners if any, or when its context is over.
  \<open>GracefulStop\<close> of gRPC is the same without a limit. A tick is one second.
\<close>

subsection \<open>Servers\<close>

datatype stopper = Waiting_done | Draining "nat option" | Stopped "go_error option"

datatype server_main =
    Serving
  | Cancelling "go_error option"
  | Joining "go_error option"
  | Returned "go_error option" "go_error option"

record server_state =
  sv_cancelled :: bool
  sv_closed :: bool
  sv_active :: nat
  sv_stopper :: stopper
  sv_main :: server_main

definition server_start :: server_state where
  "server_start = \<lparr>sv_cancelled = False, sv_closed = False, sv_active = 0,
     sv_stopper = Waiting_done, sv_main = Serving\<rparr>"

definition deadline_exceeded :: go_error where
  "deadline_exceeded = Errorf ''context deadline exceeded''"

text \<open>The environment: the parent context, the clients, and failures to listen or to accept.\<close>

inductive server_env :: "server_state \<Rightarrow> server_state \<Rightarrow> bool" where
  cancelled: "server_env s (s\<lparr>sv_cancelled := True\<rparr>)"
| accepted: "sv_main s = Serving \<Longrightarrow> \<not> sv_closed s \<Longrightarrow> server_env s (s\<lparr>sv_active := Suc (sv_active s)\<rparr>)"
| completed: "sv_active s = Suc n \<Longrightarrow> server_env s (s\<lparr>sv_active := n\<rparr>)"
| failed: "sv_main s = Serving \<Longrightarrow> server_env s (s\<lparr>sv_main := Cancelling (Some err)\<rparr>)"

text \<open>
  The program, with the limit of its shutdown. \<open>closed\<close> is the serving call that returns because
  the server was shut down, which is not an error; \<open>cancel\<close> and \<open>join\<close> are the deferred calls.
\<close>

inductive server_prog :: "nat option \<Rightarrow> server_state \<Rightarrow> server_state \<Rightarrow> bool" for limit where
  closed: "sv_main s = Serving \<Longrightarrow> sv_closed s \<Longrightarrow> server_prog limit s (s\<lparr>sv_main := Cancelling None\<rparr>)"
| cancel: "sv_main s = Cancelling err \<Longrightarrow>
    server_prog limit s (s\<lparr>sv_cancelled := True, sv_main := Joining err\<rparr>)"
| shutdown: "sv_stopper s = Waiting_done \<Longrightarrow> sv_cancelled s \<Longrightarrow>
    server_prog limit s (s\<lparr>sv_closed := True, sv_stopper := Draining limit\<rparr>)"
| tick: "sv_stopper s = Draining (Some (Suc n)) \<Longrightarrow> server_prog limit s (s\<lparr>sv_stopper := Draining (Some n)\<rparr>)"
| drained: "sv_stopper s = Draining l \<Longrightarrow> sv_active s = 0 \<Longrightarrow> limit = None \<longrightarrow> close_err = None \<Longrightarrow>
    server_prog limit s (s\<lparr>sv_stopper := Stopped close_err\<rparr>)"
| timeout: "sv_stopper s = Draining (Some 0) \<Longrightarrow>
    server_prog limit s (s\<lparr>sv_stopper := Stopped (Some deadline_exceeded)\<rparr>)"
| join: "sv_main s = Joining err \<Longrightarrow> sv_stopper s = Stopped r \<Longrightarrow>
    server_prog limit s (s\<lparr>sv_main := Returned err r\<rparr>)"

inductive_cases server_progE: "server_prog limit s s'"
inductive_cases server_envE: "server_env s s'"

definition shutdown_limit :: nat where "shutdown_limit = 10"

definition run_http_step :: "server_state \<Rightarrow> server_state \<Rightarrow> bool" where
  "run_http_step = server_prog (Some shutdown_limit)"

definition run_grpc_step :: "server_state \<Rightarrow> server_state \<Rightarrow> bool" where
  "run_grpc_step = server_prog None"

text \<open>What the functions return, once they do: \<open>GracefulStop\<close> has no error.\<close>

definition run_http_result :: "multierr \<Rightarrow> server_state \<Rightarrow> go_error option option" where
  "run_http_result M s =
     (case sv_main s of Returned serve_err shutdown_err \<Rightarrow> Some (m_combine M [serve_err, shutdown_err]) | _ \<Rightarrow> None)"

definition run_grpc_result :: "server_state \<Rightarrow> go_error option option" where
  "run_grpc_result s = (case sv_main s of Returned serve_err _ \<Rightarrow> Some serve_err | _ \<Rightarrow> None)"

text \<open>Whether TLS is used to serve.\<close>

definition serves_tls :: "string \<Rightarrow> string \<Rightarrow> bool" where
  "serves_tls cert_file key_file \<longleftrightarrow> cert_file \<noteq> [] \<and> key_file \<noteq> []"

definition returned :: "server_state \<Rightarrow> bool" where
  "returned s \<longleftrightarrow> (\<exists>e r. sv_main s = Returned e r)"

definition server_inv :: "nat option \<Rightarrow> server_state \<Rightarrow> bool" where
  "server_inv limit s \<longleftrightarrow>
     (case sv_stopper s of
        Waiting_done \<Rightarrow> \<not> sv_closed s
      | Draining l \<Rightarrow> sv_closed s \<and> sv_cancelled s \<and> (limit = None \<longleftrightarrow> l = None) \<and> the l \<le> the limit
      | Stopped r \<Rightarrow> sv_closed s \<and> sv_cancelled s \<and> (r = None \<longrightarrow> sv_active s = 0) \<and>
          (limit = None \<longrightarrow> r = None)) \<and>
     (case sv_main s of
        Serving \<Rightarrow> True
      | Cancelling err \<Rightarrow> err = None \<longrightarrow> sv_closed s
      | Joining err \<Rightarrow> sv_cancelled s \<and> (err = None \<longrightarrow> sv_closed s)
      | Returned err r \<Rightarrow> sv_stopper s = Stopped r)"

lemma server_start_inv: "server_inv limit server_start"
  by (simp add: server_inv_def server_start_def)

lemma server_prog_inv [go_inv]: "server_inv limit s \<Longrightarrow> server_prog limit s s' \<Longrightarrow> server_inv limit s'"
  by (erule server_progE) (auto simp: server_inv_def split: server_main.splits stopper.splits)

lemma server_env_inv [go_inv]: "server_inv limit s \<Longrightarrow> server_env s s' \<Longrightarrow> server_inv limit s'"
  by (erule server_envE) (auto simp: server_inv_def split: server_main.splits stopper.splits)

text \<open>What is left to do once the context is cancelled.\<close>

fun stopper_left :: "nat option \<Rightarrow> stopper \<Rightarrow> nat" where
  "stopper_left limit Waiting_done = 3 + (case limit of Some n \<Rightarrow> n | None \<Rightarrow> 0)"
| "stopper_left limit (Draining l) = 2 + (case l of Some n \<Rightarrow> n | None \<Rightarrow> 0)"
| "stopper_left limit (Stopped r) = 0"

fun main_left :: "server_main \<Rightarrow> nat" where
  "main_left Serving = 3"
| "main_left (Cancelling err) = 2"
| "main_left (Joining err) = 1"
| "main_left (Returned err r) = 0"

definition server_left :: "nat option \<Rightarrow> server_state \<Rightarrow> nat" where
  "server_left limit s = stopper_left limit (sv_stopper s) + main_left (sv_main s)"

text \<open>A server with a limit finishes once its context is cancelled; one without needs idle clients.\<close>

definition stopping :: "nat option \<Rightarrow> server_state \<Rightarrow> bool" where
  "stopping limit s \<longleftrightarrow> server_inv limit s \<and> sv_cancelled s \<and> (limit = None \<longrightarrow> sv_closed s \<and> sv_active s = 0)"

lemma stopping_progress: "stopping limit s \<Longrightarrow> \<not> returned s \<Longrightarrow> \<exists>s'. server_prog limit s s'"
proof (cases "sv_stopper s")
  case (Draining l)
  assume s: "stopping limit s" "\<not> returned s"
  show ?thesis
  proof (cases l)
    case None
    with s Draining have "sv_active s = 0" by (simp add: stopping_def server_inv_def)
    with Draining show ?thesis by (blast intro: server_prog.drained)
  next
    case (Some n)
    with Draining show ?thesis by (cases n) (auto intro: server_prog.tick server_prog.timeout)
  qed
next
  case (Stopped r)
  assume "stopping limit s" "\<not> returned s"
  with Stopped show ?thesis
    by (cases "sv_main s") (auto simp: stopping_def server_inv_def returned_def intro: server_prog.intros)
qed (auto simp: stopping_def intro: server_prog.shutdown)

interpretation server: finishing_reactive "server_prog limit" "stopping limit" "server_left limit" returned server_env
  for limit
proof
  fix s s'
  show "stopping limit s \<Longrightarrow> server_prog limit s s' \<Longrightarrow> stopping limit s'"
    using server_prog_inv [of limit s s'] by (auto simp: stopping_def elim!: server_progE)
  show "stopping limit s \<Longrightarrow> server_prog limit s s' \<Longrightarrow> server_left limit s' < server_left limit s"
    by (auto simp: server_left_def stopping_def server_inv_def elim!: server_progE split: option.split)
  show "stopping limit s \<Longrightarrow> \<not> returned s \<Longrightarrow> \<exists>s'. server_prog limit s s'"
    by (rule stopping_progress)
  show "stopping limit s \<Longrightarrow> server_env s s' \<Longrightarrow> stopping limit s'"
    using server_env_inv [of limit s s'] by (auto simp: stopping_def elim!: server_envE)
  show "stopping limit s \<Longrightarrow> server_env s s' \<Longrightarrow> server_left limit s' \<le> server_left limit s"
    by (auto simp: server_left_def elim!: server_envE)
qed

subsection \<open>Signals\<close>

text \<open>
  \<open>signals.Do\<close>: the context ends with the first signal, or when \<open>stop\<close> is called; calling \<open>stop\<close>
  gives signals their default behaviour back, which ends the process. \<open>sg_notified\<close> tells that
  signals are still caught. The callback is a parameter: it may return at any time.
\<close>

datatype signal_main = Callback | Deferred_stop "go_error option" | Deferred_wait "go_error option" | Did "go_error option" | Killed

record signal_state =
  sg_notified :: bool
  sg_cancelled :: bool
  sg_goroutine :: bool
  sg_main :: signal_main

definition signal_start :: signal_state where
  "signal_start = \<lparr>sg_notified = True, sg_cancelled = False, sg_goroutine = True, sg_main = Callback\<rparr>"

definition alive :: "signal_state \<Rightarrow> bool" where
  "alive s \<longleftrightarrow> sg_main s \<noteq> Killed \<and> (\<forall>r. sg_main s \<noteq> Did r)"

inductive signal_env :: "signal_state \<Rightarrow> signal_state \<Rightarrow> bool" where
  caught: "alive s \<Longrightarrow> sg_notified s \<Longrightarrow> signal_env s (s\<lparr>sg_cancelled := True\<rparr>)"
| uncaught: "alive s \<Longrightarrow> \<not> sg_notified s \<Longrightarrow> signal_env s (s\<lparr>sg_main := Killed\<rparr>)"
| callback_returns: "sg_main s = Callback \<Longrightarrow> signal_env s (s\<lparr>sg_main := Deferred_stop r\<rparr>)"

inductive signal_prog :: "signal_state \<Rightarrow> signal_state \<Rightarrow> bool" where
  goroutine: "alive s \<Longrightarrow> sg_goroutine s \<Longrightarrow> sg_cancelled s \<Longrightarrow>
    signal_prog s (s\<lparr>sg_notified := False, sg_goroutine := False\<rparr>)"
| stop: "sg_main s = Deferred_stop r \<Longrightarrow>
    signal_prog s (s\<lparr>sg_notified := False, sg_cancelled := True, sg_main := Deferred_wait r\<rparr>)"
| wait: "sg_main s = Deferred_wait r \<Longrightarrow> \<not> sg_goroutine s \<Longrightarrow> signal_prog s (s\<lparr>sg_main := Did r\<rparr>)"

inductive_cases signal_progE: "signal_prog s s'"
inductive_cases signal_envE: "signal_env s s'"

definition signal_inv :: "signal_state \<Rightarrow> bool" where
  "signal_inv s \<longleftrightarrow> (\<not> sg_notified s \<longrightarrow> sg_cancelled s) \<and> (\<not> sg_goroutine s \<longrightarrow> \<not> sg_notified s) \<and>
     (sg_main s = Killed \<longrightarrow> \<not> sg_notified s) \<and>
     (\<forall>r. sg_main s = Deferred_wait r \<longrightarrow> sg_cancelled s)"

lemma signal_inv_prog [go_inv]: "signal_inv s \<Longrightarrow> signal_prog s s' \<Longrightarrow> signal_inv s'"
  by (erule signal_progE) (auto simp: signal_inv_def)

lemma signal_inv_env [go_inv]: "signal_inv s \<Longrightarrow> signal_env s s' \<Longrightarrow> signal_inv s'"
  by (erule signal_envE) (auto simp: signal_inv_def)

definition signal_stopping :: "signal_state \<Rightarrow> bool" where
  "signal_stopping s \<longleftrightarrow> signal_inv s \<and> sg_main s \<noteq> Callback"

definition signal_left :: "signal_state \<Rightarrow> nat" where
  "signal_left s = (if sg_goroutine s \<and> alive s then 1 else 0) +
     (case sg_main s of Callback \<Rightarrow> 3 | Deferred_stop _ \<Rightarrow> 2 | Deferred_wait _ \<Rightarrow> 1 | _ \<Rightarrow> 0)"

lemma signal_progress: "signal_stopping s \<Longrightarrow> alive s \<Longrightarrow> \<exists>s'. signal_prog s s'"
proof (cases "sg_main s")
  case (Deferred_wait r)
  assume "signal_stopping s" "alive s"
  with Deferred_wait show ?thesis
    by (cases "sg_goroutine s")
      (auto simp: signal_stopping_def signal_inv_def intro: signal_prog.goroutine signal_prog.wait)
qed (auto simp: signal_stopping_def alive_def intro: signal_prog.stop)

interpretation signals: finishing_reactive signal_prog signal_stopping signal_left "\<lambda>s. \<not> alive s" signal_env
proof
  fix s s'
  show "signal_stopping s \<Longrightarrow> signal_prog s s' \<Longrightarrow> signal_stopping s'"
    using signal_inv_prog [of s s'] by (auto simp: signal_stopping_def elim!: signal_progE)
  show "signal_stopping s \<Longrightarrow> signal_prog s s' \<Longrightarrow> signal_left s' < signal_left s"
    by (auto simp: signal_left_def alive_def elim!: signal_progE)
  show "signal_stopping s \<Longrightarrow> \<not> \<not> alive s \<Longrightarrow> \<exists>s'. signal_prog s s'"
    using signal_progress by simp
  show "signal_stopping s \<Longrightarrow> signal_env s s' \<Longrightarrow> signal_stopping s'"
    using signal_inv_env [of s s'] by (auto simp: signal_stopping_def elim!: signal_envE)
  show "signal_stopping s \<Longrightarrow> signal_env s s' \<Longrightarrow> signal_left s' \<le> signal_left s"
    by (auto simp: signal_left_def alive_def signal_stopping_def elim!: signal_envE)
qed

subsection \<open>Properties\<close>

lemma server_reach_inv:
  "mixed_run (server_prog limit) server_env n server_start s \<Longrightarrow> server_inv limit s"
  by (erule mixed_run_invariant) (auto intro: server_start_inv server_prog_inv server_env_inv)

lemma returned_stuck: "server_inv limit s \<Longrightarrow> returned s \<Longrightarrow> \<nexists>u. server_prog limit s u"
  by (auto simp: server_inv_def returned_def elim!: server_progE)

lemma server_left_bound:
  "server_inv limit s \<Longrightarrow> server_left limit s \<le> 6 + (case limit of Some n \<Rightarrow> n | None \<Rightarrow> 0)"
  by (cases "sv_stopper s"; cases "sv_main s")
    (auto simp: server_left_def server_inv_def split: option.splits)

lemma accepted_run: "mixed_run prog server_env 0 server_start (server_start\<lparr>sv_active := k\<rparr>)"
proof (induction k)
  case 0
  have "server_start\<lparr>sv_active := 0\<rparr> = server_start" by (simp add: server_start_def)
  then show ?case using mixed_run.none [of prog server_env server_start] by simp
next
  case (Suc k)
  have "server_env (server_start\<lparr>sv_active := k\<rparr>) (server_start\<lparr>sv_active := Suc k\<rparr>)"
    using server_env.accepted [of "server_start\<lparr>sv_active := k\<rparr>"] by (simp add: server_start_def)
  with Suc show ?case by (rule mixed_run.environment)
qed

lemma grpc_waiting_run:
  "\<exists>w. mixed_run run_grpc_step server_env 3 server_start w \<and> sv_cancelled w \<and> sv_active w = Suc k \<and>
     run_grpc_result w = None \<and> (\<nexists>u. run_grpc_step w u)"
proof -
  let ?a = "server_start\<lparr>sv_active := Suc k\<rparr>"
  let ?b = "?a\<lparr>sv_cancelled := True\<rparr>"
  let ?c = "?b\<lparr>sv_closed := True, sv_stopper := Draining None\<rparr>"
  let ?d = "?c\<lparr>sv_main := Cancelling None\<rparr>"
  let ?e = "?d\<lparr>sv_cancelled := True, sv_main := Joining None\<rparr>"
  have "mixed_run run_grpc_step server_env 0 server_start ?b"
    using mixed_run.environment [OF accepted_run server_env.cancelled] .
  moreover have "run_grpc_step ?b ?c" "run_grpc_step ?c ?d" "run_grpc_step ?d ?e"
    unfolding run_grpc_step_def
    by (rule server_prog.shutdown server_prog.closed server_prog.cancel; simp add: server_start_def)+
  ultimately have "mixed_run run_grpc_step server_env (Suc (Suc (Suc 0))) server_start ?e"
    by (intro mixed_run.program)
  moreover have "\<nexists>u. run_grpc_step ?e u"
    by (auto simp: run_grpc_step_def server_start_def elim!: server_progE)
  ultimately show ?thesis
    by (intro exI [of _ ?e]) (simp add: run_grpc_result_def numeral_3_eq_3)
qed

text \<open>C27:
  An HTTP server stops in time: once its context is cancelled, whatever its clients do, at most
  sixteen steps are left to it, ten of them seconds of waiting, and it can go on until it has
  returned; there is no other state in which it can be stuck.\<close>

theorem http_server_stops:
  assumes "mixed_run run_http_step server_env m server_start s" and "sv_cancelled s"
    and "mixed_run run_http_step server_env n s t"
  shows "n \<le> shutdown_limit + 6 \<and> ((\<nexists>u. run_http_step t u) \<longleftrightarrow> returned t)"
proof -
  let ?l = "Some shutdown_limit"
  have "stopping ?l s"
    using server_reach_inv [of ?l m s] assms(1,2) by (simp add: run_http_step_def stopping_def)
  with server.mixed_bound [of ?l n s t] assms(3)
  have t: "stopping ?l t" "n + server_left ?l t \<le> server_left ?l s" by (simp_all add: run_http_step_def)
  moreover have "server_left ?l s \<le> 6 + shutdown_limit"
    using server_left_bound [of ?l s] \<open>stopping ?l s\<close> by (simp add: stopping_def)
  ultimately show ?thesis
    using server.stuck_finished [of ?l t] returned_stuck [of ?l t]
    by (auto simp: run_http_step_def stopping_def)
qed

text \<open>C28:
  An HTTP server that returns no error was shut down and has answered every connection it
  accepted; it returns an error when serving failed or when the shutdown did, which then was cut
  off or could not close a listener. It returns only after its shutdown is over.\<close>

theorem http_server_result:
  assumes "mixed_run run_http_step server_env n server_start s" and "run_http_result M s = Some res"
    and "multierr_ok M"
  shows "(res = None \<longleftrightarrow> sv_main s = Returned None None) \<and> (res = None \<longrightarrow> sv_closed s \<and> sv_active s = 0) \<and>
    (\<exists>r. sv_stopper s = Stopped r)"
  using server_reach_inv [of "Some shutdown_limit" n s] assms
  by (auto simp: run_http_step_def run_http_result_def server_inv_def multierr_combine_None
      split: server_main.splits)

text \<open>
  A gRPC server waits for its clients: it returns only when no call is active any more, and then
  within five steps of the program after it was closed; while one call stays open it does not
  return, and there are runs in which the context is cancelled and it waits for any number of
  calls without being able to go on. The streams of the control plane are such calls.\<close>

theorem grpc_server_waits:
  assumes "mixed_run run_grpc_step server_env m server_start s"
  shows "(run_grpc_result s \<noteq> None \<longrightarrow> sv_active s = 0) \<and>
    (sv_closed s \<and> sv_active s = 0 \<and> mixed_run run_grpc_step server_env n s t \<longrightarrow>
      n \<le> 5 \<and> ((\<nexists>u. run_grpc_step t u) \<longleftrightarrow> run_grpc_result t \<noteq> None)) \<and>
    (\<exists>w. mixed_run run_grpc_step server_env 3 server_start w \<and> sv_cancelled w \<and> sv_active w = Suc k \<and>
      run_grpc_result w = None \<and> (\<nexists>u. run_grpc_step w u))"
proof (intro conjI impI)
  have inv: "server_inv None s"
    using assms by (simp add: run_grpc_step_def server_reach_inv)
  have res: "run_grpc_result u \<noteq> None \<longleftrightarrow> returned u" for u
    by (auto simp: run_grpc_result_def returned_def split: server_main.splits)
  show "sv_active s = 0" if "run_grpc_result s \<noteq> None"
  proof -
    from that obtain e r where "sv_main s = Returned e r" using res [of s] by (auto simp: returned_def)
    with inv show ?thesis by (auto simp: server_inv_def)
  qed
  assume s: "sv_closed s \<and> sv_active s = 0 \<and> mixed_run run_grpc_step server_env n s t"
  with inv have "stopping None s"
    by (auto simp: stopping_def server_inv_def split: stopper.splits)
  with server.mixed_bound [of None n s t] s
  have t: "stopping None t" "n + server_left None t \<le> server_left None s" by (simp_all add: run_grpc_step_def)
  moreover have "server_left None s \<le> 5"
    using inv s by (cases "sv_stopper s"; cases "sv_main s") (auto simp: server_left_def server_inv_def)
  ultimately show "n \<le> 5" by simp
  show "(\<nexists>u. run_grpc_step t u) \<longleftrightarrow> run_grpc_result t \<noteq> None"
    unfolding res using t(1) server.stuck_finished [of None t] returned_stuck [of None t]
    by (auto simp: run_grpc_step_def stopping_def)
qed (rule grpc_waiting_run)

lemma signal_reach_inv: "mixed_run signal_prog signal_env n signal_start s \<Longrightarrow> signal_inv s"
proof (erule mixed_run_invariant [where P = signal_inv])
  show "signal_inv signal_start" by (simp add: signal_inv_def signal_start_def)
qed (rule signal_inv_prog signal_inv_env; assumption)+

lemma signal_result:
  assumes "mixed_run signal_prog signal_env n s t" and "sg_main s = Deferred_stop r"
  shows "sg_main t \<in> {Deferred_stop r, Deferred_wait r, Did r, Killed}"
  by (rule mixed_run_invariant [OF assms(1), where P = "\<lambda>u. sg_main u \<in> {Deferred_stop r, Deferred_wait r, Did r, Killed}"])
    (auto simp: assms(2) elim!: signal_progE signal_envE)

text \<open>
  The first signal cancels the context and never kills the process; a later one can, once the
  default behaviour of signals is restored. When the callback returns, \<open>Do\<close> returns its result
  after at most three more steps, unless a signal kills the process first.\<close>

theorem signals_do:
  assumes "mixed_run signal_prog signal_env m signal_start s"
  shows "(sg_main s = Killed \<longrightarrow> sg_cancelled s) \<and>
    (sg_main s = Deferred_stop r \<and> mixed_run signal_prog signal_env n s t \<longrightarrow>
      n \<le> 3 \<and> ((\<nexists>u. signal_prog t u) \<longleftrightarrow> sg_main t = Did r \<or> sg_main t = Killed))"
proof (intro conjI impI)
  show "sg_cancelled s" if "sg_main s = Killed"
    using that signal_reach_inv [OF assms] by (auto simp: signal_inv_def)
  assume s: "sg_main s = Deferred_stop r \<and> mixed_run signal_prog signal_env n s t"
  then have "signal_stopping s" using signal_reach_inv [OF assms] by (simp add: signal_stopping_def)
  with s signals.mixed_bound [of n s t] have t: "signal_stopping t" "n + signal_left t \<le> signal_left s" by auto
  then show "n \<le> 3" using s by (auto simp: signal_left_def split: if_splits)
  have "\<not> alive t \<longleftrightarrow> sg_main t = Did r \<or> sg_main t = Killed"
    using s signal_result [of n s t r] by (auto simp: alive_def)
  then show "(\<nexists>u. signal_prog t u) \<longleftrightarrow> sg_main t = Did r \<or> sg_main t = Killed"
    using t(1) signals.stuck_finished [of t] by (auto simp: alive_def elim: signal_progE)
qed

subsection \<open>Witnesses\<close>

lemma stopped_run:
  "\<exists>s. mixed_run run_http_step server_env 5 (server_start\<lparr>sv_cancelled := True\<rparr>) s \<and> sv_main s = Returned None None"
proof -
  let ?a = "server_start\<lparr>sv_cancelled := True\<rparr>"
  let ?b = "?a\<lparr>sv_closed := True, sv_stopper := Draining (Some shutdown_limit)\<rparr>"
  let ?c = "?b\<lparr>sv_stopper := Stopped None\<rparr>"
  let ?d = "?c\<lparr>sv_main := Cancelling None\<rparr>"
  let ?e = "?d\<lparr>sv_cancelled := True, sv_main := Joining None\<rparr>"
  let ?f = "?e\<lparr>sv_main := Returned None None\<rparr>"
  have "run_http_step ?a ?b" "run_http_step ?b ?c" "run_http_step ?c ?d" "run_http_step ?d ?e" "run_http_step ?e ?f"
    unfolding run_http_step_def
    by (rule server_prog.shutdown server_prog.drained server_prog.closed server_prog.cancel server_prog.join;
        simp add: server_start_def)+
  then have "mixed_run run_http_step server_env (Suc (Suc (Suc (Suc (Suc 0))))) ?a ?f"
    by (blast intro: mixed_run.none mixed_run.program)
  then show ?thesis by (intro exI [of _ ?f]) (simp add: eval_nat_numeral)
qed

theorem http_server_stops_witness:
  "\<exists>t. mixed_run run_http_step server_env 5 (server_start\<lparr>sv_cancelled := True\<rparr>) t \<and> (\<nexists>u. run_http_step t u)"
proof -
  let ?s = "server_start\<lparr>sv_cancelled := True\<rparr>"
  have s: "mixed_run run_http_step server_env 0 server_start ?s"
    by (rule mixed_run_env) (rule server_env.cancelled)
  obtain t where t: "mixed_run run_http_step server_env 5 ?s t" "sv_main t = Returned None None"
    using stopped_run by blast
  with http_server_stops [OF s _ t(1)] show ?thesis by (auto simp: returned_def)
qed

theorem http_server_result_witness:
  "\<exists>s. run_http_result multierr_list s = Some None \<and> sv_closed s \<and> sv_active s = 0"
proof -
  obtain s where s: "mixed_run run_http_step server_env 5 (server_start\<lparr>sv_cancelled := True\<rparr>) s"
    "sv_main s = Returned None None"
    using stopped_run by blast
  have "mixed_run run_http_step server_env 0 server_start (server_start\<lparr>sv_cancelled := True\<rparr>)"
    by (rule mixed_run_env) (rule server_env.cancelled)
  from mixed_run_append [OF s(1) this] have r: "mixed_run run_http_step server_env 5 server_start s" by simp
  have "run_http_result multierr_list s = Some None" using s(2) by (simp add: run_http_result_def)
  with http_server_result [OF r this multierr_list_ok] show ?thesis by blast
qed

theorem grpc_server_waits_witness:
  "\<exists>w :: server_state. sv_active w = 1 \<and> run_grpc_result w = None \<and> (\<nexists>u. run_grpc_step w u)"
  using grpc_server_waits [OF mixed_run.none, of 0 server_start 0] by auto

theorem signals_do_witness:
  "\<exists>n t. mixed_run signal_prog signal_env n (signal_start\<lparr>sg_main := Deferred_stop None\<rparr>) t \<and> n \<le> 3 \<and>
     (\<nexists>u. signal_prog t u) \<and> sg_main t = Did None"
proof -
  let ?a = "signal_start\<lparr>sg_main := Deferred_stop None\<rparr>"
  let ?b = "?a\<lparr>sg_notified := False, sg_cancelled := True, sg_main := Deferred_wait None\<rparr>"
  let ?c = "?b\<lparr>sg_notified := False, sg_goroutine := False\<rparr>"
  let ?d = "?c\<lparr>sg_main := Did None\<rparr>"
  have start: "mixed_run signal_prog signal_env 0 signal_start ?a"
    by (rule mixed_run_env) (rule signal_env.callback_returns, simp add: signal_start_def)
  have "signal_prog ?a ?b" "signal_prog ?b ?c" "signal_prog ?c ?d"
    by (rule signal_prog.stop signal_prog.goroutine signal_prog.wait; simp add: signal_start_def alive_def)+
  then have run: "mixed_run signal_prog signal_env (Suc (Suc (Suc 0))) ?a ?d"
    by (blast intro: mixed_run.none mixed_run.program)
  from signals_do [OF start, of None "Suc (Suc (Suc 0))" ?d] run show ?thesis
    by (intro exI [of _ "Suc (Suc (Suc 0))"] exI [of _ ?d]) simp
qed

end
