(* ===== verification/Task_Groups.thy ===== *)
theory Task_Groups
  imports Serve_Commands Server_Loops
begin

section \<open>The tasks of a command\<close>

text \<open>
  How a command that has left its body comes to an end: its tasks end in any order, each storing
  its error and cancelling the context where its code does, while the deferred calls run one after
  the other. This gives the steps behind \<open>returns\<close> of \<open>Serve_Commands\<close>. \<open>ends t\<close> tells that the
  task can end by itself, \<open>obeys t\<close> that it ends once the context is cancelled, which a gRPC
  server with open calls does not (\<open>Server_Loops\<close>). The commands and their groups are in
  \<open>pkg/commands/serve\<close> and \<open>pkg/commands/run\<close>.
\<close>

record scope =
  sc_cancelled :: bool
  sc_running :: "task list"
  sc_errors :: "task \<Rightarrow> go_error option"
  sc_deferred :: "deferred list"

definition scope_start :: "'fs left \<Rightarrow> scope" where
  "scope_start l = \<lparr>sc_cancelled = False, sc_running = lf_tasks l, sc_errors = (\<lambda>_. None), sc_deferred = lf_deferred l\<rparr>"

definition scope_done :: "scope \<Rightarrow> bool" where
  "scope_done s \<longleftrightarrow> sc_deferred s = []"

inductive scope_prog :: "(task \<Rightarrow> bool) \<Rightarrow> (task \<Rightarrow> bool) \<Rightarrow> scope \<Rightarrow> scope \<Rightarrow> bool" for ends obeys where
  task_over: "t \<in> set (sc_running s) \<Longrightarrow> sc_cancelled s \<and> obeys t \<or> cancels t \<and> ends t \<Longrightarrow>
    t = Flush_task \<longrightarrow> err = None \<Longrightarrow>
    scope_prog ends obeys s (s\<lparr>sc_running := remove1 t (sc_running s),
      sc_cancelled := sc_cancelled s \<or> cancels t, sc_errors := (sc_errors s)(t := err)\<rparr>)"
| deferred_cancel: "sc_deferred s = Cancel # ds \<Longrightarrow>
    scope_prog ends obeys s (s\<lparr>sc_deferred := ds, sc_cancelled := True\<rparr>)"
| deferred_wait: "sc_deferred s = Wait_group # ds \<Longrightarrow> sc_running s = [] \<Longrightarrow>
    scope_prog ends obeys s (s\<lparr>sc_deferred := ds\<rparr>)"

text \<open>
  The flush monitor has no error; the listener's task stores the error of its last connection. A
  signal cancels the context.
\<close>

inductive scope_signal :: "scope \<Rightarrow> scope \<Rightarrow> bool" where
  signal: "scope_signal s (s\<lparr>sc_cancelled := True\<rparr>)"

inductive_cases scope_progE: "scope_prog ends obeys s s'"
inductive_cases scope_signalE: "scope_signal s s'"

definition scope_left :: "scope \<Rightarrow> nat" where
  "scope_left s = length (sc_running s) + length (sc_deferred s)"

definition can_finish :: "(task \<Rightarrow> bool) \<Rightarrow> scope \<Rightarrow> bool" where
  "can_finish ends s \<longleftrightarrow> run_deferred (sc_deferred s) (sc_cancelled s) (tasks_end ends (sc_running s))"

definition all_obey :: "(task \<Rightarrow> bool) \<Rightarrow> scope \<Rightarrow> bool" where
  "all_obey obeys s \<longleftrightarrow> list_all obeys (sc_running s)"

lemma run_deferred_cancelled [simp]: "run_deferred ds True alone"
  by (induction ds True alone rule: run_deferred.induct) simp_all

lemma run_deferred_alone [simp]: "run_deferred ds cancelled True"
  by (induction ds cancelled True rule: run_deferred.induct) simp_all

lemma tasks_end_mem: "t \<in> set ts \<Longrightarrow> cancels t \<Longrightarrow> ends t \<Longrightarrow> tasks_end ends ts"
  by (auto simp: tasks_end_def)

lemma tasks_end_Nil [simp]: "tasks_end ends []"
  by (simp add: tasks_end_def)

lemma length_remove1_less: "t \<in> set ts \<Longrightarrow> length (remove1 t ts) < length ts"
  by (induction ts) auto

lemma can_finish_step: "scope_prog ends obeys s s' \<Longrightarrow> can_finish ends s' \<longleftrightarrow> can_finish ends s"
  by (erule scope_progE) (auto simp: can_finish_def tasks_end_mem)

lemma all_obey_step: "all_obey obeys s \<Longrightarrow> scope_prog ends obeys s s' \<Longrightarrow> all_obey obeys s'"
  by (erule scope_progE) (auto simp: all_obey_def list_all_iff dest: notin_set_remove1 set_remove1_subset [THEN subsetD])

lemma scope_progress:
  assumes "can_finish ends s" and "all_obey obeys s" and "\<not> scope_done s"
  shows "\<exists>s'. scope_prog ends obeys s s'"
proof (cases "sc_deferred s")
  case (Cons d ds)
  show ?thesis
  proof (cases d)
    case Cancel
    with Cons show ?thesis by (blast intro: scope_prog.deferred_cancel)
  next
    case Wait_group
    show ?thesis
    proof (cases "sc_running s = []")
      case True
      with Cons Wait_group show ?thesis by (blast intro: scope_prog.deferred_wait)
    next
      case False
      with assms Cons Wait_group obtain t where "t \<in> set (sc_running s)" "sc_cancelled s \<and> obeys t \<or> cancels t \<and> ends t"
        by (cases "sc_running s") (auto simp: can_finish_def tasks_end_def all_obey_def list_all_iff)
      then show ?thesis by (blast intro: scope_prog.task_over [where err = None])
    qed
  qed
qed (use assms in \<open>simp add: scope_done_def\<close>)

lemma scope_left_step: "scope_prog ends obeys s s' \<Longrightarrow> scope_left s' < scope_left s"
  by (erule scope_progE) (auto simp: scope_left_def length_remove1_less)

interpretation scope: finishing_reactive "scope_prog ends obeys" "\<lambda>s. can_finish ends s \<and> all_obey obeys s"
  scope_left scope_done scope_signal for ends obeys
proof
  fix s s'
  show "can_finish ends s \<and> all_obey obeys s \<Longrightarrow> scope_prog ends obeys s s' \<Longrightarrow> can_finish ends s' \<and> all_obey obeys s'"
    using can_finish_step all_obey_step by blast
  show "can_finish ends s \<and> all_obey obeys s \<Longrightarrow> scope_prog ends obeys s s' \<Longrightarrow> scope_left s' < scope_left s"
    by (blast intro: scope_left_step)
  show "can_finish ends s \<and> all_obey obeys s \<Longrightarrow> \<not> scope_done s \<Longrightarrow> \<exists>s'. scope_prog ends obeys s s'"
    using scope_progress by blast
  show "can_finish ends s \<and> all_obey obeys s \<Longrightarrow> scope_signal s s' \<Longrightarrow> can_finish ends s' \<and> all_obey obeys s'"
    by (auto simp: can_finish_def all_obey_def elim!: scope_signalE)
  show "can_finish ends s \<and> all_obey obeys s \<Longrightarrow> scope_signal s s' \<Longrightarrow> scope_left s' \<le> scope_left s"
    by (auto simp: scope_left_def elim!: scope_signalE)
qed

lemma scope_run_bound:
  "mixed_run (scope_prog ends obeys) scope_signal n s t \<Longrightarrow> n + scope_left t \<le> scope_left s"
proof (induction rule: mixed_run.induct)
  case (program n s t u)
  then show ?case using scope_left_step [of ends obeys t u] by simp
qed (auto simp: scope_left_def elim!: scope_signalE)

lemma quiet_run_can_finish:
  assumes "mixed_run (scope_prog ends obeys) (\<lambda>_ _. False) n s t"
  shows "can_finish ends t \<longleftrightarrow> can_finish ends s"
  by (rule mixed_run_invariant [OF assms, where P = "\<lambda>u. can_finish ends u \<longleftrightarrow> can_finish ends s"])
    (auto simp: can_finish_step)

definition waited :: "scope \<Rightarrow> bool" where
  "waited s \<longleftrightarrow> Wait_group \<in> set (sc_deferred s) \<or> sc_running s = []"

lemma waited_run:
  assumes "mixed_run (scope_prog ends obeys) scope_signal n s t" and "waited s"
  shows "waited t"
  by (rule mixed_run_invariant [OF assms(1), where P = waited])
    (use assms(2) in \<open>auto simp: waited_def elim!: scope_progE scope_signalE\<close>)

text \<open>A task has an error only if it was started, and the flush monitor has none.\<close>

definition errors_of_tasks :: "task list \<Rightarrow> scope \<Rightarrow> bool" where
  "errors_of_tasks ts s \<longleftrightarrow> set (sc_running s) \<subseteq> set ts \<and> sc_errors s Flush_task = None \<and> (\<forall>t. t \<notin> set ts \<longrightarrow> sc_errors s t = None)"

lemma errors_step:
  "errors_of_tasks ts s \<Longrightarrow> scope_prog ends obeys s s' \<Longrightarrow> errors_of_tasks ts s'"
  by (erule scope_progE) (auto simp: errors_of_tasks_def dest: set_remove1_subset [THEN subsetD])

lemma errors_signal: "errors_of_tasks ts s \<Longrightarrow> scope_signal s s' \<Longrightarrow> errors_of_tasks ts s'"
  by (auto simp: errors_of_tasks_def elim!: scope_signalE)

lemma errors_run:
  assumes "mixed_run (scope_prog ends obeys) scope_signal n s t" and "errors_of_tasks ts s"
  shows "errors_of_tasks ts t"
  by (rule mixed_run_invariant [OF assms(1), where P = "errors_of_tasks ts"])
    (use assms(2) in \<open>blast intro: errors_step errors_signal\<close>)+

subsection \<open>How the commands are left\<close>

text \<open>
  A command that is left before it started its tasks, after it started the manager (and perhaps the
  listener), by the HTTP command with its listener only, or with all its servers.
\<close>

definition left_as_coded :: "'fs left \<Rightarrow> bool" where
  "left_as_coded l \<longleftrightarrow>
     (case lf_error l of
        None \<Rightarrow> lf_deferred l = base_deferred \<and> length (lf_tasks l) \<le> 4 \<and> lf_tasks l \<noteq> []
      | Some _ \<Rightarrow>
          lf_tasks l = [] \<and> lf_deferred l \<in> {[], base_deferred} \<or>
          lf_tasks l = [Listener_task] \<and> lf_deferred l = base_deferred \<or>
          lf_tasks l \<in> {[Manager_task], [Listener_task, Manager_task]} \<and> lf_deferred l = Cancel # base_deferred)"

lemma commands_left:
  "serve_http_command E opts = Left l \<Longrightarrow> left_as_coded l"
  "serve_envoy_command E opts = Left l \<Longrightarrow> left_as_coded l"
  "control_plane_command E = Left l \<Longrightarrow> left_as_coded l"
  "multierr_ok M \<Longrightarrow> run_body M cache_sync None None = Left l \<Longrightarrow> left_as_coded l"
  using multierr_combine_None [of M "[None, None]"] by (auto simp: serve_defs control_plane_command_def run_body_def left_as_coded_def base_deferred_def
      split: option.splits sum.splits if_splits)

lemma left_returns:
  assumes "left_as_coded l"
  shows "returns ends l \<longleftrightarrow> lf_error l \<noteq> None \<and> lf_tasks l \<noteq> [Listener_task] \<or> (\<exists>t \<in> set (lf_tasks l). cancels t \<and> ends t)"
  using assms
  by (cases "lf_error l") (auto simp: left_as_coded_def returns_def base_deferred_def tasks_end_def cancels_def)

lemma left_bound: "left_as_coded l \<Longrightarrow> scope_left (scope_start l) \<le> 6"
  by (auto simp: left_as_coded_def scope_left_def scope_start_def base_deferred_def split: option.splits)

subsection \<open>Properties\<close>

lemma scope_returns:
  assumes "mixed_run (scope_prog ends (\<lambda>_. True)) (\<lambda>_ _. False) n (scope_start l) s"
    and "mixed_run (scope_prog ends (\<lambda>_. True)) scope_signal m s' t" and "sc_cancelled s'"
  shows "n \<le> length (lf_tasks l) + length (lf_deferred l) \<and>
    ((\<nexists>u. scope_prog ends (\<lambda>_. True) s u) \<longrightarrow> (scope_done s \<longleftrightarrow> returns ends l)) \<and>
    ((\<nexists>u. scope_prog ends (\<lambda>_. True) t u) \<longrightarrow> scope_done t)"
proof (intro conjI impI)
  have "mixed_run (scope_prog ends (\<lambda>_. True)) scope_signal n (scope_start l) s"
    using assms(1) by (induction rule: mixed_run.induct) (auto intro: mixed_run.intros)
  from scope_run_bound [OF this] show "n \<le> length (lf_tasks l) + length (lf_deferred l)"
    by (simp add: scope_left_def scope_start_def)
  have obey: "all_obey (\<lambda>_. True) u" for u by (simp add: all_obey_def list_all_iff)
  have "returns ends l \<longleftrightarrow> can_finish ends s"
    using quiet_run_can_finish [OF assms(1)] by (simp add: returns_def can_finish_def scope_start_def)
  then show "scope_done s \<longleftrightarrow> returns ends l" if "\<nexists>u. scope_prog ends (\<lambda>_. True) s u"
    using scope.stuck_finished [OF _ that] obey by (auto simp: can_finish_def scope_done_def)
  show "scope_done t" if "\<nexists>u. scope_prog ends (\<lambda>_. True) t u"
  proof -
    have "can_finish ends s' \<and> all_obey (\<lambda>_. True) s'" using assms(3) obey by (simp add: can_finish_def)
    from scope.mixed_bound [OF assms(2) this] that show ?thesis using scope.stuck_finished by blast
  qed
qed

text \<open>C30:
  When a command returns, whatever the order of its tasks and deferred calls: a run of the HTTP, the
  Envoy, the control plane or the controller command, left at any point of its body, has at most six
  more steps. If the context is cancelled, by a signal or by a task, it returns, as its tasks end
  then (the control plane's gRPC server only when no server is connected to it any more). Without a signal it returns exactly if one of its servers or its manager ends by itself, or
  if its body failed, except that the HTTP command that fails after it started its listener and
  before its manager never returns.\<close>

theorem commands_stop:
  assumes "serve_http_command E opts = Left l \<or> serve_envoy_command E opts = Left l \<or>
      control_plane_command E = Left l \<or> run_body M cache_sync None None = Left l" and "multierr_ok M"
    and "mixed_run (scope_prog ends (\<lambda>_. True)) (\<lambda>_ _. False) n (scope_start l) s"
    and "\<nexists>u. scope_prog ends (\<lambda>_. True) s u"
    and "mixed_run (scope_prog ends (\<lambda>_. True)) scope_signal m (scope_start l) t"
    and "\<nexists>u. scope_prog ends (\<lambda>_. True) t u" and "sc_cancelled t"
  shows "n \<le> 6 \<and> m \<le> 6 \<and> scope_done t \<and>
    (scope_done s \<longleftrightarrow> lf_error l \<noteq> None \<and> lf_tasks l \<noteq> [Listener_task] \<or>
       (\<exists>u \<in> {Probes_task, Server_task, Manager_task}. u \<in> set (lf_tasks l) \<and> ends u))"
proof -
  have l: "left_as_coded l" using assms(1,2) commands_left by blast
  have "n \<le> length (lf_tasks l) + length (lf_deferred l)" and s: "scope_done s \<longleftrightarrow> returns ends l"
    using scope_returns [OF assms(3) mixed_run.none [of _ _ t] assms(7)] assms(4) by blast+
  then have n: "n \<le> 6" using left_bound [OF l] by (simp add: scope_left_def scope_start_def)
  have m: "m \<le> 6" using scope_run_bound [OF assms(5)] left_bound [OF l] by simp
  have "scope_done t" using scope_returns [OF assms(3) mixed_run.none [of _ _ t] assms(7)] assms(6) by blast
  with n m s left_returns [OF l, of ends] show ?thesis by (auto simp: cancels_def)
qed

text \<open>A run of a command that gets a signal: its tasks end one after the other, with any errors.\<close>

lemma tasks_over:
  assumes "es Flush_task = None"
  shows "\<exists>k. mixed_run (scope_prog (\<lambda>_. True) (\<lambda>_. True)) scope_signal k
    \<lparr>sc_cancelled = True, sc_running = ts, sc_errors = errs, sc_deferred = ds\<rparr>
    \<lparr>sc_cancelled = True, sc_running = [], sc_errors = override_on errs es (set ts), sc_deferred = ds\<rparr>"
proof (induction ts arbitrary: errs)
  case Nil
  show ?case by (intro exI [of _ 0]) (simp add: mixed_run.none)
next
  case (Cons t ts)
  let ?st = "\<lambda>ts errs. \<lparr>sc_cancelled = True, sc_running = ts, sc_errors = errs, sc_deferred = ds\<rparr>"
  have "scope_prog (\<lambda>_. True) (\<lambda>_. True) (?st (t # ts) errs) (?st ts (errs(t := es t)))"
    using scope_prog.task_over [of t "?st (t # ts) errs" "\<lambda>_. True" "\<lambda>_. True" "es t"] assms by auto
  then have "mixed_run (scope_prog (\<lambda>_. True) (\<lambda>_. True)) scope_signal 1 (?st (t # ts) errs) (?st ts (errs(t := es t)))"
    by (rule mixed_run_prog)
  with Cons [of "errs(t := es t)"] have "\<exists>k. mixed_run (scope_prog (\<lambda>_. True) (\<lambda>_. True)) scope_signal k
      (?st (t # ts) errs) (?st [] (override_on (errs(t := es t)) es (set ts)))"
    by (blast intro: mixed_run_append)
  moreover have "override_on (errs(t := es t)) es (set ts) = override_on errs es (set (t # ts))"
    by (rule ext) (simp add: override_on_def)
  ultimately show ?case by simp
qed

lemma signalled_run:
  assumes "lf_deferred l = base_deferred" and "es Flush_task = None"
  obtains k u where "mixed_run (scope_prog (\<lambda>_. True) (\<lambda>_. True)) scope_signal k (scope_start l) u"
    "scope_done u" "sc_cancelled u" "sc_running u = []" "\<And>t. sc_errors u t = (if t \<in> set (lf_tasks l) then es t else None)"
proof -
  let ?step = "scope_prog (\<lambda>_. True) (\<lambda>_. True)" and ?errs = "override_on (\<lambda>_. None) es (set (lf_tasks l))"
  let ?st = "\<lambda>ts errs ds. \<lparr>sc_cancelled = True, sc_running = ts, sc_errors = errs, sc_deferred = ds\<rparr>"
  have "scope_signal (scope_start l) (?st (lf_tasks l) (\<lambda>_. None) [Wait_group, Cancel])"
    using scope_signal.signal [of "scope_start l"] assms(1) by (simp add: scope_start_def base_deferred_def)
  then have run: "mixed_run ?step scope_signal 0 (scope_start l) (?st (lf_tasks l) (\<lambda>_. None) [Wait_group, Cancel])"
    by (rule mixed_run_env)
  have "?step (?st [] ?errs [Wait_group, Cancel]) (?st [] ?errs [Cancel])"
    using scope_prog.deferred_wait [of "?st [] ?errs [Wait_group, Cancel]"] by simp
  moreover have "?step (?st [] ?errs [Cancel]) (?st [] ?errs [])"
    using scope_prog.deferred_cancel [of "?st [] ?errs [Cancel]"] by simp
  moreover obtain k where "mixed_run ?step scope_signal k (scope_start l) (?st [] ?errs [Wait_group, Cancel])"
    using tasks_over [of es "lf_tasks l" "\<lambda>_. None" "[Wait_group, Cancel]", OF assms(2)]
    by (blast intro: mixed_run_append [OF _ run])
  ultimately have "mixed_run ?step scope_signal (Suc (Suc k)) (scope_start l) (?st [] ?errs [])"
    by (blast intro: mixed_run.program)
  then show thesis by (rule that) (simp_all add: scope_done_def override_on_def)
qed

lemma run_loses_errors:
  assumes "multierr_ok M"
  shows "\<exists>(r :: 'fs left) k u. run_body M True None None = Left r \<and> lf_error r = None \<and>
    mixed_run (scope_prog (\<lambda>_. True) (\<lambda>_. True)) scope_signal k (scope_start r) u \<and>
    scope_done u \<and> sc_errors u Manager_task = Some e"
proof -
  obtain r :: "'fs left" where r: "run_body M True None None = Left r" "lf_error r = None" "lf_deferred r = base_deferred"
    "lf_tasks r = [Manager_task, Probes_task]"
    using multierr_combine_None [OF assms] by (simp add: run_body_def leave_def)
  let ?es = "(\<lambda>_. None)(Manager_task := Some e)"
  obtain k u where
    u: "mixed_run (scope_prog (\<lambda>_. True) (\<lambda>_. True)) scope_signal k (scope_start r) u" "scope_done u"
    "\<And>t. sc_errors u t = (if t \<in> set (lf_tasks r) then ?es t else None)"
    by (rule signalled_run [OF r(3), of ?es]) auto
  then have "sc_errors u Manager_task = Some e" by (simp add: r(4))
  with r(1,2) u(1,2) show ?thesis by blast
qed

lemma listener_error_lost:
  assumes "multierr_ok M"
  shows "\<exists>(E :: string serve_env) opts l k u. serve_http_command E opts = Left l \<and>
    mixed_run (scope_prog (\<lambda>_. True) (\<lambda>_. True)) scope_signal k (scope_start l) u \<and> scope_done u \<and>
    sc_errors u Listener_task = Some e \<and> serve_result M l (sc_errors u) = None"
proof -
  let ?o = "\<lparr>so_external = [], so_kube = False, so_control_plane = ''cp:9081'', so_secrets = [], so_insecure = False\<rparr>"
  obtain l where l: "serve_http_command good_env ?o = Left l" "lf_error l = None" "lf_deferred l = base_deferred"
    "lf_tasks l = [Listener_task, Probes_task, Server_task]"
    by (simp add: serve_defs good_env_def)
  let ?es = "(\<lambda>_. None)(Listener_task := Some e)"
  obtain k u where
    u: "mixed_run (scope_prog (\<lambda>_. True) (\<lambda>_. True)) scope_signal k (scope_start l) u" "scope_done u"
    "\<And>t. sc_errors u t = (if t \<in> set (lf_tasks l) then ?es t else None)"
    by (rule signalled_run [OF l(3), of ?es]) auto
  have "sc_errors u = ?es" by (rule ext) (simp add: u(3) l(4))
  then have "serve_result M l (sc_errors u) = None" "sc_errors u Listener_task = Some e"
    using l(2) multierr_combine_None [OF assms] by (simp_all add: serve_result_def)
  with l(1) u(1,2) show ?thesis by blast
qed

text \<open>C31:
  Which errors of its tasks a command reports. When a serve command (HTTP, Envoy or control plane)
  has returned, all its tasks are over, and its result holds exactly the errors of its body, its
  probes, its server and its manager, whatever the order they ended in. The error the HTTP command's
  listener of the control plane ends with is not in it: the command can return no error although the
  listener had one. The controller command computes its result before it waits, so it can return
  no error although its manager ended with one.\<close>

theorem task_errors_reported:
  assumes "serve_http_command E opts = Left l \<or> serve_envoy_command E opts = Left l \<or> control_plane_command E = Left l"
    and "mixed_run (scope_prog ends obeys) scope_signal n (scope_start l) s" and "scope_done s" and "multierr_ok M"
  shows "sc_running s = [] \<and> (\<forall>t. sc_errors s t \<noteq> None \<longrightarrow> t \<in> set (lf_tasks l)) \<and>
    set (m_errors M (serve_result M l (sc_errors s))) =
      set (m_errors M (lf_error l)) \<union> (\<Union>t \<in> {Probes_task, Server_task, Manager_task}. set (m_errors M (sc_errors s t))) \<and>
    (\<exists>(E' :: string serve_env) opts' l' k u. serve_http_command E' opts' = Left l' \<and>
      mixed_run (scope_prog (\<lambda>_. True) (\<lambda>_. True)) scope_signal k (scope_start l') u \<and> scope_done u \<and>
      sc_errors u Listener_task = Some e \<and> serve_result M l' (sc_errors u) = None) \<and>
    (\<exists>(r :: 'fs left) k u. run_body M True None None = Left r \<and> lf_error r = None \<and>
      mixed_run (scope_prog (\<lambda>_. True) (\<lambda>_. True)) scope_signal k (scope_start r) u \<and>
      scope_done u \<and> sc_errors u Manager_task = Some e)"
proof (intro conjI)
  have l: "left_as_coded l" using assms(1) commands_left by blast
  then have "waited (scope_start l)"
    by (auto simp: left_as_coded_def waited_def scope_start_def base_deferred_def split: option.splits)
  from waited_run [OF assms(2) this] assms(3) show "sc_running s = []" by (simp add: waited_def scope_done_def)
  have "errors_of_tasks (lf_tasks l) (scope_start l)" by (simp add: errors_of_tasks_def scope_start_def)
  from errors_run [OF assms(2) this] show "\<forall>t. sc_errors s t \<noteq> None \<longrightarrow> t \<in> set (lf_tasks l)"
    by (auto simp: errors_of_tasks_def)
  show "set (m_errors M (serve_result M l (sc_errors s))) =
      set (m_errors M (lf_error l)) \<union> (\<Union>t \<in> {Probes_task, Server_task, Manager_task}. set (m_errors M (sc_errors s t)))"
    using assms(4) by (simp add: serve_result_def multierr_errors_combine Un_assoc)
qed (use listener_error_lost [OF assms(4)] run_loses_errors [OF assms(4)] in auto)

text \<open>C32:
  The control plane does not stop while a server is connected to it: its gRPC server is stopped
  gracefully, so as long as the stream of a listener is open its task does not end, and the
  command has not returned in any state it can reach, whatever signals it received and
  whatever its other tasks do.\<close>

theorem control_plane_waits_for_listeners:
  assumes "control_plane_command E = Left l" and "lf_error l = None"
    and "mixed_run run_grpc_step server_env k server_start w" and "sv_active w > 0"
    and "mixed_run (scope_prog (\<lambda>t. t = Server_task \<longrightarrow> run_grpc_result w \<noteq> None)
        (\<lambda>t. t = Server_task \<longrightarrow> run_grpc_result w \<noteq> None)) scope_signal n (scope_start l) s"
  shows "\<not> scope_done s \<and> Server_task \<in> set (sc_running s)"
proof -
  have "run_grpc_result w = None"
    using assms(3,4) server_reach_inv [of None k w]
    by (auto simp: run_grpc_step_def run_grpc_result_def server_inv_def split: server_main.splits)
  then have run: "mixed_run (scope_prog (\<lambda>t. t \<noteq> Server_task) (\<lambda>t. t \<noteq> Server_task)) scope_signal n (scope_start l) s"
    using assms(5) by simp
  have "lf_deferred l = base_deferred" "Server_task \<in> set (lf_tasks l)"
    using assms(1,2) by (auto simp: control_plane_command_def leave_def split: option.splits if_splits)
  then have "Wait_group \<in> set (sc_deferred (scope_start l)) \<and> Server_task \<in> set (sc_running (scope_start l))"
    by (simp add: scope_start_def base_deferred_def)
  then have "Wait_group \<in> set (sc_deferred s) \<and> Server_task \<in> set (sc_running s)"
    by (rule mixed_run_invariant [OF run, where P = "\<lambda>u. Wait_group \<in> set (sc_deferred u) \<and> Server_task \<in> set (sc_running u)"])
      (auto elim!: scope_progE scope_signalE)
  then show ?thesis by (auto simp: scope_done_def)
qed

subsection \<open>Witnesses\<close>

text \<open>The HTTP command that cannot build its manager while it listens to a control plane.\<close>

theorem commands_stop_witness:
  "\<exists>l. serve_http_command (good_env\<lparr>se_manager := Some (Errorf ''no cluster'')\<rparr>)
      \<lparr>so_external = [], so_kube = True, so_control_plane = ''cp:9081'', so_secrets = [], so_insecure = False\<rparr> = Left l \<and>
     \<not> scope_done (scope_start l) \<and> (\<nexists>u. scope_prog (\<lambda>_. True) (\<lambda>_. True) (scope_start l) u)"
proof -
  let ?E = "good_env\<lparr>se_manager := Some (Errorf ''no cluster'')\<rparr>"
  let ?o = "\<lparr>so_external = [], so_kube = True, so_control_plane = ''cp:9081'', so_secrets = [], so_insecure = False\<rparr>"
  obtain l where l: "serve_http_command ?E ?o = Left l" "lf_tasks l = [Listener_task]" "lf_deferred l = base_deferred"
    by (simp add: serve_defs good_env_def)
  have stuck: "\<nexists>u. scope_prog (\<lambda>_. True) (\<lambda>_. True) (scope_start l) u"
    using l(2,3) by (auto simp: scope_start_def base_deferred_def cancels_def elim!: scope_progE)
  obtain k u where
    u: "mixed_run (scope_prog (\<lambda>_. True) (\<lambda>_. True)) scope_signal k (scope_start l) u" "scope_done u" "sc_cancelled u"
      "sc_running u = []" by (rule signalled_run [OF l(3), of "\<lambda>_. None"]) auto
  then have "\<nexists>v. scope_prog (\<lambda>_. True) (\<lambda>_. True) u v" by (auto simp: scope_done_def elim!: scope_progE)
  from commands_stop [OF disjI1 [OF l(1)] multierr_list_ok mixed_run.none stuck u(1) this u(3)]
  have "\<not> scope_done (scope_start l)" using l(2) by auto
  with l(1) stuck show ?thesis by blast
qed

theorem task_errors_reported_witness:
  "\<exists>l :: string left. control_plane_command good_env = Left l \<and> m_errors multierr_list (serve_result multierr_list l (\<lambda>_. None)) = [] \<and>
     (\<exists>(r :: string left) k u. run_body multierr_list True None None = Left r \<and> lf_error r = None \<and>
      mixed_run (scope_prog (\<lambda>_. True) (\<lambda>_. True)) scope_signal k (scope_start r) u \<and>
      scope_done u \<and> sc_errors u Manager_task = Some (Errorf ''e''))"
proof -
  obtain l :: "string left" where l: "control_plane_command good_env = Left l" "lf_error l = None" "lf_deferred l = base_deferred"
    "lf_tasks l = [Manager_task, Probes_task, Server_task, Flush_task]"
    by (simp add: control_plane_command_def leave_def good_env_def)
  obtain k u where
    u: "mixed_run (scope_prog (\<lambda>_. True) (\<lambda>_. True)) scope_signal k (scope_start l) u" "scope_done u"
      "sc_errors u = (\<lambda>_. None)" by (rule signalled_run [OF l(3), of "\<lambda>_. None"]) (auto simp: fun_eq_iff)
  note reported = task_errors_reported [OF disjI2 [OF disjI2 [OF l(1)]] u(1,2) multierr_list_ok, of "Errorf ''e''"]
  have "m_errors multierr_list (serve_result multierr_list l (\<lambda>_. None)) = []"
    using conjunct1 [OF conjunct2 [OF conjunct2 [OF reported]]] l(2) u(3) by simp
  note facts = conjI [OF l(1) conjI [OF this conjunct2 [OF conjunct2 [OF conjunct2 [OF conjunct2 [OF reported]]]]]]
  show ?thesis by (rule exI [of _ l]) (rule facts)
qed

theorem control_plane_waits_for_listeners_witness:
  "\<exists>l (w :: server_state). control_plane_command good_env = Left l \<and> sv_cancelled w \<and> sv_active w = 1 \<and>
     \<not> scope_done ((scope_start l)\<lparr>sc_cancelled := True\<rparr>)"
proof -
  obtain l where l: "control_plane_command good_env = Left l" "lf_error l = None"
    by (simp add: control_plane_command_def leave_def good_env_def)
  obtain w where w: "mixed_run run_grpc_step server_env 3 server_start w" "sv_cancelled w" "sv_active w = 1"
    using grpc_waiting_run [of 0] by auto
  let ?p = "\<lambda>t. t = Server_task \<longrightarrow> run_grpc_result w \<noteq> None"
  have "mixed_run (scope_prog ?p ?p) scope_signal 0 (scope_start l) ((scope_start l)\<lparr>sc_cancelled := True\<rparr>)"
    by (rule mixed_run_env) (rule scope_signal.signal)
  from control_plane_waits_for_listeners [OF l w(1) _ this] w l(1) show ?thesis
    by (intro exI [of _ l] exI [of _ w]) simp
qed

end
