(* ===== verification/Webhook_Commands.thy ===== *)
theory Webhook_Commands
  imports Admission Deployments Task_Groups
begin

section \<open>Webhook commands, routes and the controller command\<close>

text \<open>
  Models the commands \<open>validation-webhook\<close> of \<open>pkg/commands/serve/http\<close> and
  \<open>pkg/commands/serve/envoy\<close>, \<open>pkg/commands/serve/sidecar-injector\<close>, \<open>pkg/commands/version\<close> and
  \<open>pkg/commands/run/command.go\<close>, and the routes of the servers in \<open>pkg/probes\<close>,
  \<open>pkg/webhook/mutation\<close> and \<open>pkg/authz/http\<close>. The environment of a command is \<open>serve_env\<close>;
  \<open>se_controller\<close> is the answer of completing a controller or a webhook.
\<close>

subsection \<open>Routes\<close>

text \<open>
  A pattern of \<open>http.ServeMux\<close> without wildcards: an optional method and a path. \<open>GET\<close> also
  matches \<open>HEAD\<close>, and \<open>/{$}\<close> is the path \<open>/\<close> alone. Requests are taken with a clean path, as the
  mux redirects the others.
\<close>

record 'h route =
  ro_method :: "string option"
  ro_path :: string
  ro_handler :: 'h

datatype 'h routed = Handled 'h | Method_not_allowed "string list" | No_route

definition route_methods :: "'h route \<Rightarrow> string list" where
  "route_methods rt =
     (case ro_method rt of None \<Rightarrow> [] | Some m \<Rightarrow> if m = ''GET'' then [''GET'', ''HEAD''] else [m])"

definition method_matches :: "'h route \<Rightarrow> string \<Rightarrow> bool" where
  "method_matches rt m \<longleftrightarrow> ro_method rt = None \<or> m \<in> set (route_methods rt)"

definition serve_mux :: "'h route list \<Rightarrow> string \<Rightarrow> string \<Rightarrow> 'h routed" where
  "serve_mux routes m path =
     (case filter (\<lambda>rt. ro_path rt = path) routes of
        [] \<Rightarrow> No_route
      | at_path \<Rightarrow>
          (case filter (\<lambda>rt. method_matches rt m) at_path of
             [] \<Rightarrow> Method_not_allowed (concat (map route_methods at_path))
           | rt # _ \<Rightarrow> Handled (ro_handler rt)))"

type_synonym handler = "http_request \<Rightarrow> response_writer \<Rightarrow> response_writer outcome"

definition probe_routes :: "handler route list" where
  "probe_routes =
     [\<lparr>ro_method = Some ''GET'', ro_path = ''/livez'', ro_handler = (\<lambda>_. healthy True)\<rparr>,
      \<lparr>ro_method = Some ''GET'', ro_path = ''/readyz'', ro_handler = (\<lambda>_. ready True)\<rparr>]"

definition sidecar_routes ::
  "(string \<Rightarrow> go_error + review_request option) \<Rightarrow>
   (review_request option \<Rightarrow> admission_response \<Rightarrow> go_error + string) \<Rightarrow>
   (('c, 'vol, 's, 'x) pod, 'p) json_lib \<Rightarrow> ('c, 'vol, 's) sidecar option \<Rightarrow> handler route list" where
  "sidecar_routes decode encode J scar =
     [\<lparr>ro_method = Some ''GET'', ro_path = ''/livez'', ro_handler = (\<lambda>_. healthy True)\<rparr>,
      \<lparr>ro_method = Some ''GET'', ro_path = ''/readyz'', ro_handler = (\<lambda>_. ready True)\<rparr>,
      \<lparr>ro_method = None, ro_path = ''/mutate'', ro_handler = admission_review decode encode (mutate J scar)\<rparr>]"

definition authorizer_routes :: "'h \<Rightarrow> 'h route list" where
  "authorizer_routes a = [\<lparr>ro_method = Some ''POST'', ro_path = ''/'', ro_handler = a\<rparr>]"

subsection \<open>Servers\<close>

text \<open>
  What a server hands to \<open>RunHttp\<close> or \<open>RunGrpc\<close>, whose result is \<open>run_server\<close> (see
  \<open>Server_Loops\<close>): its address, its routes or services and whether TLS is served; a gRPC server
  first listens.
\<close>

datatype grpc_service = Policy_service | Authorization_service | Reflection_service

definition probes_server :: "(string \<Rightarrow> handler route list \<Rightarrow> bool \<Rightarrow> 'r) \<Rightarrow> string \<Rightarrow> 'r" where
  "probes_server run_server addr = run_server addr probe_routes (serves_tls [] [])"

definition sidecar_injector_server ::
  "(string \<Rightarrow> handler route list \<Rightarrow> bool \<Rightarrow> 'r) \<Rightarrow> string \<Rightarrow> string \<Rightarrow> string \<Rightarrow>
   (string \<Rightarrow> go_error + review_request option) \<Rightarrow>
   (review_request option \<Rightarrow> admission_response \<Rightarrow> go_error + string) \<Rightarrow>
   (('c, 'vol, 's, 'x) pod, 'p) json_lib \<Rightarrow> ('c, 'vol, 's) sidecar option \<Rightarrow> 'r" where
  "sidecar_injector_server run_server addr cert_file key_file decode encode J scar =
     run_server addr (sidecar_routes decode encode J scar) (serves_tls cert_file key_file)"

text \<open>The HTTP authorization server; the parameters of TLS are set when TLS is served.\<close>

record tls_config =
  tl_min_version :: string
  tl_cipher_suites :: "string list"

definition aead_cipher_suites :: "string list" where
  "aead_cipher_suites =
     [''TLS_ECDHE_ECDSA_WITH_AES_128_GCM_SHA256'',
      ''TLS_ECDHE_RSA_WITH_AES_128_GCM_SHA256'',
      ''TLS_ECDHE_ECDSA_WITH_AES_256_GCM_SHA384'',
      ''TLS_ECDHE_RSA_WITH_AES_256_GCM_SHA384'',
      ''TLS_ECDHE_ECDSA_WITH_CHACHA20_POLY1305'',
      ''TLS_ECDHE_RSA_WITH_CHACHA20_POLY1305'']"

record 'h web_server =
  ws_address :: string
  ws_routes :: "'h route list"
  ws_tls :: "tls_config option"

definition authz_http_server :: "('h web_server \<Rightarrow> string \<Rightarrow> string \<Rightarrow> 'r) \<Rightarrow> http_config \<Rightarrow> 'h \<Rightarrow> 'r" where
  "authz_http_server run_http config a =
     (let s = \<lparr>ws_address = hc_address config, ws_routes = authorizer_routes a, ws_tls = None\<rparr>;
          s = (if hc_cert config \<noteq> [] \<and> hc_key config \<noteq> []
               then s\<lparr>ws_tls := Some \<lparr>tl_min_version = ''1.2'', tl_cipher_suites = aead_cipher_suites\<rparr>\<rparr>
               else s)
      in run_http s (hc_cert config) (hc_key config))"

definition control_plane_server ::
  "(string \<Rightarrow> string \<Rightarrow> go_error + 'lis) \<Rightarrow> (grpc_service list \<Rightarrow> 'lis \<Rightarrow> go_error option) \<Rightarrow>
   string \<Rightarrow> string \<Rightarrow> bool \<Rightarrow> go_error option" where
  "control_plane_server listen_on run_server network addr has_service =
     (let services = (if has_service then [Policy_service] else []) @ [Reflection_service]
      in case listen_on network addr of Inl err \<Rightarrow> Some err | Inr l \<Rightarrow> run_server services l)"

definition envoy_authz_server ::
  "(string \<Rightarrow> string \<Rightarrow> go_error + 'lis) \<Rightarrow> (grpc_service list \<Rightarrow> 'lis \<Rightarrow> go_error option) \<Rightarrow>
   string \<Rightarrow> string \<Rightarrow> go_error option" where
  "envoy_authz_server listen_on run_server network addr =
     (let services = [Authorization_service, Reflection_service]
      in case listen_on network addr of Inl err \<Rightarrow> Some err | Inr l \<Rightarrow> run_server services l)"

subsection \<open>The validation webhooks\<close>

definition http_webhook_compile ::
  "('env, 'ast, ('i, 'd, 'l, 'v) program) cel_lib \<Rightarrow> context_types \<Rightarrow> vpol_api \<Rightarrow> vpol \<Rightarrow> field_error list" where
  "http_webhook_compile C T api policy =
     (if api_evaluation_mode api (vp_spec policy) = EvaluationModeHTTP
      then (case compile_policy C T api policy of Inl err \<Rightarrow> err | Inr _ \<Rightarrow> [])
      else [])"

definition envoy_webhook_compile ::
  "('env, 'ast, ('i, 'd, 'l, 'v) program) cel_lib \<Rightarrow> context_types \<Rightarrow> vpol_api \<Rightarrow> vpol \<Rightarrow> field_error list" where
  "envoy_webhook_compile C T api policy =
     (if api_evaluation_mode api (vp_spec policy) = EvaluationModeEnvoy
      then (case compile_policy C T api policy of Inl err \<Rightarrow> err | Inr _ \<Rightarrow> [])
      else [])"

text \<open>The body of the webhook commands. It defers only the wait: the tasks cancel the context.\<close>

definition http_webhook_command :: "'fs serve_env \<Rightarrow> 'fs exit_of" where
  "http_webhook_command E =
     (case se_client_config E of
        Some err \<Rightarrow> leave (Some err) [] []
      | None \<Rightarrow>
     (case se_install E of
        Some err \<Rightarrow> leave (Some err) [Wait_group] []
      | None \<Rightarrow>
     (case se_manager E of
        Some err \<Rightarrow> leave (Some (Wrapf ''failed to construct manager'' err)) [Wait_group] []
      | None \<Rightarrow>
     (case se_controller E of
        Some err \<Rightarrow> leave (Some (Wrapf ''failed to create webhook'' err)) [Wait_group] []
      | None \<Rightarrow> leave None [Wait_group] [Manager_task, Probes_task]))))"

definition envoy_webhook_command :: "'fs serve_env \<Rightarrow> 'fs exit_of" where
  "envoy_webhook_command E =
     (case se_client_config E of
        Some err \<Rightarrow> leave (Some err) [] []
      | None \<Rightarrow>
     (case se_install E of
        Some err \<Rightarrow> leave (Some err) [Wait_group] []
      | None \<Rightarrow>
     (case se_manager E of
        Some err \<Rightarrow> leave (Some (Wrapf ''failed to construct manager'' err)) [Wait_group] []
      | None \<Rightarrow>
     (case se_controller E of
        Some err \<Rightarrow> leave (Some (Wrapf ''failed to create webhook'' err)) [Wait_group] []
      | None \<Rightarrow> leave None [Wait_group] [Manager_task, Probes_task]))))"

subsection \<open>The controller command, the sidecar injector and the version\<close>

definition create_manager :: "'fs serve_env \<Rightarrow> go_error option" where
  "create_manager E = (case se_install E of Some err \<Rightarrow> Some err | None \<Rightarrow> se_manager E)"

definition run_command :: "multierr \<Rightarrow> 'fs serve_env \<Rightarrow> 'fs exit_of" where
  "run_command M E =
     (case se_client_config E of
        Some err \<Rightarrow> leave (Some err) [] []
      | None \<Rightarrow>
     (case create_manager E of
        Some err \<Rightarrow> leave (Some (Wrapf ''failed to construct manager'' err)) [] []
      | None \<Rightarrow>
     (case se_controller E of
        Some err \<Rightarrow> leave (Some (Wrapf ''failed to setup controller'' err)) [] []
      | None \<Rightarrow> run_body M (se_cache_sync E) None None)))"

text \<open>\<open>run_server\<close> is running the injector's server until it stops.\<close>

definition sidecar_injector_command ::
  "go_error + string \<Rightarrow> (string \<Rightarrow> go_error + 'sc option) \<Rightarrow> ('sc option \<Rightarrow> go_error option) \<Rightarrow> go_error option" where
  "sidecar_injector_command data unmarshal run_server =
     (case load_sidecar data unmarshal of Inl err \<Rightarrow> Some err | Inr sidecar \<Rightarrow> run_server sidecar)"

text \<open>Writing a line to the output of the command may fail.\<close>

fun print_lines :: "('w \<Rightarrow> string \<Rightarrow> go_error option \<times> 'w) \<Rightarrow> string list \<Rightarrow> 'w \<Rightarrow> go_error option \<times> 'w" where
  "print_lines write [] w = (None, w)"
| "print_lines write (l # ls) w =
     (case write w l of
        (Some err, w') \<Rightarrow> (Some err, w')
      | (None, w') \<Rightarrow> print_lines write ls w')"

definition version_command ::
  "('w \<Rightarrow> string \<Rightarrow> go_error option \<times> 'w) \<Rightarrow> (string \<times> (string \<times> string) list) option \<Rightarrow> string \<Rightarrow> 'w \<Rightarrow>
   go_error option \<times> 'w" where
  "version_command write reader build_version w =
     print_lines write
       [''Version: '' @ fst (version reader build_version) @ [CHR 0x0A],
        ''Time: '' @ build_time reader @ [CHR 0x0A],
        ''Git commit ID: '' @ build_hash reader @ [CHR 0x0A]] w"

subsection \<open>Properties\<close>

text \<open>
  The HTTP authorization server has parameters of TLS exactly when \<open>RunHttp\<close> serves TLS with its
  files, and serves one route; with only one of the two files it serves plain HTTP.\<close>

theorem authz_http_server_tls:
  "authz_http_server (\<lambda>s cert key. (ws_tls s \<noteq> None, serves_tls cert key, ws_routes s)) config a =
     (serves_tls (hc_cert config) (hc_key config), serves_tls (hc_cert config) (hc_key config), authorizer_routes a)"
  by (simp add: authz_http_server_def serves_tls_def Let_def)

text \<open>
  The servers route as intended: the probes of both servers answer 200 to \<open>GET\<close> and \<open>HEAD\<close>,
  every method on \<open>/mutate\<close> is reviewed, the authorizer sees exactly the \<open>POST\<close> requests for
  \<open>/\<close>, another path has no route and another method is not allowed.\<close>

theorem servers_route:
  "(m \<in> {''GET'', ''HEAD''} \<and> path \<in> {''/livez'', ''/readyz''} \<longrightarrow>
     (\<exists>h. serve_mux probe_routes m path = Handled h \<and> serve_mux (sidecar_routes decode encode J scar) m path = Handled h \<and>
        h r fresh_writer = Ret (fresh_writer\<lparr>rw_status := Some 200\<rparr>))) \<and>
   serve_mux (sidecar_routes decode encode J scar) m ''/mutate'' = Handled (admission_review decode encode (mutate J scar)) \<and>
   (\<forall>h. serve_mux (authorizer_routes a) m path = Handled h \<longleftrightarrow> m = ''POST'' \<and> path = ''/'' \<and> h = a) \<and>
   (serve_mux (authorizer_routes a) m path = No_route \<longleftrightarrow> path \<noteq> ''/'')"
  by (auto simp: serve_mux_def probe_routes_def sidecar_routes_def authorizer_routes_def method_matches_def
      route_methods_def healthy_def ready_def write_header_def fresh_writer_def)

text \<open>C34:
  The webhooks admit what their servers can use: each webhook admits a policy exactly when it is
  not of its mode or compiles, on creation and on update alike. So both together admit a
  policy of an authorization mode exactly when it compiles, and every policy of another mode.\<close>

theorem webhooks_admit:
  "(validate_create (http_webhook_compile C T api) new_invalid (Policy_object p) = None \<longleftrightarrow>
      (api_evaluation_mode api (vp_spec p) = EvaluationModeHTTP \<longrightarrow> (\<exists>q. compile_policy C T api p = Inr q))) \<and>
   (validate_create (envoy_webhook_compile C' T api) new_invalid (Policy_object p) = None \<longleftrightarrow>
      (api_evaluation_mode api (vp_spec p) = EvaluationModeEnvoy \<longrightarrow> (\<exists>q. compile_policy C' T api p = Inr q))) \<and>
   validate_update (http_webhook_compile C T api) new_invalid old_obj (Policy_object p) =
     validate_create (http_webhook_compile C T api) new_invalid (Policy_object p)"
  using compile_errors_nonempty [of C T api p] compile_errors_nonempty [of C' T api p]
  by (auto simp: validate_create_def validate_update_def validate_vpol_def http_webhook_compile_def
      envoy_webhook_compile_def Let_def split: sum.split)

text \<open>C9:
  The webhook keeps the server whole: when every policy of the cluster is of the HTTP mode and
  was admitted by the HTTP webhook, the HTTP server with the cluster as its only source has all
  of them in force at every moment, in the order of their keys, each with the meaning the
  compiler gives it; none is dropped.\<close>

theorem admitted_policies_in_force:
  assumes "multierr_ok M" and "aggregate_ok agg"
    and "serve_http_command E opts = Left l" and "lf_source l = Some p"
    and "so_kube opts" and "so_external opts = []"
    and "src = provider_source M agg (policy_compiler M ops img C T api) read 0 p"
    and "keys_distinct (seen (cluster_events evs))"
    and "\<forall>q \<in> set (cluster_policies evs). api_evaluation_mode api (vp_spec q) = EvaluationModeHTTP \<and>
      validate_create (http_webhook_compile C T api) new_invalid (Policy_object q) = None"
  shows "\<exists>cps. map (compile_policy C T api) (cluster_policies evs) = map Inr cps \<and>
    items_of (src (fold (deploy_step src) evs (new_deployment e))) = map (cp_evaluate M ops img) cps"
proof -
  have "\<exists>c. compile_policy C T api q = Inr c" if "q \<in> set (cluster_policies evs)" for q
    using that assms(9) compile_errors_nonempty [of C T api q]
    by (cases "compile_policy C T api q")
      (auto simp: validate_create_def validate_vpol_def http_webhook_compile_def Let_def)
  then obtain f where f: "\<forall>q \<in> set (cluster_policies evs). compile_policy C T api q = Inr (f q)" by metis
  then have "agg (snd (policy_compiler M ops img C T api q)) = None" if "q \<in> set (cluster_policies evs)" for q
    using that assms(2) by (simp add: policy_compiler_def aggregate_ok_def)
  then have "items_of (src (fold (deploy_step src) evs (new_deployment e))) =
      map (\<lambda>q. fst (policy_compiler M ops img C T api q)) (cluster_policies evs)"
    using cluster_server [OF assms(1) disjI1 [OF assms(3)] assms(4-8), of e] by simp
  then show ?thesis
    using f by (intro exI [of _ "map f (cluster_policies evs)"]) (auto simp: policy_compiler_def)
qed

text \<open>
  The webhook command returns on every error before it has started a task, and otherwise when
  its manager or its probes end.\<close>

theorem webhook_command_returns:
  assumes "http_webhook_command E = Left l"
  shows "returns ends l = (lf_error l \<noteq> None \<or> ends Manager_task \<or> ends Probes_task) \<and>
    (lf_error l \<noteq> None \<longleftrightarrow> lf_tasks l = []) \<and> envoy_webhook_command E = http_webhook_command E"
  using assms
  by (auto simp: http_webhook_command_def envoy_webhook_command_def leave_def returns_def tasks_end_def cancels_def
      split: option.splits)

text \<open>Printing the version stops at the first line that cannot be written.\<close>

lemma print_lines_ok:
  "\<forall>w l. fst (write w l) = None \<Longrightarrow> print_lines write ls w = (None, fold (\<lambda>l w. snd (write w l)) ls w)"
  by (induction ls arbitrary: w) (auto split: prod.split option.split simp: prod_eq_iff)

lemma run_command_errors:
  "multierr_ok M \<Longrightarrow> \<exists>l. run_command M E = Left l \<and>
     (lf_error l = None \<longleftrightarrow> se_client_config E = None \<and> create_manager E = None \<and> se_controller E = None \<and>
        se_cache_sync E)"
  by (auto simp: run_command_def run_body_def leave_def multierr_combine_None split: option.split)

subsection \<open>Witnesses\<close>

theorem servers_route_witness:
  "\<exists>h. serve_mux probe_routes ''HEAD'' ''/livez'' = Handled h \<and>
     h example_request fresh_writer = Ret (fresh_writer\<lparr>rw_status := Some 200\<rparr>)"
  using servers_route [of "''HEAD''" "''/livez''" "\<lambda>_. Inl (Errorf ''x'')" "\<lambda>_ _. Inl (Errorf ''x'')" char_json None
      example_request "()"] by auto

lemma deny_mode: "api_evaluation_mode kyverno_api (vp_spec (deny_policy r)) = EvaluationModeHTTP"
  by (simp add: deny_policy_def kyverno_api_def EvaluationModeHTTP_def)

theorem webhooks_admit_witness:
  "validate_create (http_webhook_compile deny_cel example_types kyverno_api) (\<lambda>n _. Errorf n)
     (Policy_object (deny_policy ''deny'')) = None \<and>
   validate_create (http_webhook_compile deny_cel example_types kyverno_api) (\<lambda>n _. Errorf n)
     (Policy_object (deny_policy ''oops'')) \<noteq> None"
  using webhooks_admit [of deny_cel example_types kyverno_api "\<lambda>n _. Errorf n" "deny_policy ''deny''" deny_cel]
    webhooks_admit [of deny_cel example_types kyverno_api "\<lambda>n _. Errorf n" "deny_policy ''oops''" deny_cel]
    deny_compiles deny_rejected deny_mode by auto

theorem admitted_policies_in_force_witness:
  "\<exists>p. items_of (deny_source p (fold (deploy_step (deny_source p)) [Cluster ''p'' (Found (deny_policy ''deny''))]
      (new_deployment ()))) = [cp_evaluate multierr_list deny_ops (Inr ()) deny_compiled]"
proof -
  obtain l p where l: "serve_http_command good_env kube_opts = Left l" "lf_source l = Some p"
    using kube_opts_serve by blast
  let ?q = "deny_policy ''deny''" and ?evs = "[Cluster ''p'' (Found (deny_policy ''deny''))]"
  have pols: "cluster_policies ?evs = [?q]" by (rule one_policy_cluster)
  have adm: "\<forall>q \<in> set (cluster_policies ?evs). api_evaluation_mode kyverno_api (vp_spec q) = EvaluationModeHTTP \<and>
      validate_create (http_webhook_compile deny_cel example_types kyverno_api) (\<lambda>n _. Errorf n) (Policy_object q) = None"
    unfolding pols using deny_compiles deny_mode
    by (simp add: validate_create_def validate_vpol_def http_webhook_compile_def Let_def)
  show ?thesis
    using admitted_policies_in_force [where src = "deny_source p" and read = "\<lambda>fs e. ([], None)" and e = "()"
        and evs = ?evs and agg = aggregate_list, OF multierr_list_ok aggregate_list_ok l kube_opts_sel refl
          one_policy_keys adm]
    unfolding pols by (intro exI [of _ p]) (auto simp: deny_compiles map_eq_Cons_conv)
qed

theorem webhook_command_returns_witness:
  "\<exists>l. http_webhook_command good_env = Left l \<and> returns (\<lambda>t. t = Probes_task) l \<and> \<not> returns (\<lambda>_. False) l"
proof -
  obtain l where l: "http_webhook_command good_env = Left l" "lf_error l = None"
    by (simp add: http_webhook_command_def leave_def good_env_def)
  with webhook_command_returns [OF l(1)] show ?thesis by auto
qed

end
