(* ===== verification/Context_Libs.thy ===== *)
theory Context_Libs
  imports Engine_Sources
begin

section \<open>Context libraries of policies and the document loader\<close>

text \<open>
  Models \<open>pkg/engine/variables\<close>, the functions behind the \<open>resource\<close> and \<open>image\<close> variables of CEL,
  \<open>pkg/data/data.go\<close> and the loader of \<open>pkg/engine/sources/fs.go\<close>. The dynamic client of
  Kubernetes (over the state of the cluster), the image data loader and embedded files are
  third-party: parameters.
\<close>

subsection \<open>Resources\<close>

text \<open>A client for a resource of an API group and version, in all namespaces or in one.\<close>

datatype 'gv resource_client = Resource 'gv string | In_namespace 'gv string string

record ('gv, 'l, 'u, 's) dynamic_client =
  dc_parse :: "string \<Rightarrow> go_error + 'gv"
  dc_list :: "'gv resource_client \<Rightarrow> 's \<Rightarrow> go_error + 'l"
  dc_get :: "'gv resource_client \<Rightarrow> string \<Rightarrow> 's \<Rightarrow> go_error + 'u"
  dc_create :: "'gv resource_client \<Rightarrow> 'u \<Rightarrow> 's \<Rightarrow> (go_error + 'u) \<times> 's"

definition get_resource_client :: "'gv \<Rightarrow> string \<Rightarrow> string \<Rightarrow> 'gv resource_client" where
  "get_resource_client gv res namespace =
     (if namespace \<noteq> [] then In_namespace gv res namespace else Resource gv res)"

definition list_resources :: "('gv, 'l, 'u, 's) dynamic_client \<Rightarrow> string \<Rightarrow> string \<Rightarrow> string \<Rightarrow> 's \<Rightarrow> go_error + 'l" where
  "list_resources K api_version res namespace s =
     (case dc_parse K api_version of
        Inl err \<Rightarrow> Inl err
      | Inr gv \<Rightarrow> dc_list K (get_resource_client gv res namespace) s)"

definition get_resource ::
  "('gv, 'l, 'u, 's) dynamic_client \<Rightarrow> string \<Rightarrow> string \<Rightarrow> string \<Rightarrow> string \<Rightarrow> 's \<Rightarrow> go_error + 'u" where
  "get_resource K api_version res namespace name s =
     (case dc_parse K api_version of
        Inl err \<Rightarrow> Inl err
      | Inr gv \<Rightarrow> dc_get K (get_resource_client gv res namespace) name s)"

definition post_resource ::
  "('gv, 'l, 'u, 's) dynamic_client \<Rightarrow> string \<Rightarrow> string \<Rightarrow> string \<Rightarrow> 'u \<Rightarrow> 's \<Rightarrow> (go_error + 'u) \<times> 's" where
  "post_resource K api_version res namespace obj s =
     (case dc_parse K api_version of
        Inl err \<Rightarrow> (Inl err, s)
      | Inr gv \<Rightarrow> dc_create K (get_resource_client gv res namespace) obj s)"

lemma unparsable_version:
  "dc_parse K v = Inl err \<Longrightarrow>
   list_resources K v res namespace s = Inl err \<and> get_resource K v res namespace name s = Inl err \<and>
   post_resource K v res namespace obj s = (Inl err, s)"
  by (simp add: list_resources_def get_resource_def post_resource_def)

subsection \<open>Images\<close>

definition new_image_data :: "go_error + 'idl \<Rightarrow> go_error + 'idl" where
  "new_image_data idl = (case idl of Inl err \<Rightarrow> Inl err | Inr idl \<Rightarrow> Inr idl)"

definition get_image_data ::
  "('idl \<Rightarrow> string \<Rightarrow> go_error + 'data) \<Rightarrow> ('data \<Rightarrow> go_error + 'obj) \<Rightarrow> 'idl \<Rightarrow> string \<Rightarrow> go_error + 'obj" where
  "get_image_data fetch get_val idl img_ref =
     (case fetch idl img_ref of Inl err \<Rightarrow> Inl err | Inr data \<Rightarrow> get_val data)"

subsection \<open>The loader of documents\<close>

text \<open>
  \<open>sync.OnceValues\<close> of the standard library: the first call computes, and every call gives what it
  gave. \<open>sub\<close> is \<open>fs.Sub\<close>, \<open>new_loader\<close> builds a loader over the definitions of resources.
\<close>

definition once_values :: "('e \<Rightarrow> go_error + 'a) \<Rightarrow> 'e \<Rightarrow> (go_error + 'a) option \<Rightarrow> (go_error + 'a) \<times> (go_error + 'a) option" where
  "once_values f e memo = (case memo of Some r \<Rightarrow> (r, memo) | None \<Rightarrow> (f e, Some (f e)))"

definition crds_folder :: string where
  "crds_folder = ''crds''"

definition crds :: "('fs \<Rightarrow> string \<Rightarrow> go_error + 'fs) \<Rightarrow> 'fs \<Rightarrow> go_error + 'fs" where
  "crds sub crds_fs = sub crds_fs crds_folder"

definition default_loader ::
  "(go_error + 'fs) \<Rightarrow> ('fs \<Rightarrow> go_error + 'ldr) \<Rightarrow> (go_error + 'fs) option \<Rightarrow> go_error + 'ldr" where
  "default_loader data_crds new_loader fs_fun =
     (case (case fs_fun of None \<Rightarrow> data_crds | Some r \<Rightarrow> r) of
        Inl err \<Rightarrow> Inl err
      | Inr crds_fs \<Rightarrow> new_loader crds_fs)"

lemma once_values_sticky: "once_values f e memo = (r, memo') \<Longrightarrow> once_values f e' memo' = (r, memo')"
  by (auto simp: once_values_def split: option.splits)

text \<open>
  A loader that could not be built is never built again: no document is loaded, each one is
  reported with the error of the first attempt.\<close>

lemma failed_loader_is_sticky:
  assumes "once_values f e None = (Inl err, memo)"
  shows "load_document (fst (once_values f e' memo)) convert doc = (None, Some (Wrapf ''failed to load CRDs'' err))"
  using once_values_sticky [OF assms, of e'] by (simp add: load_document_def)

end
