(* ===== verification/Command_Flags.thy ===== *)
theory Command_Flags
  imports Prelude
begin

section \<open>The commands and their flags\<close>

text \<open>
  The tree of commands in \<open>pkg/commands\<close> and the flags each defines, with their defaults, as
  data. Parsing a command line is third-party, and so are the flags of the Kubernetes
  configuration. Durations are in seconds.
\<close>

datatype flag_default = String_flag string | Strings_flag | Bool_flag bool | Duration_flag int

type_synonym flags = "(string \<times> flag_default) list"

datatype command = Command string "command list"

definition run_tree :: command where
  "run_tree = Command ''run'' []"

definition version_tree :: command where
  "version_tree = Command ''version'' []"

definition envoy_tree :: command where
  "envoy_tree = Command ''envoy'' [Command ''authz-server'' [], Command ''validation-webhook'' []]"

definition http_tree :: command where
  "http_tree = Command ''http'' [Command ''authz-server'' [], Command ''validation-webhook'' []]"

definition serve_tree :: command where
  "serve_tree = Command ''serve''
     [envoy_tree, http_tree, Command ''control-plane'' [], Command ''sidecar-injector'' []]"

definition root_tree :: command where
  "root_tree = Command ''kyverno-envoy-plugin'' [run_tree, serve_tree, version_tree]"

text \<open>The main program exits with 1 when the command it executes fails.\<close>

definition main_exit_code :: "go_error option \<Rightarrow> int" where
  "main_exit_code err = (if err \<noteq> None then 1 else 0)"

definition run_flags :: flags where
  "run_flags =
     [(''probes-address'', String_flag '':9080''), (''metrics-address'', String_flag '':9082''),
      (''leader-election'', Bool_flag False), (''leader-election-id'', String_flag []),
      (''cert-file'', String_flag []), (''key-file'', String_flag []), (''nested-request'', Bool_flag False)]"

definition http_flags :: flags where
  "http_flags =
     [(''probes-address'', String_flag '':9080''), (''metrics-address'', String_flag '':9082''),
      (''external-policy-source'', Strings_flag), (''image-pull-secret'', Strings_flag),
      (''allow-insecure-registry'', Bool_flag False), (''kube-policy-source'', Bool_flag True),
      (''server-address'', String_flag '':9083''), (''nested-request'', Bool_flag False),
      (''control-plane-reconnect-wait'', Duration_flag 3), (''control-plane-max-dial-interval'', Duration_flag 8),
      (''health-check-interval'', Duration_flag 30), (''control-plane-address'', String_flag []),
      (''input-expression'', String_flag []), (''output-expression'', String_flag []),
      (''cert-file'', String_flag []), (''key-file'', String_flag [])]"

definition envoy_flags :: flags where
  "envoy_flags =
     [(''probes-address'', String_flag '':9080''), (''grpc-address'', String_flag '':9081''),
      (''grpc-network'', String_flag ''tcp''), (''metrics-address'', String_flag '':9082''),
      (''external-policy-source'', Strings_flag), (''image-pull-secret'', Strings_flag),
      (''allow-insecure-registry'', Bool_flag False), (''kube-policy-source'', Bool_flag True)]"

definition control_plane_flags :: flags where
  "control_plane_flags =
     [(''initial-send-wait'', Duration_flag 5), (''max-send-interval'', Duration_flag 10),
      (''client-flush-interval'', Duration_flag 180), (''max-client-inactive-duration'', Duration_flag 240),
      (''probes-address'', String_flag '':9080''), (''grpc-address'', String_flag '':9081''),
      (''grpc-network'', String_flag ''tcp''), (''metrics-address'', String_flag '':9082''),
      (''leader-election'', Bool_flag False), (''leader-election-id'', String_flag [])]"

definition http_webhook_flags :: flags where
  "http_webhook_flags = [(''probes-address'', String_flag '':9080''), (''metrics-address'', String_flag '':9082'')]"

definition envoy_webhook_flags :: flags where
  "envoy_webhook_flags = [(''probes-address'', String_flag '':9080''), (''metrics-address'', String_flag '':9082'')]"

definition sidecar_flags :: flags where
  "sidecar_flags =
     [(''address'', String_flag '':9443''), (''cert-file'', String_flag []), (''key-file'', String_flag []),
      (''config-file'', String_flag [])]"

subsection \<open>Properties\<close>

fun command_paths :: "command \<Rightarrow> string list list" where
  "command_paths (Command n cs) = [n] # map (\<lambda>p. n # p) (concat (map command_paths cs))"

definition addresses :: "flags \<Rightarrow> string list" where
  "addresses fs = concat (map (\<lambda>(n, d). case d of String_flag a \<Rightarrow> (if a \<noteq> [] \<and> hd a = CHR '':'' then [a] else []) | _ \<Rightarrow> []) fs)"

definition flags_ok :: "flags \<Rightarrow> bool" where
  "flags_ok fs \<longleftrightarrow> distinct (map fst fs) \<and> distinct (addresses fs)"

lemma command_tree_unambiguous: "distinct (command_paths root_tree) \<and> length (command_paths root_tree) = 12"
  by code_simp

text \<open>No command defines a flag twice or listens on one default address for two of its servers.\<close>

lemma default_flags_ok:
  "list_all flags_ok [run_flags, http_flags, envoy_flags, control_plane_flags, http_webhook_flags,
     envoy_webhook_flags, sidecar_flags]"
  by code_simp

lemma default_durations:
  "map_of http_flags ''health-check-interval'' = Some (Duration_flag 30)"
  "map_of control_plane_flags ''client-flush-interval'' = Some (Duration_flag 180)"
  "map_of control_plane_flags ''max-client-inactive-duration'' = Some (Duration_flag 240)"
  by code_simp+

end
