(* ===== verification/Run_Reconciler.thy ===== *)
theory Run_Reconciler
  imports Policy_Types
begin

section \<open>The controller of authorization servers\<close>

text \<open>
  Models \<open>pkg/commands/run/reconciler.go\<close> over the resource types of
  \<open>apis/v1alpha1/authzserver.go\<close>: which server a reconciliation starts, with which
  configuration and sources, and what a deletion stops. A server is a value (its kind, address,
  options and sources); \<open>run_env\<close> holds the answers of the Kubernetes client libraries and of
  the file systems; the answer to the creation of a Kubernetes source may depend on the sources
  built before it. Each handler runs under the reconciler's lock. A panic is the outcome \<open>Panic\<close>; the
  controller library recovers it, as it does by default, and treats it as an error of the reconciliation.
\<close>

subsection \<open>The resource\<close>

record envoy_server_spec =
  es_network :: string
  es_address :: string

record modifiers =
  md_request :: string
  md_response :: string

record http_server_spec =
  hv_address :: string
  hv_nested :: bool
  hv_modifiers :: "modifiers option"

record oci_spec =
  oc_url :: string
  oc_insecure :: bool
  oc_secrets :: "string list"

record policy_source_spec =
  so_kubernetes :: bool
  so_fs :: "string option"
  so_git :: "string option"
  so_oci :: "oci_spec option"

record authz_server =
  as_name :: string
  as_namespace :: string
  as_envoy :: "envoy_server_spec option"
  as_http :: "http_server_spec option"
  as_sources :: "policy_source_spec list"

subsection \<open>Sources\<close>

datatype 'fs server_source = From_kube string | From_fs 'fs

record 'fs run_env =
  rn_client_config :: "go_error option"
  rn_dynamic :: "go_error option"
  rn_install :: "go_error option"
  rn_manager :: "go_error option"
  rn_cache_sync :: bool
  rn_kube_source :: "'fs server_source list \<Rightarrow> string \<Rightarrow> go_error option"
  rn_parse :: "string \<Rightarrow> go_error option"
  rn_git :: "string \<Rightarrow> go_error + 'fs"
  rn_file :: "string \<Rightarrow> go_error + 'fs"
  rn_clientset :: "go_error option"
  rn_registry :: "string \<Rightarrow> oci_spec \<Rightarrow> go_error option"
  rn_oci :: "string \<Rightarrow> go_error + 'fs"

text \<open>The steps of one loop turn: each adds its source, ends with an error or panics.\<close>

type_synonym 'fs build = "(go_error + 'fs server_source list) outcome"

definition bind_build :: "'fs build \<Rightarrow> ('fs server_source list \<Rightarrow> 'fs build) \<Rightarrow> 'fs build" where
  "bind_build b f =
     (case b of
        Panic m \<Rightarrow> Panic m
      | Ret (Inl err) \<Rightarrow> Ret (Inl err)
      | Ret (Inr out) \<Rightarrow> f out)"

definition add_kube :: "'fs run_env \<Rightarrow> string \<Rightarrow> policy_source_spec \<Rightarrow> 'fs server_source list \<Rightarrow> 'fs build" where
  "add_kube E server src out =
     (if \<not> so_kubernetes src then Ret (Inr out)
      else case rn_kube_source E out server of
        Some err \<Rightarrow> Ret (Inl (Wrapf ''failed to create kube source'' err))
      | None \<Rightarrow> Ret (Inr (out @ [From_kube server])))"

definition open_fs ::
  "'fs run_env \<Rightarrow> string \<Rightarrow> (string \<Rightarrow> go_error + 'fs) \<Rightarrow> 'fs server_source list \<Rightarrow> 'fs build" where
  "open_fs E url new out =
     (case rn_parse E url of
        Some err \<Rightarrow> Ret (Inl err)
      | None \<Rightarrow>
          (case new url of
             Inl err \<Rightarrow> Ret (Inl err)
           | Inr fsys \<Rightarrow> Ret (Inr (out @ [From_fs fsys]))))"

text \<open>The Git source reads the path of the file-system source, which may be nil.\<close>

definition add_git :: "'fs run_env \<Rightarrow> policy_source_spec \<Rightarrow> 'fs server_source list \<Rightarrow> 'fs build" where
  "add_git E src out =
     (case so_git src of
        None \<Rightarrow> Ret (Inr out)
      | Some url \<Rightarrow>
          (case so_fs src of
             None \<Rightarrow> Panic ''nil pointer dereference''
           | Some path \<Rightarrow> open_fs E (''file://'' @ path) (rn_git E) out))"

definition add_fs :: "'fs run_env \<Rightarrow> policy_source_spec \<Rightarrow> 'fs server_source list \<Rightarrow> 'fs build" where
  "add_fs E src out =
     (case so_fs src of
        None \<Rightarrow> Ret (Inr out)
      | Some path \<Rightarrow> open_fs E (''file://'' @ path) (rn_file E) out)"

definition add_oci :: "'fs run_env \<Rightarrow> string \<Rightarrow> policy_source_spec \<Rightarrow> 'fs server_source list \<Rightarrow> 'fs build" where
  "add_oci E namespace src out =
     (case so_oci src of
        None \<Rightarrow> Ret (Inr out)
      | Some oci \<Rightarrow>
          (case rn_parse E (oc_url oci) of
             Some err \<Rightarrow> Ret (Inl err)
           | None \<Rightarrow>
               (case rn_clientset E of
                  Some err \<Rightarrow> Ret (Inl err)
                | None \<Rightarrow>
                    (case rn_registry E namespace oci of
                       Some err \<Rightarrow> Ret (Inl err)
                     | None \<Rightarrow>
                         (case rn_oci E (oc_url oci) of
                            Inl err \<Rightarrow> Ret (Inl err)
                          | Inr fsys \<Rightarrow> Ret (Inr (out @ [From_fs fsys])))))))"

fun build_sources ::
  "'fs run_env \<Rightarrow> string \<Rightarrow> string \<Rightarrow> policy_source_spec list \<Rightarrow> 'fs server_source list \<Rightarrow> 'fs build" where
  "build_sources E server namespace [] out = Ret (Inr out)"
| "build_sources E server namespace (src # srcs) out =
     bind_build (add_kube E server src out) (\<lambda>out.
       bind_build (add_git E src out) (\<lambda>out.
         bind_build (add_fs E src out) (\<lambda>out.
           bind_build (add_oci E namespace src out) (build_sources E server namespace srcs))))"

subsection \<open>Servers\<close>

datatype 'fs server_entry =
    Envoy_entry string string "'fs server_source list"
  | Http_entry string bool string string string string "'fs server_source list"

text \<open>\<open>rc_managers\<close> counts the managers that were started and whose tasks were not waited for.\<close>

record ('req, 'fs) run_state =
  rc_servers :: "('req, 'fs server_entry) gomap"
  rc_cert :: string
  rc_key :: string
  rc_managers :: nat

definition setup_reconciler :: "('req, 'fs) run_state" where
  "setup_reconciler = \<lparr>rc_servers = [], rc_cert = [], rc_key = [], rc_managers = 0\<rparr>"

text \<open>
  What both handlers do before they build a server; the continuation gets the state with the
  manager running. After a failed cache sync the context is cancelled, which stops the manager.
\<close>

definition with_manager ::
  "'fs run_env \<Rightarrow> ('req, 'fs) run_state \<Rightarrow>
   (('req, 'fs) run_state \<Rightarrow> (go_error option \<times> ('req, 'fs) run_state) outcome) \<Rightarrow>
   (go_error option \<times> ('req, 'fs) run_state) outcome" where
  "with_manager E s k =
     (case rn_client_config E of Some err \<Rightarrow> Ret (Some err, s) | None \<Rightarrow>
     (case rn_dynamic E of Some err \<Rightarrow> Ret (Some err, s) | None \<Rightarrow>
     (case rn_install E of Some err \<Rightarrow> Ret (Some err, s) | None \<Rightarrow>
     (case rn_manager E of Some err \<Rightarrow> Ret (Some (Wrapf ''failed to construct manager'' err), s) | None \<Rightarrow>
        if \<not> rn_cache_sync E then Ret (Some (Errorf ''failed to wait for cache sync''), s)
        else k (s\<lparr>rc_managers := Suc (rc_managers s)\<rparr>)))))"

definition run_envoy_server ::
  "'fs run_env \<Rightarrow> 'req \<Rightarrow> authz_server \<Rightarrow> ('req, 'fs) run_state \<Rightarrow>
   (go_error option \<times> ('req, 'fs) run_state) outcome" where
  "run_envoy_server E req obj s =
     (case map_of (rc_servers s) req of
        Some server \<Rightarrow> Ret (None, s)
      | None \<Rightarrow> with_manager E s (\<lambda>s.
          case build_sources E (as_name obj) (as_namespace obj) (as_sources obj) [] of
            Panic m \<Rightarrow> Panic m
          | Ret (Inl err) \<Rightarrow> Ret (Some (Wrapf ''failed to build engine source'' err), s)
          | Ret (Inr src) \<Rightarrow>
              (case as_envoy obj of
                 None \<Rightarrow> Panic ''nil pointer dereference''
               | Some spec \<Rightarrow>
                   Ret (None, s\<lparr>rc_servers :=
                     AList.update req (Envoy_entry (es_network spec) (es_address spec) src) (rc_servers s)\<rparr>))))"

definition run_http_server ::
  "'fs run_env \<Rightarrow> 'req \<Rightarrow> authz_server \<Rightarrow> ('req, 'fs) run_state \<Rightarrow>
   (go_error option \<times> ('req, 'fs) run_state) outcome" where
  "run_http_server E req obj s =
     (case map_of (rc_servers s) req of
        Some server \<Rightarrow> Ret (None, s)
      | None \<Rightarrow> with_manager E s (\<lambda>s.
          case build_sources E (as_name obj) (as_namespace obj) (as_sources obj) [] of
            Panic m \<Rightarrow> Panic m
          | Ret (Inl err) \<Rightarrow> Ret (Some (Wrapf ''failed to build engine source'' err), s)
          | Ret (Inr src) \<Rightarrow>
              (case as_http obj of
                 None \<Rightarrow> Panic ''nil pointer dereference''
               | Some spec \<Rightarrow>
                   (case hv_modifiers spec of
                      None \<Rightarrow> Panic ''nil pointer dereference''
                    | Some m \<Rightarrow>
                        Ret (None, s\<lparr>rc_servers := AList.update req
                          (Http_entry (hv_address spec) (hv_nested spec) (md_request m) (md_response m)
                             (rc_cert s) (rc_key s) src) (rc_servers s)\<rparr>)))))"

text \<open>Both conditions of \<open>runServer\<close> test the Envoy type. The environments of the two calls may differ.\<close>

definition run_server ::
  "multierr \<Rightarrow> 'fs run_env \<Rightarrow> 'fs run_env \<Rightarrow> 'req \<Rightarrow> authz_server \<Rightarrow> ('req, 'fs) run_state \<Rightarrow>
   (go_error option \<times> ('req, 'fs) run_state) outcome" where
  "run_server M E1 E2 req obj s =
     bind_outcome (if as_envoy obj \<noteq> None then run_envoy_server E1 req obj s else Ret (None, s))
       (\<lambda>(envoyErr, s).
         bind_outcome (if as_envoy obj \<noteq> None then run_http_server E2 req obj s else Ret (None, s))
           (\<lambda>(httpErr, s). Ret (m_combine M [envoyErr, httpErr], s)))"

text \<open>Stopping cancels the server, waits for its tasks and combines their errors.\<close>

definition stop_server ::
  "multierr \<Rightarrow> go_error option \<Rightarrow> go_error option \<Rightarrow> 'req \<Rightarrow> ('req, 'fs) run_state \<Rightarrow>
   go_error option \<times> ('req, 'fs) run_state" where
  "stop_server M server_err mgr_err req s =
     (case map_of (rc_servers s) req of
        None \<Rightarrow> (None, s)
      | Some server \<Rightarrow>
          (m_combine M [server_err, mgr_err],
           s\<lparr>rc_servers := AList.delete req (rc_servers s), rc_managers := rc_managers s - 1\<rparr>))"

datatype object_answer = Object_found authz_server | Object_not_found | Object_error go_error

definition run_reconcile ::
  "multierr \<Rightarrow> 'fs run_env \<Rightarrow> 'fs run_env \<Rightarrow> go_error option \<Rightarrow> go_error option \<Rightarrow> 'req \<Rightarrow> object_answer \<Rightarrow>
   ('req, 'fs) run_state \<Rightarrow> (go_error option \<times> ('req, 'fs) run_state) outcome" where
  "run_reconcile M E1 E2 server_err mgr_err req answer s =
     (case answer of
        Object_not_found \<Rightarrow> Ret (stop_server M server_err mgr_err req s)
      | Object_error err \<Rightarrow> Ret (Some err, s)
      | Object_found obj \<Rightarrow> run_server M E1 E2 req obj s)"

text \<open>
  The controller over time: its reconciliations, each with what the cluster answers, and the end
  of a server's task (an address in use, a failed listener). A task that ends cancels the context
  of its server, so the server's other tasks end too; its entry stays where it is.
\<close>

record ('req, 'fs) controller =
  co_state :: "('req, 'fs) run_state"
  co_ended :: "'req list"

datatype ('req, 'fs) controller_event =
    Reconciled_server 'req object_answer "'fs run_env" "'fs run_env"
  | Task_ended 'req

fun controller_step ::
  "multierr \<Rightarrow> ('req, 'fs) controller_event \<Rightarrow> ('req, 'fs) controller \<Rightarrow> ('req, 'fs) controller outcome" where
  "controller_step M (Reconciled_server req answer E1 E2) c =
     (case run_reconcile M E1 E2 None None req answer (co_state c) of
        Panic m \<Rightarrow> Panic m
      | Ret (err, s) \<Rightarrow> Ret (c\<lparr>co_state := s,
          co_ended := (if answer = Object_not_found then removeAll req (co_ended c) else co_ended c)\<rparr>))"
| "controller_step M (Task_ended req) c =
     Ret (if map_of (rc_servers (co_state c)) req = None then c else c\<lparr>co_ended := req # co_ended c\<rparr>)"

fun controller_run ::
  "multierr \<Rightarrow> ('req, 'fs) controller_event list \<Rightarrow> ('req, 'fs) controller \<Rightarrow> ('req, 'fs) controller outcome" where
  "controller_run M [] c = Ret c"
| "controller_run M (ev # evs) c = bind_outcome (controller_step M ev c) (controller_run M evs)"

subsection \<open>Facts\<close>

lemma bind_build_simps [simp]:
  "bind_build (Panic m) f = Panic m"
  "bind_build (Ret (Inl err)) f = Ret (Inl err)"
  "bind_build (Ret (Inr out)) f = f out"
  by (simp_all add: bind_build_def)

lemma add_kube_no_panic: "add_kube E n src out \<noteq> Panic m"
  by (simp add: add_kube_def split: option.split)

lemma run_server_existing:
  "multierr_ok M \<Longrightarrow> map_of (rc_servers s) req = Some entry \<Longrightarrow> run_server M E1 E2 req obj s = Ret (None, s)"
  by (simp add: run_server_def run_envoy_server_def run_http_server_def multierr_combine_None)

lemma run_reconcile_other:
  "run_reconcile M E1 E2 se me req' answer s = Ret (err, s') \<Longrightarrow> req \<noteq> req' \<Longrightarrow>
   map_of (rc_servers s') req = map_of (rc_servers s) req"
  by (auto simp: run_reconcile_def run_server_def run_envoy_server_def run_http_server_def with_manager_def
      stop_server_def bind_outcome_eq_Ret split: object_answer.splits option.splits outcome.splits sum.splits if_splits)

lemma run_reconcile_stored:
  assumes "multierr_ok M" and "map_of (rc_servers s) req = Some entry" and "answer \<noteq> Object_not_found"
    and "run_reconcile M E1 E2 se me req answer s = Ret (err, s')"
  shows "s' = s"
  using assms run_server_existing [OF assms(1,2), of E1 E2]
  by (cases answer) (simp_all add: run_reconcile_def)

text \<open>A stored server whose task ended.\<close>

definition dead :: "'req \<Rightarrow> 'fs server_entry \<Rightarrow> ('req, 'fs) controller \<Rightarrow> bool" where
  "dead req entry c \<longleftrightarrow> map_of (rc_servers (co_state c)) req = Some entry \<and> req \<in> set (co_ended c)"

lemma dead_step:
  assumes "multierr_ok M" and "dead req entry c" and "\<forall>E1 E2. ev \<noteq> Reconciled_server req Object_not_found E1 E2"
    and "controller_step M ev c = Ret c'"
  shows "dead req entry c'"
proof (cases ev)
  case (Reconciled_server req' answer E1 E2)
  with assms(4) obtain err s where s: "run_reconcile M E1 E2 None None req' answer (co_state c) = Ret (err, s)"
    and c': "c' = c\<lparr>co_state := s,
      co_ended := (if answer = Object_not_found then removeAll req' (co_ended c) else co_ended c)\<rparr>"
    by (auto split: outcome.splits prod.splits)
  have "map_of (rc_servers s) req = Some entry"
  proof (cases "req = req'")
    case True
    with assms(1-3) s Reconciled_server run_reconcile_stored [of M "co_state c" req entry answer E1 E2 None None err s]
    show ?thesis by (auto simp: dead_def)
  next
    case False
    with assms(2) run_reconcile_other [OF s, of req] show ?thesis by (simp add: dead_def)
  qed
  moreover have "req \<in> set (co_ended c')" using assms(2,3) Reconciled_server by (auto simp: dead_def c')
  ultimately show ?thesis by (simp add: dead_def c')
next
  case (Task_ended req')
  with assms(2,4) show ?thesis by (auto simp: dead_def split: if_splits)
qed

subsection \<open>Properties\<close>

text \<open>
  A server whose task ended by itself is not started again: its entry stays stored and no later
  reconciliation of its resource, of any version, or of any other resource changes that, until the
  resource is deleted.\<close>

theorem ended_server_stays_down:
  assumes "multierr_ok M" and "dead req entry c"
    and "\<forall>E1 E2. Reconciled_server req Object_not_found E1 E2 \<notin> set evs"
    and "controller_run M evs c = Ret c'"
  shows "dead req entry c'"
  using assms(2-4)
proof (induction evs arbitrary: c)
  case (Cons ev evs)
  then obtain c1 where c1: "controller_step M ev c = Ret c1" "controller_run M evs c1 = Ret c'"
    by (auto simp: bind_outcome_eq_Ret)
  with Cons.prems have "dead req entry c1" by (intro dead_step [OF assms(1) _ _ c1(1)]) auto
  with Cons c1 show ?case by auto
qed simp

text \<open>
  A server of the HTTP type is never started: reconciling a resource that has only the HTTP
  type changes nothing and reports no error, whatever the cluster answers.\<close>

theorem http_type_never_starts:
  assumes "multierr_ok M" and "as_envoy obj = None"
  shows "run_reconcile M E1 E2 se me req (Object_found obj) s = Ret (None, s)"
  using assms by (simp add: run_reconcile_def run_server_def multierr_combine_None)

text \<open>
  A server of the Envoy type is started once: a reconciliation that succeeds stores, under its
  request, the network, the address and the sources of the resource; later reconciliations of
  any version of the resource leave the server as it is, so a change of the resource has no
  effect; and the deletion of the resource removes it and reports the errors of its tasks.\<close>

theorem envoy_server_lifecycle:
  assumes "multierr_ok M" and "as_envoy obj = Some spec" and "map_of (rc_servers s) req = None"
    and "run_reconcile M E1 E2 se me req (Object_found obj) s = Ret (None, s')"
  shows "(\<exists>src. build_sources E1 (as_name obj) (as_namespace obj) (as_sources obj) [] = Ret (Inr src) \<and>
      map_of (rc_servers s') req = Some (Envoy_entry (es_network spec) (es_address spec) src)) \<and>
    run_reconcile M E3 E4 se me req (Object_found obj') s' = Ret (None, s') \<and>
    (\<exists>s''. run_reconcile M E3 E4 se me req Object_not_found s' = Ret (m_combine M [se, me], s'') \<and>
      map_of (rc_servers s'') = (map_of (rc_servers s')) (req := None))"
proof -
  from assms(2,4) obtain e1 s1 e2 where envoy: "run_envoy_server E1 req obj s = Ret (e1, s1)"
    and http: "run_http_server E2 req obj s1 = Ret (e2, s')" and none: "m_combine M [e1, e2] = None"
    by (auto simp: run_reconcile_def run_server_def bind_outcome_eq_Ret)
  from none have "e1 = None" using multierr_combine_None [OF assms(1)] by simp
  with envoy assms(2,3) obtain src where src:
    "build_sources E1 (as_name obj) (as_namespace obj) (as_sources obj) [] = Ret (Inr src)"
    "map_of (rc_servers s1) req = Some (Envoy_entry (es_network spec) (es_address spec) src)"
    by (auto simp: run_envoy_server_def with_manager_def split: option.splits outcome.splits sum.splits if_splits)
  with http have "s' = s1" by (simp add: run_http_server_def)
  with src run_server_existing [OF assms(1), of s' req _ E3 E4 obj'] show ?thesis
    by (auto simp: run_reconcile_def stop_server_def)
qed

text \<open>
  A source from a Git repository makes the reconciliation panic, so that its server is never
  started (the controller library recovers the panic and retries): the first source of a server that
  has a Git part and no file-system part ends the build with a nil dereference, once the
  sources before it were built.\<close>

theorem git_source_panics:
  assumes "so_git src = Some url" and "so_fs src = None" and "\<not> so_kubernetes src"
    and "build_sources E n ns before [] = Ret (Inr out)"
  shows "build_sources E n ns (before @ src # after) [] = Panic ''nil pointer dereference''"
proof -
  have split: "build_sources E n ns (xs @ ys) acc = bind_build (build_sources E n ns xs acc) (build_sources E n ns ys)"
    for xs ys acc
  proof (induction xs arbitrary: acc)
    case (Cons x xs)
    have assoc: "bind_build (bind_build b f) g = bind_build b (\<lambda>out. bind_build (f out) g)"
      for b :: "'a build" and f g
      by (cases b) (simp_all add: bind_build_def split: sum.split)
    have "build_sources E n ns (xs @ ys) = (\<lambda>acc. bind_build (build_sources E n ns xs acc) (build_sources E n ns ys))"
      by (rule ext) (rule Cons.IH)
    then show ?case by (simp add: assoc)
  qed simp
  show ?thesis using assms by (simp add: split add_kube_def add_git_def)
qed

definition ok_env :: "string run_env" where
  "ok_env = \<lparr>rn_client_config = None, rn_dynamic = None, rn_install = None, rn_manager = None,
     rn_cache_sync = True, rn_kube_source = (\<lambda>_ _. None), rn_parse = (\<lambda>_. None), rn_git = Inr, rn_file = Inr,
     rn_clientset = None, rn_registry = (\<lambda>_ _. None), rn_oci = Inr\<rparr>"

definition sample_server :: authz_server where
  "sample_server = \<lparr>as_name = ''s'', as_namespace = ''ns'',
     as_envoy = Some \<lparr>es_network = ''tcp'', es_address = '':9081''\<rparr>, as_http = None,
     as_sources = [\<lparr>so_kubernetes = False, so_fs = Some ''/p'', so_git = None, so_oci = None\<rparr>]\<rparr>"

theorem http_type_never_starts_witness:
  "run_reconcile multierr_list ok_env ok_env None None ''r'' (Object_found (sample_server\<lparr>as_envoy := None,
      as_http := Some \<lparr>hv_address = '':80'', hv_nested = False, hv_modifiers = None\<rparr>\<rparr>)) setup_reconciler =
   Ret (None, setup_reconciler)"
  by (rule http_type_never_starts) simp_all

theorem envoy_server_lifecycle_witness:
  "\<exists>s'. run_reconcile multierr_list ok_env ok_env None None ''r'' (Object_found sample_server) setup_reconciler = Ret (None, s') \<and>
    (\<exists>s''. run_reconcile multierr_list ok_env ok_env None None ''r'' Object_not_found s' = Ret (None, s'') \<and>
      map_of (rc_servers s'') ''r'' = None)"
proof -
  obtain s' where s': "run_reconcile multierr_list ok_env ok_env None None ''r'' (Object_found sample_server)
      setup_reconciler = Ret (None, s')"
    by (simp add: run_reconcile_def run_server_def run_envoy_server_def run_http_server_def with_manager_def
        sample_server_def ok_env_def setup_reconciler_def add_kube_def add_git_def add_fs_def add_oci_def open_fs_def)
  show ?thesis
    using s' envoy_server_lifecycle [OF multierr_list_ok _ _ s', of "\<lparr>es_network = ''tcp'', es_address = '':9081''\<rparr>"
        ok_env ok_env sample_server]
    by (auto simp: sample_server_def setup_reconciler_def)
qed

theorem git_source_panics_witness:
  "build_sources ok_env ''s'' ''ns'' ([] @ \<lparr>so_kubernetes = False, so_fs = None, so_git = Some ''https://g'', so_oci = None\<rparr> # []) [] =
   Panic ''nil pointer dereference''"
  by (rule git_source_panics) simp_all

theorem ended_server_stays_down_witness:
  "\<exists>c c'. controller_run multierr_list [Reconciled_server ''r'' (Object_found sample_server) ok_env ok_env, Task_ended ''r'']
      \<lparr>co_state = setup_reconciler, co_ended = []\<rparr> = Ret c \<and>
    controller_run multierr_list [Reconciled_server ''r'' (Object_found sample_server) ok_env ok_env] c = Ret c' \<and>
    ''r'' \<in> set (co_ended c')"
proof -
  let ?ev = "Reconciled_server ''r'' (Object_found sample_server) ok_env ok_env"
  obtain c where c: "controller_run multierr_list [?ev, Task_ended ''r''] \<lparr>co_state = setup_reconciler, co_ended = []\<rparr> = Ret c"
      "\<exists>entry. dead ''r'' entry c"
    by (simp add: run_reconcile_def run_server_def run_envoy_server_def run_http_server_def with_manager_def dead_def
        sample_server_def ok_env_def setup_reconciler_def add_kube_def add_git_def add_fs_def add_oci_def open_fs_def)
  then obtain entry where dead: "dead ''r'' entry c" by blast
  then have stored: "map_of (rc_servers (co_state c)) ''r'' = Some entry" by (simp add: dead_def)
  then obtain c' where c': "controller_run multierr_list [?ev] c = Ret c'"
    using run_server_existing [OF multierr_list_ok stored] by (simp add: run_reconcile_def)
  from ended_server_stays_down [OF multierr_list_ok dead _ c'] c c' show ?thesis by (auto simp: dead_def)
qed

end
