(* ===== verification/Deep_Copy.thy ===== *)
theory Deep_Copy
  imports Run_Reconciler
begin

section \<open>Deep copies of the resources\<close>

text \<open>
  Models \<open>apis/v1alpha1/zz_generated.deepcopy.go\<close>, the copies the caches of Kubernetes clients
  hand out, over the structs of \<open>authzserver.go\<close>. A copy is about sharing, so pointers and
  slices are addresses of a heap: a cell holds one allocated struct or the backing array of one
  slice, and nil is \<open>None\<close>. \<open>DeepCopyInto\<close> is a function from the struct it reads to the
  struct it writes and the next heap; the order in which cells are allocated cannot be observed,
  so \<open>new\<close> and \<open>make\<close> are placed after the copy of what the cell holds. The structs of the
  API machinery (\<open>ObjectMeta\<close>, \<open>ListMeta\<close>, \<open>LabelSelector\<close>) are values of the type \<open>'x\<close>
  that live partly in \<open>Foreign\<close> cells; their copies are parameters.
\<close>

subsection \<open>Structs with pointers\<close>

text \<open>A field that is a pointer or a slice has a type parameter: \<open>nat option\<close> in the heap, what
  it points to in the trees the resources are read as.\<close>

record type_meta =
  tm_kind :: string
  tm_api_version :: string

record 's ref_struct =
  rf_group :: string
  rf_kind :: string
  rf_name :: string
  rf_selector :: 's

record 'r kube_struct =
  ks_ref :: 'r

record 'l oci_struct =
  op_url :: string
  op_insecure :: bool
  op_secrets :: 'l

record 'm http_struct =
  hs_address :: string
  hs_nested :: bool
  hs_modifiers :: 'm

record ('e, 'h) type_struct =
  ty_envoy :: 'e
  ty_http :: 'h

record ('k, 'f, 'g, 'o) source_struct =
  sr_kube :: 'k
  sr_fs :: 'f
  sr_git :: 'g
  sr_oci :: 'o

record ('t, 'l) spec_struct =
  sp_type :: 't
  sp_sources :: 'l

record ('m, 's) server_struct =
  sv_type_meta :: type_meta
  sv_meta :: 'm
  sv_spec :: 's

record ('m, 'l) list_struct =
  ls_type_meta :: type_meta
  ls_meta :: 'm
  ls_items :: 'l

type_synonym pointer = "nat option"
type_synonym heap_source = "(pointer, pointer, pointer, pointer) source_struct"
type_synonym heap_type = "(pointer, pointer) type_struct"
type_synonym heap_spec = "(heap_type, pointer) spec_struct"
type_synonym 'x heap_server = "('x, heap_spec) server_struct"
type_synonym 'x heap_list = "('x, pointer) list_struct"

datatype 'x cell =
    Envoy_cell envoy_server_spec
  | Http_cell "pointer http_struct"
  | Modifiers_cell modifiers
  | Kube_cell "pointer kube_struct"
  | Ref_cell "pointer ref_struct"
  | Selector_cell 'x
  | Fs_cell string
  | Git_cell string
  | Oci_cell "pointer oci_struct"
  | Source_cell heap_source
  | Type_cell heap_type
  | Spec_cell heap_spec
  | Server_cell "'x heap_server"
  | List_cell "'x heap_list"
  | Strings_array "string list"
  | Sources_array "heap_source list"
  | Servers_array "'x heap_server list"
  | Foreign 'x

type_synonym 'x heap = "'x cell list"
type_synonym ('x, 'a) copier = "'a \<Rightarrow> 'x heap \<Rightarrow> 'a \<times> 'x heap"

text \<open>What a struct reads as: a tree, and the cells that hold it; \<open>None\<close> for a dangling address,
  which Go does not have.\<close>

type_synonym ('x, 'a, 'v) reading = "'x heap \<Rightarrow> 'a \<Rightarrow> ('v \<times> nat set) option"

definition cell_at :: "'x heap \<Rightarrow> nat \<Rightarrow> 'x cell option" where
  "cell_at h a = (if a < length h then Some (h ! a) else None)"

lemma cell_at_append [simp]: "cell_at h a = Some c \<Longrightarrow> cell_at (h @ g) a = Some c"
  by (auto simp: cell_at_def nth_append split: if_splits)

lemma cell_at_new [simp]: "cell_at (h @ [c]) (length h) = Some c"
  by (simp add: cell_at_def)

lemma cell_at_bound: "cell_at h a = Some c \<Longrightarrow> a < length h"
  by (simp add: cell_at_def split: if_splits)

subsection \<open>The contract of a copy\<close>

text \<open>A copy only allocates, reads as the original does, and consists of new cells; a reading
  depends on its cells alone.\<close>

locale copier =
  fixes copy :: "('x, 'a) copier" and reading :: "('x, 'a, 'v) reading"
  assumes extends: "\<exists>g. snd (copy x h) = h @ g"
    and copies: "reading h x = Some (v, S) \<Longrightarrow>
      \<exists>S'. reading (snd (copy x h)) (fst (copy x h)) = Some (v, S') \<and> S' \<inter> {..<length h} = {}"
    and cells: "reading h x = Some (v, S) \<Longrightarrow> S \<subseteq> {..<length h}"
    and local: "reading h x = Some (v, S) \<Longrightarrow> (\<And>a. a \<in> S \<Longrightarrow> cell_at g a = cell_at h a) \<Longrightarrow>
      reading g x = Some (v, S)"
begin

lemma stable: "reading h x = Some (v, S) \<Longrightarrow> reading (h @ g) x = Some (v, S)"
  by (rule local) (use cells in \<open>auto simp: cell_at_def nth_append subset_iff\<close>)

text \<open>Whatever is done to other cells, the copy keeps what it was made from; and the original
  keeps it whatever is done to the copy.\<close>

lemma isolated:
  assumes "reading h x = Some (v, S)" "copy x h = (y, h')"
  obtains S' where "reading h' y = Some (v, S')" "S \<inter> S' = {}"
    "\<And>g. \<forall>a\<in>S'. cell_at g a = cell_at h' a \<Longrightarrow> reading g y = Some (v, S')"
    "\<And>g. \<forall>a\<in>S. cell_at g a = cell_at h' a \<Longrightarrow> reading g x = Some (v, S)"
proof -
  obtain S' where S': "reading h' y = Some (v, S')" "S' \<inter> {..<length h} = {}"
    using copies [OF assms(1)] assms(2) by auto
  obtain g where "h' = h @ g" using extends [of x h] assms(2) by auto
  then have now: "reading h' x = Some (v, S)" using stable [OF assms(1)] by simp
  show thesis
  proof (rule that)
    show "S \<inter> S' = {}" using S'(2) cells [OF assms(1)] by blast
    show "reading g y = Some (v, S')" if "\<forall>a\<in>S'. cell_at g a = cell_at h' a" for g
      by (rule local [OF S'(1)]) (rule that [rule_format])
    show "reading g x = Some (v, S)" if "\<forall>a\<in>S. cell_at g a = cell_at h' a" for g
      by (rule local [OF now]) (rule that [rule_format])
  qed (rule S'(1))
qed

end

subsection \<open>Copies of values, pointers, slices and fields\<close>

definition copy_plain :: "('x, 'a) copier" where
  "copy_plain x h = (x, h)"

definition read_plain :: "('x, 'a, 'a) reading" where
  "read_plain h x = Some (x, {})"

definition copy_pair :: "('x, 'a) copier \<Rightarrow> ('x, 'b) copier \<Rightarrow> ('x, 'a \<times> 'b) copier" where
  "copy_pair c d z h = (let (x, h1) = c (fst z) h; (y, h2) = d (snd z) h1 in ((x, y), h2))"

definition read_pair :: "('x, 'a, 'v) reading \<Rightarrow> ('x, 'b, 'w) reading \<Rightarrow> ('x, 'a \<times> 'b, 'v \<times> 'w) reading" where
  "read_pair r q h z =
     (case (r h (fst z), q h (snd z)) of
        (Some (v, S), Some (w, T)) \<Rightarrow> Some ((v, w), S \<union> T)
      | _ \<Rightarrow> None)"

text \<open>\<open>DeepCopy\<close> of a pointer: nil stays nil, otherwise a new cell takes the copied struct. The
  same shape copies a slice, whose cell is its backing array.\<close>

definition copy_pointer ::
  "('x cell \<Rightarrow> 'a option) \<Rightarrow> ('a \<Rightarrow> 'x cell) \<Rightarrow> ('x, 'a) copier \<Rightarrow> ('x, pointer) copier" where
  "copy_pointer get put c p h =
     (case p of
        None \<Rightarrow> (None, h)
      | Some a \<Rightarrow>
          (case Option.bind (cell_at h a) get of
             None \<Rightarrow> (None, h)
           | Some x \<Rightarrow> (let (y, h1) = c x h in (Some (length h1), h1 @ [put y]))))"

definition read_pointer ::
  "('x cell \<Rightarrow> 'a option) \<Rightarrow> ('x, 'a, 'v) reading \<Rightarrow> ('x, pointer, 'v option) reading" where
  "read_pointer get r h p =
     (case p of
        None \<Rightarrow> Some (None, {})
      | Some a \<Rightarrow>
          (case Option.bind (cell_at h a) get of
             None \<Rightarrow> None
           | Some x \<Rightarrow> map_option (\<lambda>(v, S). (Some v, insert a S)) (r h x)))"

fun copy_all :: "('x, 'a) copier \<Rightarrow> ('x, 'a list) copier" where
  "copy_all c [] h = ([], h)"
| "copy_all c (x # xs) h = (let (y, h1) = c x h; (ys, h2) = copy_all c xs h1 in (y # ys, h2))"

fun read_all :: "('x, 'a, 'v) reading \<Rightarrow> ('x, 'a list, 'v list) reading" where
  "read_all r h [] = Some ([], {})"
| "read_all r h (x # xs) =
     (case (r h x, read_all r h xs) of
        (Some (v, S), Some (vs, T)) \<Rightarrow> Some (v # vs, S \<union> T)
      | _ \<Rightarrow> None)"

definition read_field :: "('a \<Rightarrow> 'b) \<Rightarrow> ('a \<Rightarrow> 'v \<Rightarrow> 'w) \<Rightarrow> ('x, 'b, 'v) reading \<Rightarrow> ('x, 'a, 'w) reading" where
  "read_field get tree r h x = map_option (\<lambda>(v, S). (tree x v, S)) (r h (get x))"

lemma copier_plain [intro]: "copier copy_plain read_plain"
  by unfold_locales (auto simp: copy_plain_def read_plain_def)

lemma read_pair_Some:
  "read_pair r q h z = Some (v, S) \<longleftrightarrow>
     (\<exists>T U. r h (fst z) = Some (fst v, T) \<and> q h (snd z) = Some (snd v, U) \<and> S = T \<union> U)"
  by (cases v) (auto simp: read_pair_def split: option.splits)

lemma read_pointer_Some:
  "read_pointer get r h p = Some (v, S) \<longleftrightarrow>
     (case p of
        None \<Rightarrow> v = None \<and> S = {}
      | Some a \<Rightarrow> \<exists>c x w T. cell_at h a = Some c \<and> get c = Some x \<and> r h x = Some (w, T) \<and>
          v = Some w \<and> S = insert a T)"
  by (auto simp: read_pointer_def split: option.splits bind_splits)

text \<open>One copy among others: what was readable stays readable, and the copy is new.\<close>

lemma copier_step:
  assumes "copier c r" "c x h = (y, h')"
  obtains g where "h' = h @ g"
  using copier.extends [OF assms(1), of x h] assms(2) by auto

lemma copier_copied:
  assumes "copier c r" "c x h = (y, h')" "r h x = Some (v, S)"
  obtains S' where "r h' y = Some (v, S')" "S' \<inter> {..<length h} = {}"
  using copier.copies [OF assms(1,3)] assms(2) by auto

lemma copier_stable: "copier c r \<Longrightarrow> r h x = Some (v, S) \<Longrightarrow> r (h @ g) x = Some (v, S)"
  by (rule copier.stable)

lemma new_cells: "S \<inter> {..<length (h @ g)} = {} \<Longrightarrow> S \<inter> {..<length h} = {}"
  by auto

lemma copier_pair [intro]:
  assumes c: "copier c r" and d: "copier d q"
  shows "copier (copy_pair c d) (read_pair r q)"
proof
  fix z h
  obtain x h1 y h2 where e: "c (fst z) h = (x, h1)" "d (snd z) h1 = (y, h2)" by fastforce
  obtain g1 where g1: "h1 = h @ g1" by (rule copier_step [OF c e(1)])
  obtain g2 where g2: "h2 = h1 @ g2" by (rule copier_step [OF d e(2)])
  show "\<exists>g. snd (copy_pair c d z h) = h @ g" by (simp add: copy_pair_def e) (simp add: g1 g2)
  fix v S assume "read_pair r q h z = Some (v, S)"
  then obtain T U where r: "r h (fst z) = Some (fst v, T)" "q h (snd z) = Some (snd v, U)" "S = T \<union> U"
    by (auto simp: read_pair_Some)
  obtain T' where T: "r h1 x = Some (fst v, T')" "T' \<inter> {..<length h} = {}"
    by (rule copier_copied [OF c e(1) r(1)])
  have "q h1 (snd z) = Some (snd v, U)" unfolding g1 by (rule copier_stable [OF d r(2)])
  from copier_copied [OF d e(2) this] obtain U' where
    U: "q h2 y = Some (snd v, U')" "U' \<inter> {..<length h1} = {}" .
  have "r h2 x = Some (fst v, T')" unfolding g2 by (rule copier_stable [OF c T(1)])
  then have "read_pair r q h2 (x, y) = Some (v, T' \<union> U')" using U(1) by (auto simp: read_pair_Some)
  moreover have "U' \<inter> {..<length h} = {}" using U(2) new_cells g1 by blast
  moreover have "copy_pair c d z h = ((x, y), h2)" by (simp add: copy_pair_def e)
  ultimately show "\<exists>S'. read_pair r q (snd (copy_pair c d z h)) (fst (copy_pair c d z h)) = Some (v, S')
      \<and> S' \<inter> {..<length h} = {}"
    using T(2) by (auto simp: Int_Un_distrib2)
  show "S \<subseteq> {..<length h}" using copier.cells [OF c r(1)] copier.cells [OF d r(2)] r(3) by blast
  fix g assume "\<And>a. a \<in> S \<Longrightarrow> cell_at g a = cell_at h a"
  then show "read_pair r q g z = Some (v, S)"
    using copier.local [OF c r(1), of g] copier.local [OF d r(2), of g] r(3)
    by (auto simp: read_pair_Some)
qed

lemma copier_pointer [intro]:
  assumes c: "copier c r" and get: "\<And>x. get (put x) = Some x"
  shows "copier (copy_pointer get put c) (read_pointer get r)"
proof
  fix p h
  show "\<exists>g. snd (copy_pointer get put c p h) = h @ g"
    by (auto simp: copy_pointer_def split: option.split prod.split elim!: copier_step [OF c])
  fix v S assume p: "read_pointer get r h p = Some (v, S)"
  show "S \<subseteq> {..<length h}"
    using p by (fastforce simp: read_pointer_Some dest: cell_at_bound copier.cells [OF c] split: option.splits)
  show "\<exists>S'. read_pointer get r (snd (copy_pointer get put c p h)) (fst (copy_pointer get put c p h))
      = Some (v, S') \<and> S' \<inter> {..<length h} = {}"
  proof (cases p)
    case None
    then show ?thesis using p by (simp add: copy_pointer_def read_pointer_Some)
  next
    case (Some a)
    then obtain k x w T where a: "cell_at h a = Some k" "get k = Some x" "r h x = Some (w, T)" "v = Some w"
      using p by (auto simp: read_pointer_Some)
    obtain y h' where e: "c x h = (y, h')" by fastforce
    obtain g where g: "h' = h @ g" by (rule copier_step [OF c e])
    obtain T' where T: "r h' y = Some (w, T')" "T' \<inter> {..<length h} = {}"
      by (rule copier_copied [OF c e a(3)])
    have "copy_pointer get put c p h = (Some (length h'), h' @ [put y])"
      using Some a e by (simp add: copy_pointer_def)
    moreover have "read_pointer get r (h' @ [put y]) (Some (length h')) = Some (v, insert (length h') T')"
      using copier_stable [OF c T(1)] get a(4) by (simp add: read_pointer_Some)
    moreover have "insert (length h') T' \<inter> {..<length h} = {}" using T(2) g by simp
    ultimately show ?thesis by auto
  qed
  fix g assume "\<And>a. a \<in> S \<Longrightarrow> cell_at g a = cell_at h a"
  then show "read_pointer get r g p = Some (v, S)"
    using p copier.local [OF c, of h _ _ _ g] by (auto simp: read_pointer_Some split: option.splits)
qed

lemma read_all_Cons:
  assumes "read_all r h (x # xs) = Some (v, S)"
  obtains w T ws U where "r h x = Some (w, T)" "read_all r h xs = Some (ws, U)" "v = w # ws" "S = T \<union> U"
  using assms by (auto split: option.splits)

lemma copy_all_extends:
  assumes c: "copier c r"
  shows "\<exists>g. snd (copy_all c xs h) = h @ g"
proof (induction xs arbitrary: h)
  case (Cons x xs)
  obtain y h1 ys h2 where e: "c x h = (y, h1)" "copy_all c xs h1 = (ys, h2)" by fastforce
  obtain g1 where "h1 = h @ g1" by (rule copier_step [OF c e(1)])
  then show ?case using Cons.IH [of h1] e by auto
qed simp

lemma read_all_cells:
  assumes "copier c r"
  shows "read_all r h xs = Some (v, S) \<Longrightarrow> S \<subseteq> {..<length h}"
proof (induction xs arbitrary: v S)
  case (Cons x xs)
  from Cons.prems show ?case
    by (rule read_all_Cons) (use Cons.IH copier.cells [OF assms] in blast)
qed simp

lemma read_all_local:
  assumes "copier c r"
  shows "read_all r h xs = Some (v, S) \<Longrightarrow> (\<And>a. a \<in> S \<Longrightarrow> cell_at g a = cell_at h a) \<Longrightarrow>
    read_all r g xs = Some (v, S)"
proof (induction xs arbitrary: v S)
  case (Cons x xs)
  from Cons.prems(1) obtain w T ws U where
    r: "r h x = Some (w, T)" "read_all r h xs = Some (ws, U)" "v = w # ws" "S = T \<union> U"
    by (rule read_all_Cons)
  then show ?case using copier.local [OF assms r(1), of g] Cons.IH [OF r(2)] Cons.prems(2) by simp
qed simp

lemma copy_all_copies:
  assumes c: "copier c r"
  shows "read_all r h xs = Some (v, S) \<Longrightarrow>
    \<exists>S'. read_all r (snd (copy_all c xs h)) (fst (copy_all c xs h)) = Some (v, S') \<and>
      S' \<inter> {..<length h} = {}"
proof (induction xs arbitrary: h v S)
  case (Cons x xs)
  from Cons.prems obtain w T ws U where
    r: "r h x = Some (w, T)" "read_all r h xs = Some (ws, U)" "v = w # ws" by (rule read_all_Cons)
  obtain y h1 ys h2 where e: "c x h = (y, h1)" "copy_all c xs h1 = (ys, h2)" by fastforce
  obtain g1 where g1: "h1 = h @ g1" by (rule copier_step [OF c e(1)])
  obtain g2 where g2: "h2 = h1 @ g2" using copy_all_extends [OF c, of xs h1] e(2) by auto
  obtain T' where T: "r h1 y = Some (w, T')" "T' \<inter> {..<length h} = {}"
    by (rule copier_copied [OF c e(1) r(1)])
  have "read_all r h1 xs = Some (ws, U)"
    by (rule read_all_local [OF c r(2)]) (use read_all_cells [OF c r(2)] in \<open>auto simp: g1 cell_at_def nth_append subset_iff\<close>)
  from Cons.IH [OF this] obtain U' where
    U: "read_all r h2 ys = Some (ws, U')" "U' \<inter> {..<length h1} = {}" by (auto simp: e(2))
  have "r h2 y = Some (w, T')" unfolding g2 by (rule copier_stable [OF c T(1)])
  then have "read_all r h2 (y # ys) = Some (v, T' \<union> U')" using U(1) r(3) by simp
  moreover have "U' \<inter> {..<length h} = {}" using U(2) new_cells g1 by blast
  moreover have "copy_all c (x # xs) h = (y # ys, h2)" by (simp add: e)
  ultimately show ?case using T(2) by (auto simp: Int_Un_distrib2)
qed simp

lemma copier_all [intro]: "copier c r \<Longrightarrow> copier (copy_all c) (read_all r)"
  by unfold_locales (blast intro: copy_all_extends, (rule copy_all_copies read_all_cells read_all_local; assumption)+)

text \<open>A struct is copied by copying a field and writing the copy over a shallow copy of it.\<close>

lemma copier_field:
  assumes c: "copier c r"
    and "\<And>x h. d x h = (let (y, h') = c (get x) h in (put x y, h'))"
    and "q = read_field get tree r"
    and "\<And>x y. get (put x y) = y" "\<And>x y. tree (put x y) = tree x"
  shows "copier d q"
proof
  fix x h
  obtain y h1 where e: "c (get x) h = (y, h1)" by fastforce
  obtain g1 where g1: "h1 = h @ g1" by (rule copier_step [OF c e])
  show "\<exists>g. snd (d x h) = h @ g" using g1 by (simp add: assms(2) e)
  fix v S assume "q h x = Some (v, S)"
  then obtain w where w: "r h (get x) = Some (w, S)" "v = tree x w"
    by (auto simp: assms(3) read_field_def)
  show "S \<subseteq> {..<length h}" by (rule copier.cells [OF c w(1)])
  show "\<exists>S'. q (snd (d x h)) (fst (d x h)) = Some (v, S') \<and> S' \<inter> {..<length h} = {}"
    by (rule copier_copied [OF c e w(1)]) (auto simp: assms(2-) read_field_def e w(2))
  fix g assume "\<And>a. a \<in> S \<Longrightarrow> cell_at g a = cell_at h a"
  then show "q g x = Some (v, S)"
    using copier.local [OF c w(1), of g] w(2) by (simp add: assms(3) read_field_def)
qed


subsection \<open>The cells of each type\<close>

fun envoy_of :: "'x cell \<Rightarrow> envoy_server_spec option" where
  "envoy_of (Envoy_cell s) = Some s" | "envoy_of _ = None"
fun http_of :: "'x cell \<Rightarrow> pointer http_struct option" where
  "http_of (Http_cell s) = Some s" | "http_of _ = None"
fun modifiers_of :: "'x cell \<Rightarrow> modifiers option" where
  "modifiers_of (Modifiers_cell s) = Some s" | "modifiers_of _ = None"
fun kube_of :: "'x cell \<Rightarrow> pointer kube_struct option" where
  "kube_of (Kube_cell s) = Some s" | "kube_of _ = None"
fun ref_of :: "'x cell \<Rightarrow> pointer ref_struct option" where
  "ref_of (Ref_cell s) = Some s" | "ref_of _ = None"
fun selector_of :: "'x cell \<Rightarrow> 'x option" where
  "selector_of (Selector_cell s) = Some s" | "selector_of _ = None"
fun fs_of :: "'x cell \<Rightarrow> string option" where
  "fs_of (Fs_cell s) = Some s" | "fs_of _ = None"
fun git_of :: "'x cell \<Rightarrow> string option" where
  "git_of (Git_cell s) = Some s" | "git_of _ = None"
fun oci_of :: "'x cell \<Rightarrow> pointer oci_struct option" where
  "oci_of (Oci_cell s) = Some s" | "oci_of _ = None"
fun source_of :: "'x cell \<Rightarrow> heap_source option" where
  "source_of (Source_cell s) = Some s" | "source_of _ = None"
fun type_of :: "'x cell \<Rightarrow> heap_type option" where
  "type_of (Type_cell s) = Some s" | "type_of _ = None"
fun spec_of :: "'x cell \<Rightarrow> heap_spec option" where
  "spec_of (Spec_cell s) = Some s" | "spec_of _ = None"
fun server_of :: "'x cell \<Rightarrow> 'x heap_server option" where
  "server_of (Server_cell s) = Some s" | "server_of _ = None"
fun list_of :: "'x cell \<Rightarrow> 'x heap_list option" where
  "list_of (List_cell s) = Some s" | "list_of _ = None"
fun strings_of :: "'x cell \<Rightarrow> string list option" where
  "strings_of (Strings_array l) = Some l" | "strings_of _ = None"
fun sources_of :: "'x cell \<Rightarrow> heap_source list option" where
  "sources_of (Sources_array l) = Some l" | "sources_of _ = None"
fun servers_of :: "'x cell \<Rightarrow> 'x heap_server list option" where
  "servers_of (Servers_array l) = Some l" | "servers_of _ = None"

subsection \<open>The copies of the types\<close>

text \<open>Each type has its \<open>DeepCopyInto\<close> and its \<open>DeepCopy\<close>. Structs without pointers are
  copied by assignment.\<close>

definition copy_modifiers :: "('x, modifiers) copier" where
  "copy_modifiers = copy_plain"

definition deep_copy_modifiers :: "('x, pointer) copier" where
  "deep_copy_modifiers = copy_pointer modifiers_of Modifiers_cell copy_modifiers"

definition copy_envoy :: "('x, envoy_server_spec) copier" where
  "copy_envoy = copy_plain"

definition deep_copy_envoy :: "('x, pointer) copier" where
  "deep_copy_envoy = copy_pointer envoy_of Envoy_cell copy_envoy"

definition copy_fs :: "('x, string) copier" where
  "copy_fs = copy_plain"

definition deep_copy_fs :: "('x, pointer) copier" where
  "deep_copy_fs = copy_pointer fs_of Fs_cell copy_fs"

definition copy_git :: "('x, string) copier" where
  "copy_git = copy_plain"

definition deep_copy_git :: "('x, pointer) copier" where
  "deep_copy_git = copy_pointer git_of Git_cell copy_git"

definition copy_http :: "('x, pointer http_struct) copier" where
  "copy_http s h =
     (let (m, h) = copy_pointer modifiers_of Modifiers_cell copy_plain (hs_modifiers s) h
      in (s\<lparr>hs_modifiers := m\<rparr>, h))"

definition deep_copy_http :: "('x, pointer) copier" where
  "deep_copy_http = copy_pointer http_of Http_cell copy_http"

definition copy_oci :: "('x, pointer oci_struct) copier" where
  "copy_oci s h =
     (let (l, h) = copy_pointer strings_of Strings_array copy_plain (op_secrets s) h
      in (s\<lparr>op_secrets := l\<rparr>, h))"

definition deep_copy_oci :: "('x, pointer) copier" where
  "deep_copy_oci = copy_pointer oci_of Oci_cell copy_oci"

definition copy_ref :: "('x, 'x) copier \<Rightarrow> ('x, pointer ref_struct) copier" where
  "copy_ref sel s h =
     (let (p, h) = copy_pointer selector_of Selector_cell sel (rf_selector s) h
      in (s\<lparr>rf_selector := p\<rparr>, h))"

definition deep_copy_ref :: "('x, 'x) copier \<Rightarrow> ('x, pointer) copier" where
  "deep_copy_ref sel = copy_pointer ref_of Ref_cell (copy_ref sel)"

definition copy_kube :: "('x, 'x) copier \<Rightarrow> ('x, pointer kube_struct) copier" where
  "copy_kube sel s h =
     (let (p, h) = copy_pointer ref_of Ref_cell (copy_ref sel) (ks_ref s) h
      in (s\<lparr>ks_ref := p\<rparr>, h))"

definition deep_copy_kube :: "('x, 'x) copier \<Rightarrow> ('x, pointer) copier" where
  "deep_copy_kube sel = copy_pointer kube_of Kube_cell (copy_kube sel)"

definition copy_source :: "('x, 'x) copier \<Rightarrow> ('x, heap_source) copier" where
  "copy_source sel s h =
     (let (k, h) = copy_pointer kube_of Kube_cell (copy_kube sel) (sr_kube s) h;
          (f, h) = copy_pointer fs_of Fs_cell copy_plain (sr_fs s) h;
          (g, h) = copy_pointer git_of Git_cell copy_plain (sr_git s) h;
          (p, h) = copy_pointer oci_of Oci_cell copy_oci (sr_oci s) h
      in (s\<lparr>sr_kube := k, sr_fs := f, sr_git := g, sr_oci := p\<rparr>, h))"

definition deep_copy_source :: "('x, 'x) copier \<Rightarrow> ('x, pointer) copier" where
  "deep_copy_source sel = copy_pointer source_of Source_cell (copy_source sel)"

definition copy_type :: "('x, heap_type) copier" where
  "copy_type s h =
     (let (e, h) = copy_pointer envoy_of Envoy_cell copy_plain (ty_envoy s) h;
          (t, h) = copy_pointer http_of Http_cell copy_http (ty_http s) h
      in (s\<lparr>ty_envoy := e, ty_http := t\<rparr>, h))"

definition deep_copy_type :: "('x, pointer) copier" where
  "deep_copy_type = copy_pointer type_of Type_cell copy_type"

definition copy_spec :: "('x, 'x) copier \<Rightarrow> ('x, heap_spec) copier" where
  "copy_spec sel s h =
     (let (t, h) = copy_type (sp_type s) h;
          (l, h) = copy_pointer sources_of Sources_array (copy_all (copy_source sel)) (sp_sources s) h
      in (s\<lparr>sp_type := t, sp_sources := l\<rparr>, h))"

definition deep_copy_spec :: "('x, 'x) copier \<Rightarrow> ('x, pointer) copier" where
  "deep_copy_spec sel = copy_pointer spec_of Spec_cell (copy_spec sel)"

definition copy_server :: "('x, 'x) copier \<Rightarrow> ('x, 'x) copier \<Rightarrow> ('x, 'x heap_server) copier" where
  "copy_server meta sel s h =
     (let (m, h) = meta (sv_meta s) h;
          (p, h) = copy_spec sel (sv_spec s) h
      in (s\<lparr>sv_meta := m, sv_spec := p\<rparr>, h))"

definition deep_copy_server :: "('x, 'x) copier \<Rightarrow> ('x, 'x) copier \<Rightarrow> ('x, pointer) copier" where
  "deep_copy_server meta sel = copy_pointer server_of Server_cell (copy_server meta sel)"

definition copy_list ::
  "('x, 'x) copier \<Rightarrow> ('x, 'x) copier \<Rightarrow> ('x, 'x) copier \<Rightarrow> ('x, 'x heap_list) copier" where
  "copy_list lmeta meta sel s h =
     (let (m, h) = lmeta (ls_meta s) h;
          (l, h) = copy_pointer servers_of Servers_array (copy_all (copy_server meta sel)) (ls_items s) h
      in (s\<lparr>ls_meta := m, ls_items := l\<rparr>, h))"

definition deep_copy_list ::
  "('x, 'x) copier \<Rightarrow> ('x, 'x) copier \<Rightarrow> ('x, 'x) copier \<Rightarrow> ('x, pointer) copier" where
  "deep_copy_list lmeta meta sel = copy_pointer list_of List_cell (copy_list lmeta meta sel)"

text \<open>\<open>DeepCopyObject\<close> returns an interface: a copy of nil is the nil interface, not an
  interface that holds a nil pointer.\<close>

datatype runtime_object = Server_object pointer | List_object pointer

definition server_object ::
  "('x, 'x) copier \<Rightarrow> ('x, 'x) copier \<Rightarrow> pointer \<Rightarrow> 'x heap \<Rightarrow> runtime_object option \<times> 'x heap" where
  "server_object meta sel p h =
     (let (c, h) = deep_copy_server meta sel p h
      in (if c \<noteq> None then Some (Server_object c) else None, h))"

definition list_object ::
  "('x, 'x) copier \<Rightarrow> ('x, 'x) copier \<Rightarrow> ('x, 'x) copier \<Rightarrow> pointer \<Rightarrow> 'x heap \<Rightarrow>
    runtime_object option \<times> 'x heap" where
  "list_object lmeta meta sel p h =
     (let (c, h) = deep_copy_list lmeta meta sel p h
      in (if c \<noteq> None then Some (List_object c) else None, h))"


subsection \<open>What the resources read as\<close>

definition read_http :: "('x, pointer http_struct, modifiers option http_struct) reading" where
  "read_http = read_field hs_modifiers
     (\<lambda>s m. \<lparr>hs_address = hs_address s, hs_nested = hs_nested s, hs_modifiers = m\<rparr>)
     (read_pointer modifiers_of read_plain)"

definition read_oci :: "('x, pointer oci_struct, string list option oci_struct) reading" where
  "read_oci = read_field op_secrets
     (\<lambda>s l. \<lparr>op_url = op_url s, op_insecure = op_insecure s, op_secrets = l\<rparr>)
     (read_pointer strings_of read_plain)"

definition read_ref :: "('x, 'x, 'v) reading \<Rightarrow> ('x, pointer ref_struct, 'v option ref_struct) reading" where
  "read_ref sel = read_field rf_selector
     (\<lambda>s p. \<lparr>rf_group = rf_group s, rf_kind = rf_kind s, rf_name = rf_name s, rf_selector = p\<rparr>)
     (read_pointer selector_of sel)"

type_synonym 'v kube_tree = "'v option ref_struct option kube_struct"

definition read_kube :: "('x, 'x, 'v) reading \<Rightarrow> ('x, pointer kube_struct, 'v kube_tree) reading" where
  "read_kube sel = read_field ks_ref (\<lambda>s p. \<lparr>ks_ref = p\<rparr>) (read_pointer ref_of (read_ref sel))"

type_synonym 'v source_tree =
  "('v kube_tree option, string option, string option, string list option oci_struct option) source_struct"

definition read_source :: "('x, 'x, 'v) reading \<Rightarrow> ('x, heap_source, 'v source_tree) reading" where
  "read_source sel = read_field (\<lambda>s. (sr_kube s, sr_fs s, sr_git s, sr_oci s))
     (\<lambda>_ (k, f, g, p). \<lparr>sr_kube = k, sr_fs = f, sr_git = g, sr_oci = p\<rparr>)
     (read_pair (read_pointer kube_of (read_kube sel)) (read_pair (read_pointer fs_of read_plain)
       (read_pair (read_pointer git_of read_plain) (read_pointer oci_of read_oci))))"

type_synonym type_tree = "(envoy_server_spec option, modifiers option http_struct option) type_struct"

definition read_type :: "('x, heap_type, type_tree) reading" where
  "read_type = read_field (\<lambda>s. (ty_envoy s, ty_http s))
     (\<lambda>_ (e, t). \<lparr>ty_envoy = e, ty_http = t\<rparr>)
     (read_pair (read_pointer envoy_of read_plain) (read_pointer http_of read_http))"

type_synonym 'v spec_tree = "(type_tree, 'v source_tree list option) spec_struct"

definition read_spec :: "('x, 'x, 'v) reading \<Rightarrow> ('x, heap_spec, 'v spec_tree) reading" where
  "read_spec sel = read_field (\<lambda>s. (sp_type s, sp_sources s))
     (\<lambda>_ (t, l). \<lparr>sp_type = t, sp_sources = l\<rparr>)
     (read_pair read_type (read_pointer sources_of (read_all (read_source sel))))"

type_synonym ('m, 'v) server_tree = "('m, 'v spec_tree) server_struct"

definition read_server ::
  "('x, 'x, 'm) reading \<Rightarrow> ('x, 'x, 'v) reading \<Rightarrow> ('x, 'x heap_server, ('m, 'v) server_tree) reading" where
  "read_server meta sel = read_field (\<lambda>s. (sv_meta s, sv_spec s))
     (\<lambda>s (m, p). \<lparr>sv_type_meta = sv_type_meta s, sv_meta = m, sv_spec = p\<rparr>)
     (read_pair meta (read_spec sel))"

definition read_list ::
  "('x, 'x, 'n) reading \<Rightarrow> ('x, 'x, 'm) reading \<Rightarrow> ('x, 'x, 'v) reading \<Rightarrow>
    ('x, 'x heap_list, ('n, ('m, 'v) server_tree list option) list_struct) reading" where
  "read_list lmeta meta sel = read_field (\<lambda>s. (ls_meta s, ls_items s))
     (\<lambda>s (m, l). \<lparr>ls_type_meta = ls_type_meta s, ls_meta = m, ls_items = l\<rparr>)
     (read_pair lmeta (read_pointer servers_of (read_all (read_server meta sel))))"

subsection \<open>Every copy keeps the contract\<close>

lemma copier_http [intro]: "copier copy_http read_http"
  by (rule copier_field [where put = "\<lambda>s p. s\<lparr>hs_modifiers := p\<rparr>" and c = "copy_pointer modifiers_of Modifiers_cell copy_plain", OF _ _ read_http_def])
    (auto simp: copy_http_def)

lemma copier_oci [intro]: "copier copy_oci read_oci"
  by (rule copier_field [where put = "\<lambda>s p. s\<lparr>op_secrets := p\<rparr>" and c = "copy_pointer strings_of Strings_array copy_plain", OF _ _ read_oci_def])
    (auto simp: copy_oci_def)

lemma copier_ref [intro]: "copier sel q \<Longrightarrow> copier (copy_ref sel) (read_ref q)"
  by (rule copier_field [where put = "\<lambda>s p. s\<lparr>rf_selector := p\<rparr>" and c = "copy_pointer selector_of Selector_cell sel", OF _ _ read_ref_def])
    (auto simp: copy_ref_def)

lemma copier_kube [intro]: "copier sel q \<Longrightarrow> copier (copy_kube sel) (read_kube q)"
  by (rule copier_field [where put = "\<lambda>s p. s\<lparr>ks_ref := p\<rparr>" and c = "copy_pointer ref_of Ref_cell (copy_ref sel)", OF _ _ read_kube_def])
    (auto simp: copy_kube_def)

lemma copier_source [intro]: "copier sel q \<Longrightarrow> copier (copy_source sel) (read_source q)"
  by (rule copier_field [where put = "\<lambda>s (k, f, g, p). s\<lparr>sr_kube := k, sr_fs := f, sr_git := g, sr_oci := p\<rparr>"
        and c = "copy_pair (copy_pointer kube_of Kube_cell (copy_kube sel))
          (copy_pair (copy_pointer fs_of Fs_cell copy_plain)
            (copy_pair (copy_pointer git_of Git_cell copy_plain) (copy_pointer oci_of Oci_cell copy_oci)))",
        OF _ _ read_source_def])
    (auto simp: copy_source_def copy_pair_def split: prod.splits intro!: copier_pair)

lemma copier_type [intro]: "copier copy_type read_type"
  by (rule copier_field [where put = "\<lambda>s (e, t). s\<lparr>ty_envoy := e, ty_http := t\<rparr>"
        and c = "copy_pair (copy_pointer envoy_of Envoy_cell copy_plain) (copy_pointer http_of Http_cell copy_http)",
        OF _ _ read_type_def])
    (auto simp: copy_type_def copy_pair_def split: prod.splits intro!: copier_pair)

lemma copier_spec [intro]: "copier sel q \<Longrightarrow> copier (copy_spec sel) (read_spec q)"
  by (rule copier_field [where put = "\<lambda>s (t, l). s\<lparr>sp_type := t, sp_sources := l\<rparr>"
        and c = "copy_pair copy_type (copy_pointer sources_of Sources_array (copy_all (copy_source sel)))",
        OF _ _ read_spec_def])
    (auto simp: copy_spec_def copy_pair_def split: prod.splits intro!: copier_pointer copier_all)

lemma copier_server [intro]:
  "copier meta r \<Longrightarrow> copier sel q \<Longrightarrow> copier (copy_server meta sel) (read_server r q)"
  by (rule copier_field [where put = "\<lambda>s (m, p). s\<lparr>sv_meta := m, sv_spec := p\<rparr>"
        and c = "copy_pair meta (copy_spec sel)", OF _ _ read_server_def])
    (auto simp: copy_server_def copy_pair_def split: prod.splits intro!: copier_pair)

lemma copier_list [intro]:
  "copier lmeta r \<Longrightarrow> copier meta r' \<Longrightarrow> copier sel q \<Longrightarrow>
    copier (copy_list lmeta meta sel) (read_list r r' q)"
  by (rule copier_field [where put = "\<lambda>s (m, l). s\<lparr>ls_meta := m, ls_items := l\<rparr>"
        and c = "copy_pair lmeta (copy_pointer servers_of Servers_array (copy_all (copy_server meta sel)))",
        OF _ _ read_list_def])
    (auto simp: copy_list_def copy_pair_def split: prod.splits intro!: copier_pointer copier_all)


interpretation oci_copy: copier "copy_pointer oci_of Oci_cell copy_oci" "read_pointer oci_of read_oci"
  by (rule copier_pointer) auto

interpretation type_copy: copier "copy_pointer type_of Type_cell copy_type" "read_pointer type_of read_type"
  by (rule copier_pointer) auto

text \<open>A copy and its original: both read the same, from disjoint cells; a write to any cell of
  the one is not seen through the other.\<close>

definition independent :: "('x, 'a, 'v) reading \<Rightarrow> 'x heap \<Rightarrow> 'a \<Rightarrow> 'a \<times> 'x heap \<Rightarrow> bool" where
  "independent r h x c \<longleftrightarrow>
     (\<exists>v S S'. r h x = Some (v, S) \<and> r (snd c) x = Some (v, S) \<and> r (snd c) (fst c) = Some (v, S') \<and>
        S \<inter> S' = {} \<and>
        (\<forall>a k. a \<notin> S' \<longrightarrow> r ((snd c)[a := k]) (fst c) = Some (v, S')) \<and>
        (\<forall>a k. a \<notin> S \<longrightarrow> r ((snd c)[a := k]) x = Some (v, S)))"

lemma cell_at_write: "a \<noteq> b \<Longrightarrow> cell_at (h[a := k]) b = cell_at h b"
  by (simp add: cell_at_def)

lemma copier_independent:
  assumes c: "copier c r" and x: "r h x \<noteq> None"
  shows "independent r h x (c x h)"
proof -
  obtain v S where v: "r h x = Some (v, S)" using x by auto
  obtain y h' where e: "c x h = (y, h')" by fastforce
  obtain S' where S': "r h' y = Some (v, S')" "S \<inter> S' = {}"
    "\<And>g. \<forall>a\<in>S'. cell_at g a = cell_at h' a \<Longrightarrow> r g y = Some (v, S')"
    "\<And>g. \<forall>a\<in>S. cell_at g a = cell_at h' a \<Longrightarrow> r g x = Some (v, S)"
    by (rule copier.isolated [OF c v e]) auto
  have "r (h'[a := k]) y = Some (v, S')" if "a \<notin> S'" for a k
    by (rule S'(3)) (use that in \<open>auto intro!: cell_at_write\<close>)
  moreover have "r (h'[a := k]) x = Some (v, S)" if "a \<notin> S" for a k
    by (rule S'(4)) (use that in \<open>auto intro!: cell_at_write\<close>)
  moreover have "r h' x = Some (v, S)" by (rule S'(4)) simp
  ultimately show ?thesis using v S'(1,2) by (auto simp: independent_def e)
qed

lemma copier_deep_server:
  "copier meta r \<Longrightarrow> copier sel q \<Longrightarrow>
    copier (deep_copy_server meta sel) (read_pointer server_of (read_server r q))"
  unfolding deep_copy_server_def by (rule copier_pointer) auto

lemma copier_deep_list:
  "copier lmeta r \<Longrightarrow> copier meta r' \<Longrightarrow> copier sel q \<Longrightarrow>
    copier (deep_copy_list lmeta meta sel) (read_pointer list_of (read_list r r' q))"
  unfolding deep_copy_list_def by (rule copier_pointer) auto

text \<open>C37: A deep copy of an authorization server, or of a list of them, reads as its original
  does, shares no cell with it, and neither sees a write to the other, whatever is nil and
  wherever the pointers of the original lead. The copies of the structs of the API machinery
  are assumed to keep the same contract.\<close>

theorem deep_copies_independent:
  assumes "copier lmeta rl" "copier meta rm" "copier sel rs"
  shows "(read_pointer server_of (read_server rm rs) h p \<noteq> None \<longrightarrow>
      independent (read_pointer server_of (read_server rm rs)) h p (deep_copy_server meta sel p h)) \<and>
    (read_pointer list_of (read_list rl rm rs) h p \<noteq> None \<longrightarrow>
      independent (read_pointer list_of (read_list rl rm rs)) h p (deep_copy_list lmeta meta sel p h))"
  using copier_independent [OF copier_deep_server [OF assms(2,3)]]
    copier_independent [OF copier_deep_list [OF assms]] by blast

text \<open>A selector in a cell of its own, and a server that uses it.\<close>

fun foreign_of :: "'x cell \<Rightarrow> 'x option" where
  "foreign_of (Foreign x) = Some x" | "foreign_of _ = None"

definition sample_meta :: "(pointer, pointer) copier" where
  "sample_meta = copy_pointer foreign_of Foreign copy_plain"

definition read_meta :: "(pointer, pointer, pointer option) reading" where
  "read_meta = read_pointer foreign_of read_plain"

lemma copier_sample: "copier sample_meta read_meta"
  unfolding sample_meta_def read_meta_def by (rule copier_pointer) auto

definition sample_heap :: "pointer heap" where
  "sample_heap =
     (let s = \<lparr>sv_type_meta = \<lparr>tm_kind = ''AuthorizationServer'', tm_api_version = ''v1alpha1''\<rparr>,
         sv_meta = Some 0,
         sv_spec = \<lparr>sp_type = \<lparr>ty_envoy = Some 7, ty_http = None\<rparr>, sp_sources = Some 6\<rparr>\<rparr>
      in [Foreign None, Selector_cell (Some 0),
        Ref_cell \<lparr>rf_group = [], rf_kind = ''ValidatingPolicy'', rf_name = [], rf_selector = Some 1\<rparr>,
        Kube_cell \<lparr>ks_ref = Some 2\<rparr>, Strings_array [''pull''],
        Oci_cell \<lparr>op_url = ''ghcr.io/p'', op_insecure = False, op_secrets = Some 4\<rparr>,
        Sources_array [\<lparr>sr_kube = Some 3, sr_fs = None, sr_git = None, sr_oci = Some 5\<rparr>],
        Envoy_cell \<lparr>es_network = ''tcp'', es_address = '':9081''\<rparr>,
        Server_cell s, Servers_array [s],
        List_cell \<lparr>ls_type_meta = \<lparr>tm_kind = ''AuthorizationServerList'', tm_api_version = ''v1alpha1''\<rparr>,
          ls_meta = None, ls_items = Some 9\<rparr>])"

lemma sample_heap_readable:
  "read_pointer server_of (read_server read_meta read_meta) sample_heap (Some 8) \<noteq> None"
  "read_pointer list_of (read_list read_meta read_meta read_meta) sample_heap (Some 10) \<noteq> None"
  by code_simp+

theorem deep_copies_independent_witness:
  "independent (read_pointer server_of (read_server read_meta read_meta)) sample_heap (Some 8)
      (deep_copy_server sample_meta sample_meta (Some 8) sample_heap) \<and>
    independent (read_pointer list_of (read_list read_meta read_meta read_meta)) sample_heap (Some 10)
      (deep_copy_list sample_meta sample_meta sample_meta (Some 10) sample_heap)"
  using deep_copies_independent [OF copier_sample copier_sample copier_sample] sample_heap_readable
  by blast

end
