(* ===== verification/Envoy_Lib.thy ===== *)
theory Envoy_Lib
  imports Prelude
begin

section \<open>The Envoy authorization library\<close>

text \<open>
  Models \<open>pkg/cel/libs/authz/envoy/impl.go\<close>, the functions CEL expressions build Envoy responses
  with. The messages are pointers that the functions change in place, and a CEL value of a message
  holds the pointer: so the messages live in a store, one list per message type, and an address
  is an index. The adapter is third-party: \<open>envoy_adapter\<close> holds the conversions of CEL values to
  pointers and native values and back; documented is that a value made from a pointer converts
  back to that pointer.
\<close>

record header_option =
  ho_key :: string
  ho_value :: string
  ho_keep_empty :: bool

record query_param =
  qp_key :: string
  qp_value :: string

record ok_response =
  ok_headers :: "nat list"
  ok_headers_to_remove :: "string list"
  ok_response_headers :: "nat list"
  ok_queryparams :: "nat list"
  ok_queryparams_to_remove :: "string list"

record denied_response =
  dn_status :: int
  dn_headers :: "nat list"
  dn_body :: string

record rpc_status =
  rs_code :: int
  rs_message :: string

datatype http_part = No_http | Ok_http nat | Denied_http nat

record 'm envoy_response =
  er_status :: "rpc_status option"
  er_http :: http_part
  er_metadata :: "'m option"

record 'm store =
  st_oks :: "ok_response list"
  st_denied :: "denied_response list"
  st_headers :: "header_option list"
  st_params :: "query_param list"
  st_responses :: "'m envoy_response list"

record ('v, 'm) envoy_adapter =
  ea_ok :: "'v \<Rightarrow> go_error + nat"
  ea_denied :: "'v \<Rightarrow> go_error + nat"
  ea_header :: "'v \<Rightarrow> go_error + nat"
  ea_param :: "'v \<Rightarrow> go_error + nat"
  ea_response :: "'v \<Rightarrow> go_error + nat"
  ea_string :: "'v \<Rightarrow> go_error + string"
  ea_bool :: "'v \<Rightarrow> go_error + bool"
  ea_code :: "'v \<Rightarrow> go_error + int"
  ea_struct :: "'v \<Rightarrow> go_error + 'm"
  ea_of_ok :: "nat \<Rightarrow> 'v"
  ea_of_denied :: "nat \<Rightarrow> 'v"
  ea_of_header :: "nat \<Rightarrow> 'v"
  ea_of_param :: "nat \<Rightarrow> 'v"
  ea_of_response :: "nat \<Rightarrow> 'v"
  ea_true :: 'v
  ea_wrap_err :: "go_error \<Rightarrow> 'v"

type_synonym ('v, 'm) action = "'m store \<Rightarrow> 'v \<times> 'm store"

text \<open>One conversion of the chain of \<open>if ... else if\<close>: an error becomes the error value.\<close>

definition native ::
  "('v, 'm) envoy_adapter \<Rightarrow> go_error + 'a \<Rightarrow> ('a \<Rightarrow> ('v, 'm) action) \<Rightarrow> ('v, 'm) action" where
  "native A r k s = (case r of Inl err \<Rightarrow> (ea_wrap_err A err, s) | Inr x \<Rightarrow> k x s)"

text \<open>Allocation and change of one message.\<close>

definition new_header :: "header_option \<Rightarrow> 'm store \<Rightarrow> nat \<times> 'm store" where
  "new_header h s = (length (st_headers s), s\<lparr>st_headers := st_headers s @ [h]\<rparr>)"

definition new_param :: "query_param \<Rightarrow> 'm store \<Rightarrow> nat \<times> 'm store" where
  "new_param q s = (length (st_params s), s\<lparr>st_params := st_params s @ [q]\<rparr>)"

definition set_ok :: "nat \<Rightarrow> (ok_response \<Rightarrow> ok_response) \<Rightarrow> 'm store \<Rightarrow> 'm store" where
  "set_ok a f s = s\<lparr>st_oks := (st_oks s)[a := f (st_oks s ! a)]\<rparr>"

definition set_denied :: "nat \<Rightarrow> (denied_response \<Rightarrow> denied_response) \<Rightarrow> 'm store \<Rightarrow> 'm store" where
  "set_denied a f s = s\<lparr>st_denied := (st_denied s)[a := f (st_denied s ! a)]\<rparr>"

definition set_response :: "nat \<Rightarrow> ('m envoy_response \<Rightarrow> 'm envoy_response) \<Rightarrow> 'm store \<Rightarrow> 'm store" where
  "set_response a f s = s\<lparr>st_responses := (st_responses s)[a := f (st_responses s ! a)]\<rparr>"

subsection \<open>Headers and parameters\<close>

definition header_key_value :: "('v, 'm) envoy_adapter \<Rightarrow> 'v \<Rightarrow> 'v \<Rightarrow> ('v, 'm) action" where
  "header_key_value A key value =
     native A (ea_string A key) (\<lambda>k. native A (ea_string A value) (\<lambda>v s.
       case new_header \<lparr>ho_key = k, ho_value = v, ho_keep_empty = False\<rparr> s of
         (h, s) \<Rightarrow> (ea_of_header A h, s)))"

definition header_keep_empty_value_bool :: "('v, 'm) envoy_adapter \<Rightarrow> 'v \<Rightarrow> 'v \<Rightarrow> ('v, 'm) action" where
  "header_keep_empty_value_bool A header flag =
     native A (ea_header A header) (\<lambda>h. native A (ea_bool A flag) (\<lambda>b s.
       (ea_of_header A h,
        s\<lparr>st_headers := (st_headers s)[h := (st_headers s ! h)\<lparr>ho_keep_empty := b\<rparr>]\<rparr>)))"

definition header_keep_empty_value :: "('v, 'm) envoy_adapter \<Rightarrow> 'v \<Rightarrow> ('v, 'm) action" where
  "header_keep_empty_value A header = header_keep_empty_value_bool A header (ea_true A)"

definition queryparam_key_value :: "('v, 'm) envoy_adapter \<Rightarrow> 'v \<Rightarrow> 'v \<Rightarrow> ('v, 'm) action" where
  "queryparam_key_value A key value =
     native A (ea_string A key) (\<lambda>k. native A (ea_string A value) (\<lambda>v s.
       case new_param \<lparr>qp_key = k, qp_value = v\<rparr> s of (q, s) \<Rightarrow> (ea_of_param A q, s)))"

subsection \<open>Allowed responses\<close>

definition empty_ok :: ok_response where
  "empty_ok = \<lparr>ok_headers = [], ok_headers_to_remove = [], ok_response_headers = [],
     ok_queryparams = [], ok_queryparams_to_remove = []\<rparr>"

definition envoy_allowed :: "('v, 'm) envoy_adapter \<Rightarrow> ('v, 'm) action" where
  "envoy_allowed A s = (ea_of_ok A (length (st_oks s)), s\<lparr>st_oks := st_oks s @ [empty_ok]\<rparr>)"

definition ok_with_header_header :: "('v, 'm) envoy_adapter \<Rightarrow> 'v \<Rightarrow> 'v \<Rightarrow> ('v, 'm) action" where
  "ok_with_header_header A ok header =
     native A (ea_ok A ok) (\<lambda>a. native A (ea_header A header) (\<lambda>h s.
       (ea_of_ok A a, set_ok a (\<lambda>r. r\<lparr>ok_headers := ok_headers r @ [h]\<rparr>) s)))"

definition ok_with_header_string_string :: "('v, 'm) envoy_adapter \<Rightarrow> 'v \<Rightarrow> 'v \<Rightarrow> 'v \<Rightarrow> ('v, 'm) action" where
  "ok_with_header_string_string A ok key value =
     native A (ea_ok A ok) (\<lambda>a. native A (ea_string A key) (\<lambda>k. native A (ea_string A value) (\<lambda>v s.
       case new_header \<lparr>ho_key = k, ho_value = v, ho_keep_empty = False\<rparr> s of
         (h, s) \<Rightarrow> (ea_of_ok A a, set_ok a (\<lambda>r. r\<lparr>ok_headers := ok_headers r @ [h]\<rparr>) s))))"

definition ok_without_header :: "('v, 'm) envoy_adapter \<Rightarrow> 'v \<Rightarrow> 'v \<Rightarrow> ('v, 'm) action" where
  "ok_without_header A ok header =
     native A (ea_ok A ok) (\<lambda>a. native A (ea_string A header) (\<lambda>h s.
       (ea_of_ok A a, set_ok a (\<lambda>r. r\<lparr>ok_headers_to_remove := ok_headers_to_remove r @ [h]\<rparr>) s)))"

definition ok_with_response_header_header :: "('v, 'm) envoy_adapter \<Rightarrow> 'v \<Rightarrow> 'v \<Rightarrow> ('v, 'm) action" where
  "ok_with_response_header_header A ok header =
     native A (ea_ok A ok) (\<lambda>a. native A (ea_header A header) (\<lambda>h s.
       (ea_of_ok A a, set_ok a (\<lambda>r. r\<lparr>ok_response_headers := ok_response_headers r @ [h]\<rparr>) s)))"

definition ok_with_response_header_string_string ::
  "('v, 'm) envoy_adapter \<Rightarrow> 'v \<Rightarrow> 'v \<Rightarrow> 'v \<Rightarrow> ('v, 'm) action" where
  "ok_with_response_header_string_string A ok key value =
     native A (ea_ok A ok) (\<lambda>a. native A (ea_string A key) (\<lambda>k. native A (ea_string A value) (\<lambda>v s.
       case new_header \<lparr>ho_key = k, ho_value = v, ho_keep_empty = False\<rparr> s of
         (h, s) \<Rightarrow> (ea_of_ok A a,
           set_ok a (\<lambda>r. r\<lparr>ok_response_headers := ok_response_headers r @ [h]\<rparr>) s))))"

definition ok_with_queryparam_param :: "('v, 'm) envoy_adapter \<Rightarrow> 'v \<Rightarrow> 'v \<Rightarrow> ('v, 'm) action" where
  "ok_with_queryparam_param A ok param =
     native A (ea_ok A ok) (\<lambda>a. native A (ea_param A param) (\<lambda>q s.
       (ea_of_ok A a, set_ok a (\<lambda>r. r\<lparr>ok_queryparams := ok_queryparams r @ [q]\<rparr>) s)))"

definition ok_with_queryparam_string_string ::
  "('v, 'm) envoy_adapter \<Rightarrow> 'v \<Rightarrow> 'v \<Rightarrow> 'v \<Rightarrow> ('v, 'm) action" where
  "ok_with_queryparam_string_string A ok key value =
     native A (ea_ok A ok) (\<lambda>a. native A (ea_string A key) (\<lambda>k. native A (ea_string A value) (\<lambda>v s.
       case new_param \<lparr>qp_key = k, qp_value = v\<rparr> s of
         (q, s) \<Rightarrow> (ea_of_ok A a, set_ok a (\<lambda>r. r\<lparr>ok_queryparams := ok_queryparams r @ [q]\<rparr>) s))))"

definition ok_without_queryparam_string :: "('v, 'm) envoy_adapter \<Rightarrow> 'v \<Rightarrow> 'v \<Rightarrow> ('v, 'm) action" where
  "ok_without_queryparam_string A ok param =
     native A (ea_ok A ok) (\<lambda>a. native A (ea_string A param) (\<lambda>p s.
       (ea_of_ok A a, set_ok a (\<lambda>r. r\<lparr>ok_queryparams_to_remove := ok_queryparams_to_remove r @ [p]\<rparr>) s)))"

subsection \<open>Denied responses\<close>

definition envoy_denied :: "('v, 'm) envoy_adapter \<Rightarrow> 'v \<Rightarrow> ('v, 'm) action" where
  "envoy_denied A code =
     native A (ea_code A code) (\<lambda>c s.
       (ea_of_denied A (length (st_denied s)),
        s\<lparr>st_denied := st_denied s @ [\<lparr>dn_status = c, dn_headers = [], dn_body = []\<rparr>]\<rparr>))"

definition denied_with_body :: "('v, 'm) envoy_adapter \<Rightarrow> 'v \<Rightarrow> 'v \<Rightarrow> ('v, 'm) action" where
  "denied_with_body A denied body =
     native A (ea_denied A denied) (\<lambda>a. native A (ea_string A body) (\<lambda>b s.
       (ea_of_denied A a, set_denied a (\<lambda>r. r\<lparr>dn_body := b\<rparr>) s)))"

definition denied_with_header_header :: "('v, 'm) envoy_adapter \<Rightarrow> 'v \<Rightarrow> 'v \<Rightarrow> ('v, 'm) action" where
  "denied_with_header_header A denied header =
     native A (ea_denied A denied) (\<lambda>a. native A (ea_header A header) (\<lambda>h s.
       (ea_of_denied A a, set_denied a (\<lambda>r. r\<lparr>dn_headers := dn_headers r @ [h]\<rparr>) s)))"

definition denied_with_header_string_string ::
  "('v, 'm) envoy_adapter \<Rightarrow> 'v \<Rightarrow> 'v \<Rightarrow> 'v \<Rightarrow> ('v, 'm) action" where
  "denied_with_header_string_string A denied key value =
     native A (ea_denied A denied) (\<lambda>a. native A (ea_string A key) (\<lambda>k. native A (ea_string A value) (\<lambda>v s.
       case new_header \<lparr>ho_key = k, ho_value = v, ho_keep_empty = False\<rparr> s of
         (h, s) \<Rightarrow> (ea_of_denied A a, set_denied a (\<lambda>r. r\<lparr>dn_headers := dn_headers r @ [h]\<rparr>) s))))"

subsection \<open>Check responses\<close>

text \<open>The codes of \<open>google.golang.org/grpc/codes\<close>.\<close>

definition code_OK :: int where "code_OK = 0"
definition code_PermissionDenied :: int where "code_PermissionDenied = 7"

definition new_response :: "'m envoy_response \<Rightarrow> 'm store \<Rightarrow> nat \<times> 'm store" where
  "new_response r s = (length (st_responses s), s\<lparr>st_responses := st_responses s @ [r]\<rparr>)"

definition envoy_response_ok :: "('v, 'm) envoy_adapter \<Rightarrow> 'v \<Rightarrow> ('v, 'm) action" where
  "envoy_response_ok A ok =
     native A (ea_ok A ok) (\<lambda>a s.
       case new_response \<lparr>er_status = Some \<lparr>rs_code = code_OK, rs_message = []\<rparr>, er_http = Ok_http a,
                          er_metadata = None\<rparr> s of
         (r, s) \<Rightarrow> (ea_of_response A r, s))"

definition envoy_response_denied :: "('v, 'm) envoy_adapter \<Rightarrow> 'v \<Rightarrow> ('v, 'm) action" where
  "envoy_response_denied A denied =
     native A (ea_denied A denied) (\<lambda>a s.
       case new_response \<lparr>er_status = Some \<lparr>rs_code = code_PermissionDenied, rs_message = []\<rparr>,
                          er_http = Denied_http a, er_metadata = None\<rparr> s of
         (r, s) \<Rightarrow> (ea_of_response A r, s))"

definition response_with_message ::
  "('v, 'm) envoy_adapter \<Rightarrow> 'v \<Rightarrow> 'v \<Rightarrow> 'm store \<Rightarrow> ('v \<times> 'm store) outcome" where
  "response_with_message A response message s =
     (case ea_response A response of
        Inl err \<Rightarrow> Ret (ea_wrap_err A err, s)
      | Inr r \<Rightarrow>
          (case ea_string A message of
             Inl err \<Rightarrow> Ret (ea_wrap_err A err, s)
           | Inr m \<Rightarrow>
               (case er_status (st_responses s ! r) of
                  None \<Rightarrow> Panic ''nil pointer dereference''
                | Some st \<Rightarrow>
                    Ret (ea_of_response A r,
                      set_response r (\<lambda>x. x\<lparr>er_status := Some (st\<lparr>rs_message := m\<rparr>)\<rparr>) s))))"

definition response_with_metadata :: "('v, 'm) envoy_adapter \<Rightarrow> 'v \<Rightarrow> 'v \<Rightarrow> ('v, 'm) action" where
  "response_with_metadata A response metadata =
     native A (ea_response A response) (\<lambda>r. native A (ea_struct A metadata) (\<lambda>m s.
       (ea_of_response A r, set_response r (\<lambda>x. x\<lparr>er_metadata := Some m\<rparr>) s)))"

subsection \<open>Facts\<close>

definition adapter_ok :: "('v, 'm) envoy_adapter \<Rightarrow> bool" where
  "adapter_ok A \<longleftrightarrow> (\<forall>a. ea_ok A (ea_of_ok A a) = Inr a \<and> ea_denied A (ea_of_denied A a) = Inr a \<and>
     ea_header A (ea_of_header A a) = Inr a \<and> ea_param A (ea_of_param A a) = Inr a \<and>
     ea_response A (ea_of_response A a) = Inr a)"

lemmas envoy_lib_defs = native_def new_header_def new_param_def set_ok_def set_denied_def set_response_def
  new_response_def header_key_value_def header_keep_empty_value_def header_keep_empty_value_bool_def
  queryparam_key_value_def envoy_allowed_def ok_with_header_header_def ok_with_header_string_string_def
  ok_without_header_def envoy_denied_def denied_with_body_def denied_with_header_header_def
  denied_with_header_string_string_def envoy_response_ok_def envoy_response_denied_def
  response_with_message_def response_with_metadata_def

text \<open>A concrete adapter.\<close>

datatype envoy_value = Ok_v nat | Denied_v nat | Header_v nat | Param_v nat | Response_v nat
  | Str_v string | Bool_v bool | Int_v int | Err_v go_error

definition conv_err :: go_error where "conv_err = Errorf ''type conversion error''"

definition envoy_values :: "(envoy_value, unit) envoy_adapter" where
  "envoy_values = \<lparr>
     ea_ok = (\<lambda>v. case v of Ok_v a \<Rightarrow> Inr a | _ \<Rightarrow> Inl conv_err),
     ea_denied = (\<lambda>v. case v of Denied_v a \<Rightarrow> Inr a | _ \<Rightarrow> Inl conv_err),
     ea_header = (\<lambda>v. case v of Header_v a \<Rightarrow> Inr a | _ \<Rightarrow> Inl conv_err),
     ea_param = (\<lambda>v. case v of Param_v a \<Rightarrow> Inr a | _ \<Rightarrow> Inl conv_err),
     ea_response = (\<lambda>v. case v of Response_v a \<Rightarrow> Inr a | _ \<Rightarrow> Inl conv_err),
     ea_string = (\<lambda>v. case v of Str_v a \<Rightarrow> Inr a | _ \<Rightarrow> Inl conv_err),
     ea_bool = (\<lambda>v. case v of Bool_v a \<Rightarrow> Inr a | _ \<Rightarrow> Inl conv_err),
     ea_code = (\<lambda>v. case v of Int_v a \<Rightarrow> Inr a | _ \<Rightarrow> Inl conv_err),
     ea_struct = (\<lambda>v. Inl conv_err),
     ea_of_ok = Ok_v, ea_of_denied = Denied_v, ea_of_header = Header_v, ea_of_param = Param_v,
     ea_of_response = Response_v, ea_true = Bool_v True, ea_wrap_err = Err_v\<rparr>"

lemma envoy_values_sel [simp]:
  "ea_ok envoy_values (Ok_v a) = Inr a" "ea_denied envoy_values (Denied_v a) = Inr a"
  "ea_header envoy_values (Header_v a) = Inr a" "ea_param envoy_values (Param_v a) = Inr a"
  "ea_response envoy_values (Response_v a) = Inr a" "ea_string envoy_values (Str_v x) = Inr x"
  "ea_bool envoy_values (Bool_v b) = Inr b" "ea_code envoy_values (Int_v i) = Inr i"
  "ea_of_ok envoy_values = Ok_v" "ea_of_denied envoy_values = Denied_v"
  "ea_of_header envoy_values = Header_v" "ea_of_param envoy_values = Param_v"
  "ea_of_response envoy_values = Response_v" "ea_true envoy_values = Bool_v True"
  by (simp_all add: envoy_values_def)

lemma envoy_values_ok [simp]: "adapter_ok envoy_values"
  by (simp add: adapter_ok_def)

definition empty_store :: "'m store" where
  "empty_store = \<lparr>st_oks = [], st_denied = [], st_headers = [], st_params = [], st_responses = []\<rparr>"

subsection \<open>Properties\<close>

text \<open>Header pairs added one after the other.\<close>

fun with_headers ::
  "('v, 'm) envoy_adapter \<Rightarrow> ('v \<times> 'v) list \<Rightarrow> 'v \<times> 'm store \<Rightarrow> 'v \<times> 'm store" where
  "with_headers A [] r = r"
| "with_headers A ((k, v) # hs) (ok, s) = with_headers A hs (ok_with_header_string_string A ok k v s)"

definition headers_of :: "'m store \<Rightarrow> nat \<Rightarrow> (string \<times> string) list" where
  "headers_of s a = map (\<lambda>h. (ho_key (st_headers s ! h), ho_value (st_headers s ! h))) (ok_headers (st_oks s ! a))"

lemma with_headers_spec:
  assumes "adapter_ok A" and "list_all2 (\<lambda>(k, v) (k', v'). ea_string A k = Inr k' \<and> ea_string A v = Inr v') hs hs'"
    and "a < length (st_oks s)" and "\<forall>h \<in> set (ok_headers (st_oks s ! a)). h < length (st_headers s)"
  shows "\<exists>s'. with_headers A hs (ea_of_ok A a, s) = (ea_of_ok A a, s') \<and>
    headers_of s' a = headers_of s a @ hs' \<and> length (st_oks s') = length (st_oks s) \<and>
    (\<forall>b. b \<noteq> a \<longrightarrow> st_oks s' ! b = st_oks s ! b) \<and> st_responses s' = st_responses s"
  using assms(2-)
proof (induction hs hs' arbitrary: s rule: list_all2_induct)
  case (Cons kv hs kv' hs')
  obtain k v k' v' where kv: "kv = (k, v)" "kv' = (k', v')" by fastforce
  let ?h = "\<lparr>ho_key = k', ho_value = v', ho_keep_empty = False\<rparr>"
  define s1 where "s1 = s\<lparr>st_headers := st_headers s @ [?h],
    st_oks := (st_oks s)[a := (st_oks s ! a)\<lparr>ok_headers := ok_headers (st_oks s ! a) @ [length (st_headers s)]\<rparr>]\<rparr>"
  have step: "ok_with_header_string_string A (ea_of_ok A a) k v s = (ea_of_ok A a, s1)"
    using assms(1) Cons.hyps kv by (simp add: envoy_lib_defs adapter_ok_def s1_def)
  have pre: "a < length (st_oks s1)" "\<forall>h \<in> set (ok_headers (st_oks s1 ! a)). h < length (st_headers s1)"
    using Cons.prems by (auto simp: s1_def less_Suc_eq)
  have "headers_of s1 a = headers_of s a @ [(k', v')]"
    using Cons.prems by (auto simp: headers_of_def s1_def nth_append)
  moreover have "st_responses s1 = st_responses s" "length (st_oks s1) = length (st_oks s)"
    "\<forall>b. b \<noteq> a \<longrightarrow> st_oks s1 ! b = st_oks s ! b"
    by (auto simp: s1_def)
  ultimately show ?case using Cons.IH [OF pre] step kv by auto
qed simp

text \<open>
  Building an allowed response keeps every header in order: after \<open>Allowed()\<close> and any number of
  \<open>WithHeader(key, value)\<close>, \<open>Response()\<close> is a check response with status OK whose allowed part
  carries exactly these headers; no other allowed response of the store changes.\<close>

theorem allowed_response_headers:
  assumes "adapter_ok A"
    and "list_all2 (\<lambda>(k, v) (k', v'). ea_string A k = Inr k' \<and> ea_string A v = Inr v') hs hs'"
    and "with_headers A hs (envoy_allowed A s) = (ok, s1)" and "envoy_response_ok A ok s1 = (resp, s2)"
  shows "\<exists>a r. ok = ea_of_ok A a \<and> resp = ea_of_response A r \<and>
    er_status (st_responses s2 ! r) = Some \<lparr>rs_code = code_OK, rs_message = []\<rparr> \<and>
    er_http (st_responses s2 ! r) = Ok_http a \<and> headers_of s2 a = hs' \<and>
    (\<forall>b < length (st_oks s). st_oks s2 ! b = st_oks s ! b)"
proof -
  let ?a = "length (st_oks s)" and ?s0 = "s\<lparr>st_oks := st_oks s @ [empty_ok]\<rparr>"
  have "envoy_allowed A s = (ea_of_ok A ?a, ?s0)" by (simp add: envoy_allowed_def)
  with with_headers_spec [OF assms(1,2), of ?a ?s0] assms(3)
  have s1: "ok = ea_of_ok A ?a" "headers_of s1 ?a = hs'" "\<forall>b. b \<noteq> ?a \<longrightarrow> st_oks s1 ! b = st_oks ?s0 ! b"
    by (auto simp: empty_ok_def headers_of_def)
  with assms(1,4) have "resp = ea_of_response A (length (st_responses s1))"
    "s2 = s1\<lparr>st_responses := st_responses s1 @ [\<lparr>er_status = Some \<lparr>rs_code = code_OK, rs_message = []\<rparr>,
       er_http = Ok_http ?a, er_metadata = None\<rparr>]\<rparr>"
    by (auto simp: envoy_response_ok_def native_def new_response_def adapter_ok_def)
  with s1 show ?thesis
    by (intro exI [of _ ?a] exI [of _ "length (st_responses s1)"]) (simp add: headers_of_def nth_append)
qed

text \<open>
  The builders change their argument: when a response was built from an allowed part and a
  header is added to that part afterwards, the response built before carries the header too. A
  policy that keeps an allowed part in a variable and extends it twice sends both headers.\<close>

theorem builders_alias:
  assumes "adapter_ok A" and "a < length (st_oks s)"
    and "ea_string A k = Inr k'" and "ea_string A v = Inr v'"
    and "envoy_response_ok A (ea_of_ok A a) s = (resp, s1)"
    and "ok_with_header_string_string A (ea_of_ok A a) k v s1 = (ok, s2)"
  shows "\<exists>r h. resp = ea_of_response A r \<and> er_http (st_responses s2 ! r) = Ok_http a \<and>
    ok_headers (st_oks s2 ! a) = ok_headers (st_oks s ! a) @ [h] \<and>
    st_headers s2 ! h = \<lparr>ho_key = k', ho_value = v', ho_keep_empty = False\<rparr>"
  using assms
  by (auto simp: envoy_lib_defs adapter_ok_def)

text \<open>
  A denial says what the policy said: \<open>Denied(code).WithBody(body).Response()\<close> is a check response
  with status PermissionDenied whose denied part has that code and that body and no header; setting
  a message on it never panics, while it panics on a response with no status.\<close>

theorem denied_response_body:
  assumes "adapter_ok A" and "ea_code A c = Inr code" and "ea_string A b = Inr body" and "ea_string A m = Inr msg"
    and "envoy_denied A c s = (d, s1)" and "denied_with_body A d b s1 = (d', s2)"
    and "envoy_response_denied A d' s2 = (resp, s3)"
  shows "resp = ea_of_response A (length (st_responses s)) \<and>
    st_responses s3 = st_responses s @ [\<lparr>er_status = Some \<lparr>rs_code = code_PermissionDenied, rs_message = []\<rparr>,
      er_http = Denied_http (length (st_denied s)), er_metadata = None\<rparr>] \<and>
    st_denied s3 = st_denied s @ [\<lparr>dn_status = code, dn_headers = [], dn_body = body\<rparr>] \<and>
    (\<exists>s4. response_with_message A resp m s3 = Ret (resp, s4)) \<and>
    (\<forall>r s. er_status (st_responses s ! r) = None \<longrightarrow>
      response_with_message A (ea_of_response A r) m s = Panic ''nil pointer dereference'')"
  using assms by (auto simp: envoy_lib_defs adapter_ok_def)

theorem allowed_response_headers_witness:
  "\<exists>s1 s2 resp. with_headers envoy_values [(Str_v ''a'', Str_v ''1''), (Str_v ''b'', Str_v ''2'')]
      (envoy_allowed envoy_values empty_store) = (Ok_v 0, s1) \<and>
    envoy_response_ok envoy_values (Ok_v 0) s1 = (resp, s2) \<and> headers_of s2 0 = [(''a'', ''1''), (''b'', ''2'')]"
proof -
  let ?hs = "[(Str_v ''a'', Str_v ''1''), (Str_v ''b'', Str_v ''2'')]"
  obtain s1 where s1: "with_headers envoy_values ?hs (envoy_allowed envoy_values empty_store) = (Ok_v 0, s1)"
    by (simp add: envoy_lib_defs empty_store_def)
  obtain resp s2 where s2: "envoy_response_ok envoy_values (Ok_v 0) s1 = (resp, s2)" by fastforce
  have "list_all2 (\<lambda>(k, v) (k', v'). ea_string envoy_values k = Inr k' \<and> ea_string envoy_values v = Inr v')
      ?hs [(''a'', ''1''), (''b'', ''2'')]" by simp
  from allowed_response_headers [OF envoy_values_ok this s1 s2] s1 s2 show ?thesis by auto
qed

theorem builders_alias_witness:
  "\<exists>r s1 s2 ok. envoy_response_ok envoy_values (Ok_v 0) (snd (envoy_allowed envoy_values empty_store)) = (Response_v r, s1) \<and>
    ok_with_header_string_string envoy_values (Ok_v 0) (Str_v ''x'') (Str_v ''1'') s1 = (ok, s2) \<and>
    ok_headers (st_oks s2 ! 0) \<noteq> []"
proof -
  let ?s = "snd (envoy_allowed envoy_values empty_store)"
  obtain resp s1 where s1: "envoy_response_ok envoy_values (Ok_v 0) ?s = (resp, s1)" by fastforce
  obtain ok s2 where s2: "ok_with_header_string_string envoy_values (Ok_v 0) (Str_v ''x'') (Str_v ''1'') s1 = (ok, s2)"
    by fastforce
  have "0 < length (st_oks ?s)" by (simp add: envoy_allowed_def)
  from builders_alias [OF envoy_values_ok this, of "Str_v ''x''" "''x''" "Str_v ''1''" "''1''" resp s1 ok s2] s1 s2
  show ?thesis by auto
qed

theorem denied_response_body_witness:
  "\<exists>s. response_with_message envoy_values (Response_v 0) (Str_v ''m'')
      (empty_store\<lparr>st_responses := [\<lparr>er_status = None, er_http = No_http, er_metadata = None\<rparr>]\<rparr>) =
    Panic ''nil pointer dereference'' \<and>
    st_denied (snd (denied_with_body envoy_values (Denied_v 0) (Str_v ''no'') s)) ! 0 =
      \<lparr>dn_status = 403, dn_headers = [], dn_body = ''no''\<rparr>"
proof -
  obtain s1 where s1: "envoy_denied envoy_values (Int_v 403) empty_store = (Denied_v 0, s1)"
    by (simp add: envoy_lib_defs empty_store_def)
  obtain s2 where s2: "denied_with_body envoy_values (Denied_v 0) (Str_v ''no'') s1 = (Denied_v 0, s2)"
    by (simp add: envoy_lib_defs)
  obtain s3 where s3: "envoy_response_denied envoy_values (Denied_v 0) s2 = (Response_v (length (st_responses s2)), s3)"
    by (simp add: envoy_lib_defs)
  have d: "st_denied s3 = st_denied s2" using s3 by (auto simp: envoy_lib_defs)
  from denied_response_body [OF envoy_values_ok _ _ _ s1 s2 s3, of 403 "''no''" "Str_v ''m''" "''m''"] d
  show ?thesis by (intro exI [of _ s1]) (simp add: s2 empty_store_def)
qed

end
