(* ===== verification/Jwt_Lib.thy ===== *)
theory Jwt_Lib
  imports Prelude
begin

section \<open>Tokens, key sets and JSON\<close>

text \<open>
  Models \<open>pkg/cel/libs/jwt/impl.go\<close>, \<open>pkg/cel/libs/jwk/impl.go\<close> and \<open>pkg/cel/libs/json/impl.go\<close>.
  Parsing and verifying a token, importing and fetching keys and building a protobuf struct are
  third-party: the fields of \<open>jwt_lib\<close>. A parsed token is its keys and its \<open>Get\<close>; the value of
  a claim is a time, a list of strings (the Go type \<open>[]string\<close>) or any other value.
\<close>

datatype 'x claim = Time_claim int | Strings_claim "string list" | Other_claim 'x

datatype 'x field_value =
    Unix_field int
  | Untyped_list "string list"
  | Go_value "'x claim"

record 'x token =
  tk_keys :: "string list"
  tk_get :: "string \<Rightarrow> go_error + 'x claim"

record ('set, 'x, 'st) jwt_lib =
  jl_import :: "string \<Rightarrow> go_error + 'set"
  jl_parse :: "string \<Rightarrow> 'set \<Rightarrow> go_error + 'x token"
  jl_validate :: "'x token \<Rightarrow> go_error option"
  jl_fetch :: "string \<Rightarrow> go_error + 'set"
  jl_new_struct :: "(string, 'x field_value) gomap \<Rightarrow> go_error + 'st"

record 'st token_value =
  tv_claims :: "'st option"
  tv_valid :: bool

record ('v, 'set, 'st, 'j) jwt_adapter =
  ja_string :: "'v \<Rightarrow> go_error + string"
  ja_set :: "'v \<Rightarrow> go_error + 'set"
  ja_json :: "'v \<Rightarrow> go_error + (string \<Rightarrow> go_error + 'j)"
  ja_of_token :: "'st token_value \<Rightarrow> 'v"
  ja_of_set :: "'set \<Rightarrow> 'v"
  ja_of_json :: "'j \<Rightarrow> 'v"
  ja_wrap_err :: "go_error \<Rightarrow> 'v"

subsection \<open>The functions\<close>

fun key_fields :: "'x token \<Rightarrow> string list \<Rightarrow> (string, 'x field_value) gomap \<Rightarrow> go_error + (string, 'x field_value) gomap" where
  "key_fields tok [] flds = Inr flds"
| "key_fields tok (key # keys) flds =
     (case tk_get tok key of
        Inl err \<Rightarrow> Inl err
      | Inr value \<Rightarrow>
          key_fields tok keys (AList.update key
            (case value of Time_claim t \<Rightarrow> Unix_field t | _ \<Rightarrow> Go_value value) flds))"

fun set_fields :: "'x token \<Rightarrow> string list \<Rightarrow> (string, 'x field_value) gomap \<Rightarrow> go_error + (string, 'x field_value) gomap" where
  "set_fields tok [] flds = Inr flds"
| "set_fields tok (key # keys) flds =
     (case tk_get tok key of
        Inl err \<Rightarrow> Inl err
      | Inr value \<Rightarrow>
          set_fields tok keys (AList.update key
            (case value of
               Time_claim t \<Rightarrow> Unix_field t
             | Strings_claim vs \<Rightarrow> Untyped_list vs
             | _ \<Rightarrow> Go_value value) flds))"

definition token_claims ::
  "('set, 'x, 'st) jwt_lib \<Rightarrow> ('x token \<Rightarrow> string list \<Rightarrow> (string, 'x field_value) gomap \<Rightarrow> go_error + (string, 'x field_value) gomap) \<Rightarrow>
   'x token \<Rightarrow> go_error + 'st option" where
  "token_claims J flds tok =
     (if tk_keys tok = [] then Inr None
      else case flds tok (tk_keys tok) [] of
        Inl err \<Rightarrow> Inl err
      | Inr fs \<Rightarrow> (case jl_new_struct J fs of Inl err \<Rightarrow> Inl err | Inr st \<Rightarrow> Inr (Some st)))"

definition decode_string_string ::
  "('v, 'set, 'st, 'j) jwt_adapter \<Rightarrow> ('set, 'x, 'st) jwt_lib \<Rightarrow> 'v \<Rightarrow> 'v \<Rightarrow> 'v" where
  "decode_string_string A J token key =
     (case ja_string A token of Inl err \<Rightarrow> ja_wrap_err A err | Inr t \<Rightarrow>
     (case ja_string A key of Inl err \<Rightarrow> ja_wrap_err A err | Inr k \<Rightarrow>
     (case jl_import J k of Inl err \<Rightarrow> ja_wrap_err A err | Inr keyset \<Rightarrow>
     (case jl_parse J t keyset of Inl err \<Rightarrow> ja_wrap_err A err | Inr tok \<Rightarrow>
     (case token_claims J key_fields tok of Inl err \<Rightarrow> ja_wrap_err A err | Inr claims \<Rightarrow>
        ja_of_token A \<lparr>tv_claims = claims, tv_valid = (jl_validate J tok = None)\<rparr>)))))"

definition decode_string_set ::
  "('v, 'set, 'st, 'j) jwt_adapter \<Rightarrow> ('set, 'x, 'st) jwt_lib \<Rightarrow> 'v \<Rightarrow> 'v \<Rightarrow> 'v" where
  "decode_string_set A J token keyset =
     (case ja_string A token of Inl err \<Rightarrow> ja_wrap_err A err | Inr t \<Rightarrow>
     (case ja_set A keyset of Inl err \<Rightarrow> ja_wrap_err A err | Inr ks \<Rightarrow>
     (case jl_parse J t ks of Inl err \<Rightarrow> ja_wrap_err A err | Inr tok \<Rightarrow>
     (case token_claims J set_fields tok of Inl err \<Rightarrow> ja_wrap_err A err | Inr claims \<Rightarrow>
        ja_of_token A \<lparr>tv_claims = claims, tv_valid = (jl_validate J tok = None)\<rparr>))))"

definition jwk_fetch :: "('v, 'set, 'st, 'j) jwt_adapter \<Rightarrow> ('set, 'x, 'st) jwt_lib \<Rightarrow> 'v \<Rightarrow> 'v" where
  "jwk_fetch A J from_url =
     (case ja_string A from_url of
        Inl err \<Rightarrow> ja_wrap_err A err
      | Inr url \<Rightarrow> (case jl_fetch J url of Inl err \<Rightarrow> ja_wrap_err A err | Inr ks \<Rightarrow> ja_of_set A ks))"

definition json_unmarshal :: "('v, 'set, 'st, 'j) jwt_adapter \<Rightarrow> 'v \<Rightarrow> 'v \<Rightarrow> 'v" where
  "json_unmarshal A json value =
     (case ja_json A json of Inl err \<Rightarrow> ja_wrap_err A err | Inr unmarshal \<Rightarrow>
     (case ja_string A value of Inl err \<Rightarrow> ja_wrap_err A err | Inr s \<Rightarrow>
     (case unmarshal s of Inl err \<Rightarrow> ja_wrap_err A err | Inr j \<Rightarrow> ja_of_json A j)))"

subsection \<open>Facts\<close>

text \<open>
  Documented by the protobuf runtime: a struct can be built from untyped lists and numbers, and
  not from a Go slice of strings.
\<close>

definition struct_ok :: "('set, 'x, 'st) jwt_lib \<Rightarrow> bool" where
  "struct_ok J \<longleftrightarrow>
     (\<forall>fs k vs. (k, Go_value (Strings_claim vs)) \<in> set fs \<longrightarrow> (\<exists>err. jl_new_struct J fs = Inl err))"

definition has_strings :: "'x token \<Rightarrow> string \<Rightarrow> bool" where
  "has_strings tok k \<longleftrightarrow> (\<exists>vs. tk_get tok k = Inr (Strings_claim vs))"

lemma fields_agree:
  "\<forall>k \<in> set keys. \<not> has_strings tok k \<Longrightarrow> key_fields tok keys flds = set_fields tok keys flds"
  by (induction keys arbitrary: flds) (auto simp: has_strings_def split: sum.split claim.split)

lemma key_fields_lookup:
  assumes "key_fields tok keys flds = Inr fs" and "has_strings tok k"
    and "k \<in> set keys \<or> (\<exists>vs. map_of flds k = Some (Go_value (Strings_claim vs)))"
  shows "\<exists>vs. map_of fs k = Some (Go_value (Strings_claim vs))"
  using assms
proof (induction keys arbitrary: flds)
  case (Cons key keys)
  obtain vs where vs: "tk_get tok k = Inr (Strings_claim vs)" using Cons.prems(2) by (auto simp: has_strings_def)
  obtain val where v: "tk_get tok key = Inr val"
    and rest: "key_fields tok keys (AList.update key
      (case val of Time_claim t \<Rightarrow> Unix_field t | _ \<Rightarrow> Go_value val) flds) = Inr fs"
    using Cons.prems(1) by (auto split: sum.splits)
  show ?case
  proof (rule Cons.IH [OF rest Cons.prems(2)])
    show "k \<in> set keys \<or> (\<exists>vs. map_of (AList.update key
        (case val of Time_claim t \<Rightarrow> Unix_field t | _ \<Rightarrow> Go_value val) flds) k =
        Some (Go_value (Strings_claim vs)))"
      using Cons.prems(3) v vs by (cases "key = k") auto
  qed
qed simp

subsection \<open>Properties\<close>

text \<open>
  Decoding with a key and decoding with the set of that one key give the same value for a token
  without string-list claims. A token that has one, such as an audience, is rejected by the
  first, whatever its signature, although the second accepts it.\<close>

theorem decode_agrees_without_lists:
  assumes "struct_ok J" and "ja_string A token = Inr t" and "ja_string A key = Inr k"
    and "ja_set A keyset = Inr ks" and "jl_import J k = Inr ks" and "jl_parse J t ks = Inr tok"
  shows "((\<forall>c \<in> set (tk_keys tok). \<not> has_strings tok c) \<longrightarrow>
      decode_string_string A J token key = decode_string_set A J token keyset) \<and>
    ((\<exists>c \<in> set (tk_keys tok). has_strings tok c) \<longrightarrow>
      (\<exists>err. decode_string_string A J token key = ja_wrap_err A err))"
proof (intro conjI impI)
  assume "\<forall>c \<in> set (tk_keys tok). \<not> has_strings tok c"
  then have "token_claims J key_fields tok = token_claims J set_fields tok"
    using fields_agree [of "tk_keys tok" tok "[]"] by (simp add: token_claims_def)
  with assms show "decode_string_string A J token key = decode_string_set A J token keyset"
    by (simp add: decode_string_string_def decode_string_set_def)
next
  assume "\<exists>c \<in> set (tk_keys tok). has_strings tok c"
  then obtain c where c: "c \<in> set (tk_keys tok)" "has_strings tok c" by blast
  have "\<exists>err. token_claims J key_fields tok = Inl err"
  proof (cases "key_fields tok (tk_keys tok) []")
    case (Inr fs)
    from key_fields_lookup [OF Inr c(2)] c(1) obtain vs where "(c, Go_value (Strings_claim vs)) \<in> set fs"
      by (auto dest: map_of_SomeD)
    with assms(1) obtain err where "jl_new_struct J fs = Inl err" unfolding struct_ok_def by blast
    with Inr c(1) show ?thesis by (auto simp: token_claims_def)
  qed (use c in \<open>auto simp: token_claims_def\<close>)
  with assms show "\<exists>err. decode_string_string A J token key = ja_wrap_err A err"
    by (auto simp: decode_string_string_def)
qed

text \<open>A concrete library: one token with an audience, whose structs are their fields.\<close>

definition aud_token :: "unit token" where
  "aud_token = \<lparr>tk_keys = [''aud'', ''exp''],
     tk_get = (\<lambda>k. if k = ''aud'' then Inr (Strings_claim [''me'']) else Inr (Time_claim 7))\<rparr>"

definition aud_lib :: "(unit, unit, (string, unit field_value) gomap) jwt_lib" where
  "aud_lib = \<lparr>
     jl_import = (\<lambda>_. Inr ()), jl_parse = (\<lambda>_ _. Inr aud_token), jl_validate = (\<lambda>_. None), jl_fetch = (\<lambda>_. Inr ()),
     jl_new_struct = (\<lambda>fs. if list_ex (\<lambda>(_, v). case v of Go_value (Strings_claim _) \<Rightarrow> True | _ \<Rightarrow> False) fs
        then Inl (Errorf ''invalid type: []string'') else Inr fs)\<rparr>"

definition aud_adapter ::
  "(string + (string, unit field_value) gomap token_value + go_error, unit, (string, unit field_value) gomap, unit) jwt_adapter" where
  "aud_adapter = \<lparr>
     ja_string = (\<lambda>v. case v of Inl s \<Rightarrow> Inr s | Inr _ \<Rightarrow> Inl (Errorf ''conversion'')),
     ja_set = (\<lambda>_. Inr ()), ja_json = (\<lambda>_. Inl (Errorf ''conversion'')),
     ja_of_token = (\<lambda>t. Inr (Inl t)), ja_of_set = (\<lambda>_. Inl ''set''), ja_of_json = (\<lambda>_. Inl ''json''),
     ja_wrap_err = (\<lambda>e. Inr (Inr e))\<rparr>"

lemma aud_struct_ok: "struct_ok aud_lib"
  by (force simp: struct_ok_def aud_lib_def list_ex_iff)

theorem decode_agrees_without_lists_witness:
  "\<exists>err. decode_string_string aud_adapter aud_lib (Inl ''token'') (Inl ''key'') = ja_wrap_err aud_adapter err"
  using decode_agrees_without_lists [OF aud_struct_ok, of aud_adapter "Inl ''token''" "''token''" "Inl ''key''" "''key''"
      "Inl ''set''" "()" aud_token]
  by (simp add: aud_lib_def aud_adapter_def aud_token_def has_strings_def)

end
