(* ===== verification/Cel_Overloads.thy ===== *)
theory Cel_Overloads
  imports Compiler
begin

section \<open>The functions the CEL libraries declare\<close>

text \<open>
  The overload tables of the libraries under \<open>pkg/cel/libs\<close> (their \<open>lib.go\<close>): the name of each
  function, the identifier of each overload, whether it is called on a receiver, and its types.
  CEL decides by them which implementation a call of a policy reaches. The CEL library refuses
  overloads of one function and style whose argument types overlap.
\<close>

record overload =
  ov_function :: string
  ov_id :: string
  ov_member :: bool
  ov_args :: "cel_type list"
  ov_result :: cel_type

definition overload_of :: "string \<Rightarrow> string \<Rightarrow> cel_type list \<Rightarrow> cel_type \<Rightarrow> overload" where
  "overload_of f i args res = \<lparr>ov_function = f, ov_id = i, ov_member = False, ov_args = args, ov_result = res\<rparr>"

definition member_overload :: "string \<Rightarrow> string \<Rightarrow> cel_type list \<Rightarrow> cel_type \<Rightarrow> overload" where
  "member_overload f i args res = \<lparr>ov_function = f, ov_id = i, ov_member = True, ov_args = args, ov_result = res\<rparr>"

subsection \<open>Envoy\<close>

definition DeniedHttpResponse :: cel_type where
  "DeniedHttpResponse = Object_t ''envoy.service.auth.v3.DeniedHttpResponse''"
definition HeaderValueOption :: cel_type where
  "HeaderValueOption = Object_t ''envoy.config.core.v3.HeaderValueOption''"
definition Metadata :: cel_type where
  "Metadata = Object_t ''google.protobuf.Struct''"
definition OkHttpResponse :: cel_type where
  "OkHttpResponse = Object_t ''envoy.service.auth.v3.OkHttpResponse''"
definition QueryParameter :: cel_type where
  "QueryParameter = Object_t ''envoy.config.core.v3.QueryParameter''"

definition envoy_overloads :: "overload list" where
  "envoy_overloads =
     [overload_of ''envoy.Allowed'' ''allowed'' [] OkHttpResponse,
      overload_of ''envoy.Denied'' ''denied'' [Int_t] DeniedHttpResponse,
      overload_of ''envoy.Header'' ''header_key_value'' [String_t, String_t] HeaderValueOption,
      overload_of ''envoy.QueryParam'' ''queryparam_key_value'' [String_t, String_t] QueryParameter,
      member_overload ''WithBody'' ''denied_with_body'' [DeniedHttpResponse, String_t] DeniedHttpResponse,
      member_overload ''WithHeader'' ''ok_with_header_header'' [OkHttpResponse, HeaderValueOption] OkHttpResponse,
      member_overload ''WithHeader'' ''ok_with_header_string_string'' [OkHttpResponse, String_t, String_t] OkHttpResponse,
      member_overload ''WithHeader'' ''denied_with_header_header'' [DeniedHttpResponse, HeaderValueOption] DeniedHttpResponse,
      member_overload ''WithHeader'' ''denied_with_header_string_string'' [DeniedHttpResponse, String_t, String_t] DeniedHttpResponse,
      member_overload ''WithoutHeader'' ''ok_without_header'' [OkHttpResponse, String_t] OkHttpResponse,
      member_overload ''WithResponseHeader'' ''ok_with_response_header_header'' [OkHttpResponse, HeaderValueOption] OkHttpResponse,
      member_overload ''WithResponseHeader'' ''ok_with_response_header_string_string'' [OkHttpResponse, String_t, String_t] OkHttpResponse,
      member_overload ''WithQueryParam'' ''ok_with_queryparam_param'' [OkHttpResponse, QueryParameter] OkHttpResponse,
      member_overload ''WithQueryParam'' ''ok_with_queryparam_string_string'' [OkHttpResponse, String_t, String_t] OkHttpResponse,
      member_overload ''WithoutQueryParam'' ''ok_without_queryparam_string'' [OkHttpResponse, String_t] OkHttpResponse,
      member_overload ''KeepEmptyValue'' ''header_keep_empty_value'' [HeaderValueOption] HeaderValueOption,
      member_overload ''KeepEmptyValue'' ''header_keep_empty_value_bool'' [HeaderValueOption, Bool_t] HeaderValueOption,
      member_overload ''Response'' ''ok_response'' [OkHttpResponse] envoy_CheckResponse,
      member_overload ''Response'' ''denied_response'' [DeniedHttpResponse] envoy_CheckResponse,
      member_overload ''WithMessage'' ''response_ok_with_message'' [envoy_CheckResponse, String_t] envoy_CheckResponse,
      member_overload ''WithMetadata'' ''response_ok_with_metadata'' [envoy_CheckResponse, Metadata] envoy_CheckResponse]"

subsection \<open>HTTP\<close>

definition RequestAttributesType :: cel_type where
  "RequestAttributesType = Object_t ''http.CheckRequestAttributes''"
definition ResponseOkType :: cel_type where "ResponseOkType = Object_t ''http.CheckResponseOk''"
definition ResponseDeniedType :: cel_type where "ResponseDeniedType = Object_t ''http.CheckResponseDenied''"

definition http_overloads :: "overload list" where
  "http_overloads =
     [overload_of ''http.Allowed'' ''http_allowed'' [] ResponseOkType,
      overload_of ''http.Denied'' ''http_denied_string'' [String_t] ResponseDeniedType,
      member_overload ''Header'' ''http_get_header_string'' [RequestAttributesType, String_t] (List_t String_t),
      member_overload ''QueryParam'' ''http_get_queryparam_string'' [RequestAttributesType, String_t] (List_t String_t),
      member_overload ''Response'' ''http_response_ok'' [ResponseOkType] http_ResponseType,
      member_overload ''Response'' ''http_response_denied'' [ResponseDeniedType] http_ResponseType]"

subsection \<open>Tokens, key sets, JSON and MCP\<close>

definition SetType :: cel_type where "SetType = Opaque_t ''jwk.Set''"
definition TokenType :: cel_type where "TokenType = Object_t ''jwt.Token''"
definition JsonType :: cel_type where "JsonType = Opaque_t ''json.Json''"
definition MCPType :: cel_type where "MCPType = Opaque_t ''mcp.MCP''"
definition MCPRequestType :: cel_type where "MCPRequestType = Object_t ''mcp.MCPRequest''"

definition jwk_overloads :: "overload list" where
  "jwk_overloads = [overload_of ''jwks.Fetch'' ''fetch_string'' [String_t] SetType]"

definition jwt_overloads :: "overload list" where
  "jwt_overloads =
     [overload_of ''jwt.Decode'' ''decode_string_string'' [String_t, String_t] TokenType,
      overload_of ''jwt.Decode'' ''decode_string_set'' [String_t, SetType] TokenType]"

definition json_overloads :: "overload list" where
  "json_overloads = [member_overload ''Unmarshal'' ''unmarshal_string_dyn'' [JsonType, Dyn_t] Dyn_t]"

definition mcp_overloads :: "overload list" where
  "mcp_overloads =
     [member_overload ''Parse'' ''mcp_parse_bytes_dyn'' [MCPType, Dyn_t] MCPRequestType,
      member_overload ''GetStringArgument'' ''mcp_get_string'' [MCPRequestType, String_t, String_t] String_t,
      member_overload ''GetIntArgument'' ''mcp_get_int'' [MCPRequestType, Int_t, Int_t] Int_t,
      member_overload ''GetFloatArgument'' ''mcp_get_float'' [MCPRequestType, Double_t, Double_t] Double_t,
      member_overload ''GetBoolArgument'' ''mcp_get_bool'' [MCPRequestType, Bool_t, Bool_t] Bool_t,
      member_overload ''GetStringSliceArgument'' ''mcp_get_string_slice'' [MCPRequestType, String_t, String_t] (List_t String_t),
      member_overload ''GetIntSliceArgument'' ''mcp_get_int_slice'' [MCPRequestType, Int_t, Int_t] (List_t Int_t),
      member_overload ''GetFloatSliceArgument'' ''mcp_get_float_slice'' [MCPRequestType, Double_t, Double_t] (List_t Double_t),
      member_overload ''GetBoolSliceArgument'' ''mcp_get_bool_slice'' [MCPRequestType, Bool_t, Bool_t] (List_t Bool_t)]"

text \<open>The functions an environment of a mode gets from the libraries of this repository.\<close>

definition mode_overloads :: "string \<Rightarrow> overload list" where
  "mode_overloads mode =
     (if mode = EvaluationModeEnvoy then envoy_overloads
      else if mode = EvaluationModeHTTP then http_overloads else []) @
     jwk_overloads @ jwt_overloads @ json_overloads @ mcp_overloads"

subsection \<open>Resolution\<close>

text \<open>Types whose values overlap: equal types, or types where one is dynamic.\<close>

fun compatible :: "cel_type \<Rightarrow> cel_type \<Rightarrow> bool" where
  "compatible (List_t a) (List_t b) = compatible a b"
| "compatible a b \<longleftrightarrow> a = Dyn_t \<or> b = Dyn_t \<or> a = b"

definition accepts :: "string \<Rightarrow> bool \<Rightarrow> cel_type list \<Rightarrow> overload \<Rightarrow> bool" where
  "accepts f member types ov \<longleftrightarrow>
     ov_function ov = f \<and> ov_member ov = member \<and> list_all2 compatible (ov_args ov) types"

definition resolve :: "string \<Rightarrow> string \<Rightarrow> bool \<Rightarrow> cel_type list \<Rightarrow> overload list" where
  "resolve mode f member types = filter (accepts f member types) (mode_overloads mode)"

definition resolves_to_itself :: "string \<Rightarrow> overload \<Rightarrow> bool" where
  "resolves_to_itself mode ov \<longleftrightarrow> resolve mode (ov_function ov) (ov_member ov) (ov_args ov) = [ov]"

lemma envoy_resolution: "list_all (resolves_to_itself ''Envoy'') (mode_overloads ''Envoy'')"
  by code_simp

lemma http_resolution: "list_all (resolves_to_itself ''HTTP'') (mode_overloads ''HTTP'')"
  by code_simp

lemma overload_ids: "distinct (map ov_id (mode_overloads ''Envoy''))" "distinct (map ov_id (mode_overloads ''HTTP''))"
  by code_simp+

lemma overload_results:
  "list_all (\<lambda>ov. ov_result ov \<noteq> http_ResponseType) (mode_overloads ''Envoy'')"
  "list_all (\<lambda>ov. ov_result ov \<noteq> envoy_CheckResponse) (mode_overloads ''HTTP'')"
  by code_simp+

subsection \<open>Properties\<close>

text \<open>
  Every call of a policy reaches one implementation: in the environment of each authorization
  mode no identifier is declared twice, a call with the declared types of an overload is
  accepted by that overload and no other, and no function of one mode builds the response type
  of the other.\<close>

theorem calls_resolve_uniquely:
  assumes "mode \<in> {EvaluationModeEnvoy, EvaluationModeHTTP}" and "ov \<in> set (mode_overloads mode)"
  shows "distinct (map ov_id (mode_overloads mode)) \<and>
    resolve mode (ov_function ov) (ov_member ov) (ov_args ov) = [ov] \<and>
    ov_result ov \<noteq> (if mode = EvaluationModeEnvoy then http_ResponseType else envoy_CheckResponse)"
proof -
  from assms(1) consider "mode = ''Envoy''" | "mode = ''HTTP''"
    by (auto simp: EvaluationModeEnvoy_def EvaluationModeHTTP_def)
  then show ?thesis
    using assms(2) envoy_resolution http_resolution overload_ids overload_results
    by cases (auto simp: list_all_iff resolves_to_itself_def EvaluationModeEnvoy_def)
qed

theorem calls_resolve_uniquely_witness:
  "resolve EvaluationModeHTTP ''http.Denied'' False [String_t] =
     [overload_of ''http.Denied'' ''http_denied_string'' [String_t] ResponseDeniedType]"
  using calls_resolve_uniquely [of EvaluationModeHTTP
      "overload_of ''http.Denied'' ''http_denied_string'' [String_t] ResponseDeniedType"]
  by (simp add: mode_overloads_def http_overloads_def EvaluationModeEnvoy_def EvaluationModeHTTP_def)
    (simp add: overload_of_def)

end
