(* ===== verification/Mcp_Lib.thy ===== *)
theory Mcp_Lib
  imports Cel_Overloads
begin

section \<open>The MCP library of CEL\<close>

text \<open>
  Models \<open>pkg/cel/libs/mcp\<close> and \<open>pkg/cel/impl/mcp.go\<close>: parsing an MCP request and reading its
  arguments. A dynamic Go value is \<open>go_any\<close>; Go integers are \<open>int\<close> here, because no operation
  on them overflows except the conversion of a float, which is a parameter like the rest of the
  floating point arithmetic (\<open>float_ops\<close>). The parameter types of the MCP library and their JSON
  decoders are third-party.
\<close>

subsection \<open>Dynamic values\<close>

datatype 'f go_any =
    Any_nil
  | Any_string string
  | Any_int int
  | Any_float 'f
  | Any_bool bool
  | Any_list "'f go_any list"
  | Any_map "(string \<times> 'f go_any) list"
  | Any_strings "string list"
  | Any_ints "int list"
  | Any_floats "'f list"
  | Any_bools "bool list"
  | Any_string_map "(string \<times> string) list"

record 'f float_ops =
  fo_to_int :: "'f \<Rightarrow> int"
  fo_of_int :: "int \<Rightarrow> 'f"
  fo_nonzero :: "'f \<Rightarrow> bool"
  fo_parse :: "string \<Rightarrow> 'f option"

text \<open>\<open>strconv.Atoi\<close> on 64-bit integers and \<open>strconv.ParseBool\<close>.\<close>

definition digit_value :: "char \<Rightarrow> nat option" where
  "digit_value c = (let n = of_char c :: nat in if 48 \<le> n \<and> n \<le> 57 then Some (n - 48) else None)"

fun digits_value :: "string \<Rightarrow> int \<Rightarrow> int option" where
  "digits_value [] acc = Some acc"
| "digits_value (c # cs) acc =
     (case digit_value c of None \<Rightarrow> None | Some d \<Rightarrow> digits_value cs (acc * 10 + int d))"

definition atoi :: "string \<Rightarrow> int option" where
  "atoi s =
     (let (sign, ds) = (case s of
         [] \<Rightarrow> (1, [])
       | c # cs \<Rightarrow> if c = CHR ''-'' then (-1, cs) else if c = CHR ''+'' then (1, cs) else (1, s))
      in if ds = [] then None
         else case digits_value ds 0 of
           None \<Rightarrow> None
         | Some n \<Rightarrow> if - (2 ^ 63) \<le> sign * n \<and> sign * n < 2 ^ 63 then Some (sign * n) else None)"

definition parse_bool :: "string \<Rightarrow> bool option" where
  "parse_bool s =
     (if s \<in> {''1'', ''t'', ''T'', ''TRUE'', ''true'', ''True''} then Some True
      else if s \<in> {''0'', ''f'', ''F'', ''FALSE'', ''false'', ''False''} then Some False
      else None)"

subsection \<open>Requests\<close>

text \<open>
  The parameters of a tool call, a resource read and a prompt are read for their arguments; the
  others are opaque. A map is \<open>None\<close> when it is nil.
\<close>

record ('f, 'r) tool_call =
  tc_arguments :: "'f go_any"
  tc_rest :: 'r

record ('f, 'r) resource_read =
  rr_arguments :: "(string \<times> 'f go_any) list option"
  rr_rest :: 'r

record 'r prompt_get =
  pg_arguments :: "(string \<times> string) list option"
  pg_rest :: 'r

record ('f, 'r) mcp_request =
  mr_method :: string
  mr_id :: 'r
  mr_paginated :: "'r option"
  mr_tool_call :: "('f, 'r) tool_call option"
  mr_resource_read :: "('f, 'r) resource_read option"
  mr_prompt_get :: "'r prompt_get option"
  mr_initialize :: "'r option"
  mr_elicitation :: "'r option"
  mr_set_log_level :: "'r option"

definition get_arguments :: "('f, 'r) mcp_request \<Rightarrow> (string \<times> 'f go_any) list option" where
  "get_arguments r =
     (case map_option tc_arguments (mr_tool_call r) of
        Some (Any_map args) \<Rightarrow> Some args
      | _ \<Rightarrow>
          (case Option.bind (mr_resource_read r) rr_arguments of
             Some args \<Rightarrow> Some args
           | None \<Rightarrow>
               (case Option.bind (mr_prompt_get r) pg_arguments of
                  Some args \<Rightarrow> Some (map (\<lambda>(k, v). (k, Any_string v)) args)
                | None \<Rightarrow> None)))"

definition get_raw_arguments :: "('f, 'r) mcp_request \<Rightarrow> 'f go_any" where
  "get_raw_arguments r =
     (case mr_tool_call r of
        Some p \<Rightarrow> tc_arguments p
      | None \<Rightarrow>
          (case mr_resource_read r of
             Some p \<Rightarrow> Any_map (case rr_arguments p of Some m \<Rightarrow> m | None \<Rightarrow> [])
           | None \<Rightarrow>
               (case mr_prompt_get r of
                  Some p \<Rightarrow> Any_string_map (case pg_arguments p of Some m \<Rightarrow> m | None \<Rightarrow> [])
                | None \<Rightarrow> Any_nil)))"

text \<open>Indexing a nil map finds nothing.\<close>

definition argument :: "('f, 'r) mcp_request \<Rightarrow> string \<Rightarrow> 'f go_any option" where
  "argument r key = (case get_arguments r of None \<Rightarrow> None | Some args \<Rightarrow> map_of args key)"

subsection \<open>Arguments\<close>

definition get_string_argument :: "('f, 'r) mcp_request \<Rightarrow> string \<Rightarrow> string \<Rightarrow> string" where
  "get_string_argument r key dflt =
     (case argument r key of Some (Any_string s) \<Rightarrow> s | _ \<Rightarrow> dflt)"

definition get_int_argument :: "'f float_ops \<Rightarrow> ('f, 'r) mcp_request \<Rightarrow> string \<Rightarrow> int \<Rightarrow> int" where
  "get_int_argument F r key dflt =
     (case argument r key of
        Some (Any_int v) \<Rightarrow> v
      | Some (Any_float v) \<Rightarrow> fo_to_int F v
      | Some (Any_string v) \<Rightarrow> (case atoi v of Some i \<Rightarrow> i | None \<Rightarrow> dflt)
      | _ \<Rightarrow> dflt)"

definition get_float_argument :: "'f float_ops \<Rightarrow> ('f, 'r) mcp_request \<Rightarrow> string \<Rightarrow> 'f \<Rightarrow> 'f" where
  "get_float_argument F r key dflt =
     (case argument r key of
        Some (Any_float v) \<Rightarrow> v
      | Some (Any_int v) \<Rightarrow> fo_of_int F v
      | Some (Any_string v) \<Rightarrow> (case fo_parse F v of Some f \<Rightarrow> f | None \<Rightarrow> dflt)
      | _ \<Rightarrow> dflt)"

definition get_bool_argument :: "'f float_ops \<Rightarrow> ('f, 'r) mcp_request \<Rightarrow> string \<Rightarrow> bool \<Rightarrow> bool" where
  "get_bool_argument F r key dflt =
     (case argument r key of
        Some (Any_bool v) \<Rightarrow> v
      | Some (Any_string v) \<Rightarrow> (case parse_bool v of Some b \<Rightarrow> b | None \<Rightarrow> dflt)
      | Some (Any_int v) \<Rightarrow> v \<noteq> 0
      | Some (Any_float v) \<Rightarrow> fo_nonzero F v
      | _ \<Rightarrow> dflt)"

fun string_items :: "'f go_any list \<Rightarrow> string list \<Rightarrow> string list" where
  "string_items [] result = result"
| "string_items (item # items) result =
     string_items items (case item of Any_string str \<Rightarrow> result @ [str] | _ \<Rightarrow> result)"

fun int_items :: "'f float_ops \<Rightarrow> 'f go_any list \<Rightarrow> int list \<Rightarrow> int list" where
  "int_items F [] result = result"
| "int_items F (item # items) result =
     int_items F items
       (case item of
          Any_int num \<Rightarrow> result @ [num]
        | Any_float num \<Rightarrow> result @ [fo_to_int F num]
        | Any_string num \<Rightarrow> (case atoi num of Some i \<Rightarrow> result @ [i] | None \<Rightarrow> result)
        | _ \<Rightarrow> result)"

fun float_items :: "'f float_ops \<Rightarrow> 'f go_any list \<Rightarrow> 'f list \<Rightarrow> 'f list" where
  "float_items F [] result = result"
| "float_items F (item # items) result =
     float_items F items
       (case item of
          Any_float num \<Rightarrow> result @ [num]
        | Any_int num \<Rightarrow> result @ [fo_of_int F num]
        | Any_string num \<Rightarrow> (case fo_parse F num of Some f \<Rightarrow> result @ [f] | None \<Rightarrow> result)
        | _ \<Rightarrow> result)"

fun bool_items :: "'f float_ops \<Rightarrow> 'f go_any list \<Rightarrow> bool list \<Rightarrow> bool list" where
  "bool_items F [] result = result"
| "bool_items F (item # items) result =
     bool_items F items
       (case item of
          Any_bool b \<Rightarrow> result @ [b]
        | Any_string b \<Rightarrow> (case parse_bool b of Some parsed \<Rightarrow> result @ [parsed] | None \<Rightarrow> result)
        | Any_int b \<Rightarrow> result @ [b \<noteq> 0]
        | Any_float b \<Rightarrow> result @ [fo_nonzero F b]
        | _ \<Rightarrow> result)"

definition get_string_slice_argument :: "('f, 'r) mcp_request \<Rightarrow> string \<Rightarrow> string list \<Rightarrow> string list" where
  "get_string_slice_argument r key dflt =
     (case argument r key of Some (Any_strings v) \<Rightarrow> v | Some (Any_list v) \<Rightarrow> string_items v [] | _ \<Rightarrow> dflt)"

definition get_int_slice_argument :: "'f float_ops \<Rightarrow> ('f, 'r) mcp_request \<Rightarrow> string \<Rightarrow> int list \<Rightarrow> int list" where
  "get_int_slice_argument F r key dflt =
     (case argument r key of Some (Any_ints v) \<Rightarrow> v | Some (Any_list v) \<Rightarrow> int_items F v [] | _ \<Rightarrow> dflt)"

definition get_float_slice_argument :: "'f float_ops \<Rightarrow> ('f, 'r) mcp_request \<Rightarrow> string \<Rightarrow> 'f list \<Rightarrow> 'f list" where
  "get_float_slice_argument F r key dflt =
     (case argument r key of Some (Any_floats v) \<Rightarrow> v | Some (Any_list v) \<Rightarrow> float_items F v [] | _ \<Rightarrow> dflt)"

definition get_bool_slice_argument :: "'f float_ops \<Rightarrow> ('f, 'r) mcp_request \<Rightarrow> string \<Rightarrow> bool list \<Rightarrow> bool list" where
  "get_bool_slice_argument F r key dflt =
     (case argument r key of Some (Any_bools v) \<Rightarrow> v | Some (Any_list v) \<Rightarrow> bool_items F v [] | _ \<Rightarrow> dflt)"

subsection \<open>Parsing\<close>

text \<open>
  The JSON decoders of a request and of the envelopes of its parameters, and the method names,
  which the MCP library declares.
\<close>

record 'p envelope =
  en_params :: 'p

record ('f, 'r) mcp_json =
  mj_request :: "string \<Rightarrow> go_error + (string \<times> 'r)"
  mj_params :: "string \<Rightarrow> go_error + 'r envelope"
  mj_tool_call :: "string \<Rightarrow> go_error + ('f, 'r) tool_call envelope"
  mj_resource_read :: "string \<Rightarrow> go_error + ('f, 'r) resource_read envelope"
  mj_prompt_get :: "string \<Rightarrow> go_error + 'r prompt_get envelope"

definition unmarshal_params :: "(string \<Rightarrow> go_error + 'p envelope) \<Rightarrow> string \<Rightarrow> go_error + 'p" where
  "unmarshal_params decode content =
     (case decode content of Inl err \<Rightarrow> Inl err | Inr e \<Rightarrow> Inr (en_params e))"

datatype mcp_method =
    Initialize | Ping | Resources_list | Resources_templates_list | Tools_list | Prompts_list
  | Resources_read | Tools_call | Set_log_level | Prompts_get | Elicitation_create

definition mcp_parse_request ::
  "('f, 'r) mcp_json \<Rightarrow> (string \<Rightarrow> mcp_method option) \<Rightarrow> string \<Rightarrow> go_error + ('f, 'r) mcp_request" where
  "mcp_parse_request J methods content =
     (case mj_request J content of
        Inl err \<Rightarrow> Inl err
      | Inr (name, i) \<Rightarrow>
          (let req = \<lparr>mr_method = name, mr_id = i, mr_paginated = None, mr_tool_call = None,
                 mr_resource_read = None, mr_prompt_get = None, mr_initialize = None,
                 mr_elicitation = None, mr_set_log_level = None\<rparr>
           in case methods name of
                Some Initialize \<Rightarrow> map_sum id (\<lambda>p. req\<lparr>mr_initialize := Some p\<rparr>) (unmarshal_params (mj_params J) content)
              | Some Ping \<Rightarrow> Inr req
              | Some Resources_read \<Rightarrow> map_sum id (\<lambda>p. req\<lparr>mr_resource_read := Some p\<rparr>) (unmarshal_params (mj_resource_read J) content)
              | Some Tools_call \<Rightarrow> map_sum id (\<lambda>p. req\<lparr>mr_tool_call := Some p\<rparr>) (unmarshal_params (mj_tool_call J) content)
              | Some Set_log_level \<Rightarrow> map_sum id (\<lambda>p. req\<lparr>mr_set_log_level := Some p\<rparr>) (unmarshal_params (mj_params J) content)
              | Some Prompts_get \<Rightarrow> map_sum id (\<lambda>p. req\<lparr>mr_prompt_get := Some p\<rparr>) (unmarshal_params (mj_prompt_get J) content)
              | Some Elicitation_create \<Rightarrow> map_sum id (\<lambda>p. req\<lparr>mr_elicitation := Some p\<rparr>) (unmarshal_params (mj_params J) content)
              | Some _ \<Rightarrow> map_sum id (\<lambda>p. req\<lparr>mr_paginated := Some p\<rparr>) (unmarshal_params (mj_params J) content)
              | None \<Rightarrow> Inr req))"

subsection \<open>The functions policies call\<close>

text \<open>
  The CEL adapter: the conversions of values to native types and back. Every getter converts its
  three arguments in order and stops at the first error; \<open>mcp_getter\<close> is that body.
\<close>

record ('v, 'f, 'r) mcp_adapter =
  ma_mcp :: "'v \<Rightarrow> go_error + (string \<Rightarrow> go_error + ('f, 'r) mcp_request)"
  ma_request :: "'v \<Rightarrow> go_error + ('f, 'r) mcp_request"
  ma_string :: "'v \<Rightarrow> go_error + string"
  ma_int :: "'v \<Rightarrow> go_error + int"
  ma_float :: "'v \<Rightarrow> go_error + 'f"
  ma_bool :: "'v \<Rightarrow> go_error + bool"
  ma_strings :: "'v \<Rightarrow> go_error + string list"
  ma_ints :: "'v \<Rightarrow> go_error + int list"
  ma_floats :: "'v \<Rightarrow> go_error + 'f list"
  ma_bools :: "'v \<Rightarrow> go_error + bool list"
  ma_of_request :: "('f, 'r) mcp_request \<Rightarrow> 'v"
  ma_of_any :: "'f go_any \<Rightarrow> 'v"
  ma_wrap_err :: "go_error \<Rightarrow> 'v"

definition mcp_parse :: "('v, 'f, 'r) mcp_adapter \<Rightarrow> 'v \<Rightarrow> 'v \<Rightarrow> 'v" where
  "mcp_parse A mcp v =
     (case ma_mcp A mcp of Inl err \<Rightarrow> ma_wrap_err A err | Inr parse \<Rightarrow>
     (case ma_string A v of Inl err \<Rightarrow> ma_wrap_err A err | Inr body \<Rightarrow>
     (case parse body of Inl err \<Rightarrow> ma_wrap_err A err | Inr req \<Rightarrow> ma_of_request A req)))"

definition mcp_getter ::
  "('v, 'f, 'r) mcp_adapter \<Rightarrow> ('v \<Rightarrow> go_error + 'd) \<Rightarrow> (('f, 'r) mcp_request \<Rightarrow> string \<Rightarrow> 'd \<Rightarrow> 'd) \<Rightarrow>
   ('d \<Rightarrow> 'f go_any) \<Rightarrow> 'v \<Rightarrow> 'v \<Rightarrow> 'v \<Rightarrow> 'v" where
  "mcp_getter A conv get wrap v0 v1 v2 =
     (case ma_request A v0 of Inl err \<Rightarrow> ma_wrap_err A err | Inr req \<Rightarrow>
     (case ma_string A v1 of Inl err \<Rightarrow> ma_wrap_err A err | Inr key \<Rightarrow>
     (case conv v2 of Inl err \<Rightarrow> ma_wrap_err A err | Inr dflt \<Rightarrow>
        ma_of_any A (wrap (get req key dflt)))))"

definition mcp_get_string where
  "mcp_get_string A = mcp_getter A (ma_string A) get_string_argument Any_string"
definition mcp_get_int where
  "mcp_get_int F A = mcp_getter A (ma_int A) (get_int_argument F) Any_int"
definition mcp_get_float where
  "mcp_get_float F A = mcp_getter A (ma_float A) (get_float_argument F) Any_float"
definition mcp_get_bool where
  "mcp_get_bool F A = mcp_getter A (ma_bool A) (get_bool_argument F) Any_bool"
definition mcp_get_string_slice where
  "mcp_get_string_slice A = mcp_getter A (ma_strings A) get_string_slice_argument Any_strings"
definition mcp_get_int_slice where
  "mcp_get_int_slice F A = mcp_getter A (ma_ints A) (get_int_slice_argument F) Any_ints"
definition mcp_get_float_slice where
  "mcp_get_float_slice F A = mcp_getter A (ma_floats A) (get_float_slice_argument F) Any_floats"
definition mcp_get_bool_slice where
  "mcp_get_bool_slice F A = mcp_getter A (ma_bools A) (get_bool_slice_argument F) Any_bools"

text \<open>The implementation each overload of the table is bound to.\<close>

definition mcp_binding ::
  "'f float_ops \<Rightarrow> ('v, 'f, 'r) mcp_adapter \<Rightarrow> string \<Rightarrow> ('v \<Rightarrow> 'v \<Rightarrow> 'v \<Rightarrow> 'v) option" where
  "mcp_binding F A = map_of
     [(''mcp_get_string'', mcp_get_string A), (''mcp_get_int'', mcp_get_int F A),
      (''mcp_get_float'', mcp_get_float F A), (''mcp_get_bool'', mcp_get_bool F A),
      (''mcp_get_string_slice'', mcp_get_string_slice A), (''mcp_get_int_slice'', mcp_get_int_slice F A),
      (''mcp_get_float_slice'', mcp_get_float_slice F A), (''mcp_get_bool_slice'', mcp_get_bool_slice F A)]"

subsection \<open>Facts\<close>

text \<open>A request whose tool call has one argument.\<close>

definition with_argument :: "('f, 'r) mcp_request \<Rightarrow> string \<Rightarrow> 'f go_any \<Rightarrow> ('f, 'r) mcp_request" where
  "with_argument r key v =
     r\<lparr>mr_tool_call := Some \<lparr>tc_arguments = Any_map [(key, v)], tc_rest = mr_id r\<rparr>\<rparr>"

lemma argument_with [simp]: "argument (with_argument r key v) key = Some v"
  by (simp add: argument_def get_arguments_def with_argument_def)

lemma string_items_filter:
  "string_items vs out = out @ map (\<lambda>v. get_string_argument (with_argument r k v) k [])
     (filter (\<lambda>v. get_string_argument (with_argument r k v) k [] = get_string_argument (with_argument r k v) k ''x'') vs)"
  by (induction vs arbitrary: out) (auto simp: get_string_argument_def split: go_any.split)

lemma int_items_filter:
  "int_items F vs out = out @ map (\<lambda>v. get_int_argument F (with_argument r k v) k 0)
     (filter (\<lambda>v. get_int_argument F (with_argument r k v) k 0 = get_int_argument F (with_argument r k v) k 1) vs)"
  by (induction vs arbitrary: out) (auto simp: get_int_argument_def split: go_any.split option.split)

lemma float_items_filter:
  "x \<noteq> y \<Longrightarrow> float_items F vs out = out @ map (\<lambda>v. get_float_argument F (with_argument r k v) k x)
     (filter (\<lambda>v. get_float_argument F (with_argument r k v) k x = get_float_argument F (with_argument r k v) k y) vs)"
  by (induction vs arbitrary: out) (auto simp: get_float_argument_def split: go_any.split option.split)

lemma bool_items_filter:
  "bool_items F vs out = out @ map (\<lambda>v. get_bool_argument F (with_argument r k v) k False)
     (filter (\<lambda>v. get_bool_argument F (with_argument r k v) k False = get_bool_argument F (with_argument r k v) k True) vs)"
  by (induction vs arbitrary: out) (auto simp: get_bool_argument_def split: go_any.split option.split)

text \<open>
  Documented by the CEL library: a string converts to a Go string and not to a slice of strings,
  and numbers and booleans do not convert to a Go string.
\<close>

definition mcp_adapter_ok :: "('v \<Rightarrow> cel_type) \<Rightarrow> ('v, 'f, 'r) mcp_adapter \<Rightarrow> bool" where
  "mcp_adapter_ok typ A \<longleftrightarrow>
     (\<forall>v. typ v \<in> {Int_t, Double_t, Bool_t} \<longrightarrow> (\<exists>e. ma_string A v = Inl e)) \<and>
     (\<forall>v. typ v = String_t \<longrightarrow> (\<exists>s. ma_string A v = Inr s) \<and> (\<exists>e. ma_strings A v = Inl e))"

lemma mcp_getter_key_error:
  "ma_string A v1 = Inl e \<Longrightarrow> \<exists>err. mcp_getter A conv get wrap v0 v1 v2 = ma_wrap_err A err"
  by (cases "ma_request A v0") (auto simp: mcp_getter_def)

lemma mcp_getter_default_error:
  "conv v2 = Inl e \<Longrightarrow> \<exists>err. mcp_getter A conv get wrap v0 v1 v2 = ma_wrap_err A err"
  by (cases "ma_request A v0"; cases "ma_string A v1") (auto simp: mcp_getter_def)

lemmas mcp_getters = mcp_get_string_def mcp_get_int_def mcp_get_float_def mcp_get_bool_def
  mcp_get_string_slice_def mcp_get_int_slice_def mcp_get_float_slice_def mcp_get_bool_slice_def

subsection \<open>Properties\<close>

text \<open>
  Lists are read as their elements are: the slice a getter gives for a list holds, in order, what
  the getter for one value gives for each element that converts (one whose result does not
  depend on the default), and the other elements are left out.\<close>

theorem slices_read_elements:
  assumes "argument r k = Some (Any_list vs)" and "x \<noteq> y"
  shows "get_string_slice_argument r k ss = map (\<lambda>v. get_string_argument (with_argument r k v) k [])
      (filter (\<lambda>v. get_string_argument (with_argument r k v) k [] = get_string_argument (with_argument r k v) k ''x'') vs) \<and>
    get_int_slice_argument F r k is = map (\<lambda>v. get_int_argument F (with_argument r k v) k 0)
      (filter (\<lambda>v. get_int_argument F (with_argument r k v) k 0 = get_int_argument F (with_argument r k v) k 1) vs) \<and>
    get_float_slice_argument F r k fs = map (\<lambda>v. get_float_argument F (with_argument r k v) k x)
      (filter (\<lambda>v. get_float_argument F (with_argument r k v) k x = get_float_argument F (with_argument r k v) k y) vs) \<and>
    get_bool_slice_argument F r k bs = map (\<lambda>v. get_bool_argument F (with_argument r k v) k False)
      (filter (\<lambda>v. get_bool_argument F (with_argument r k v) k False = get_bool_argument F (with_argument r k v) k True) vs)"
  using assms(1) string_items_filter [of vs "[]" r k] int_items_filter [of F vs "[]" r k]
    float_items_filter [OF assms(2), of F vs "[]" r k] bool_items_filter [of F vs "[]" r k]
  by (simp add: get_string_slice_argument_def get_int_slice_argument_def get_float_slice_argument_def
      get_bool_slice_argument_def)

text \<open>Concrete instances: whole numbers as floats, and a request whose tool call has a list.\<close>

definition whole_floats :: "int float_ops" where
  "whole_floats = \<lparr>fo_to_int = (\<lambda>x. x), fo_of_int = (\<lambda>x. x), fo_nonzero = (\<lambda>x. x \<noteq> 0), fo_parse = atoi\<rparr>"

definition list_request :: "(int, unit) mcp_request" where
  "list_request = \<lparr>mr_method = ''tools/call'', mr_id = (), mr_paginated = None,
     mr_tool_call = Some \<lparr>tc_arguments = Any_map [(''ids'', Any_list [Any_string ''7'', Any_bool True, Any_int 2])],
       tc_rest = ()\<rparr>,
     mr_resource_read = None, mr_prompt_get = None, mr_initialize = None, mr_elicitation = None,
     mr_set_log_level = None\<rparr>"

lemma atoi_7: "atoi ''7'' = Some 7"
  by code_simp

theorem slices_read_elements_witness:
  "get_int_slice_argument whole_floats list_request ''ids'' [] = [7, 2]"
  using slices_read_elements [of list_request "''ids''" "[Any_string ''7'', Any_bool True, Any_int 2]" 0 1 "[]"
      whole_floats "[]" "[]" "[]"]
  by (simp add: argument_def get_arguments_def list_request_def get_int_argument_def with_argument_def atoi_7)

lemma mcp_overload_cases:
  assumes "ov \<in> set mcp_overloads" and "ov_id ov \<noteq> ''mcp_parse_bytes_dyn''" and "map typ [v0, v1, v2] = ov_args ov"
  obtains (one_text) "ov_id ov = ''mcp_get_string''" "typ v1 = String_t" "typ v2 = String_t"
    | (texts) "ov_id ov = ''mcp_get_string_slice''" "typ v2 = String_t"
    | (others) "typ v1 \<in> {Int_t, Double_t, Bool_t}"
        "ov_id ov \<in> {''mcp_get_int'', ''mcp_get_float'', ''mcp_get_bool'', ''mcp_get_int_slice'', ''mcp_get_float_slice'',
          ''mcp_get_bool_slice''}"
  using assms by (auto simp: mcp_overloads_def member_overload_def)

text \<open>C40:
  What the getters for the arguments of a request answer. Each is bound to an implementation. The
  one for strings, called with a request and two strings, gives the argument of that key if it is
  a string and the default otherwise. A call of any other with values of the types its overload
  declares is an error, because the key is declared with the type of the result, or the default
  of a slice with the type of an element, and the implementation converts them to a string and to
  a slice.\<close>

theorem typed_getters_fail:
  assumes "mcp_adapter_ok typ A" and "ov \<in> set mcp_overloads"
    and "ov_id ov \<noteq> ''mcp_parse_bytes_dyn''" and "map typ [v0, v1, v2] = ov_args ov"
  shows "\<exists>f. mcp_binding F A (ov_id ov) = Some f \<and>
    (if ov_id ov = ''mcp_get_string''
     then \<forall>req. ma_request A v0 = Inr req \<longrightarrow>
       (\<exists>key dflt. ma_string A v1 = Inr key \<and> ma_string A v2 = Inr dflt \<and>
          f v0 v1 v2 = ma_of_any A (Any_string (case argument req key of Some (Any_string s) \<Rightarrow> s | _ \<Rightarrow> dflt)))
     else \<exists>err. f v0 v1 v2 = ma_wrap_err A err)"
  using assms(2-4)
proof (cases rule: mcp_overload_cases)
  case one_text
  with assms(1) obtain key dflt where "ma_string A v1 = Inr key" "ma_string A v2 = Inr dflt"
    unfolding mcp_adapter_ok_def by blast
  with one_text show ?thesis by (simp add: mcp_binding_def mcp_get_string_def mcp_getter_def get_string_argument_def)
next
  case texts
  with assms(1) obtain e where "ma_strings A v2 = Inl e" unfolding mcp_adapter_ok_def by blast
  with texts show ?thesis by (simp add: mcp_binding_def mcp_get_string_slice_def mcp_getter_default_error)
next
  case others
  with assms(1) obtain e where "ma_string A v1 = Inl e" unfolding mcp_adapter_ok_def by blast
  with others show ?thesis by (auto simp: mcp_binding_def mcp_getters intro: mcp_getter_key_error)
qed

text \<open>An adapter whose values are their own types, with no value for an error.\<close>

definition type_adapter :: "(cel_type option, int, unit) mcp_adapter" where
  "type_adapter = \<lparr>
     ma_mcp = (\<lambda>_. Inl (Errorf ''mcp'')), ma_request = (\<lambda>_. Inr list_request),
     ma_string = (\<lambda>v. if v = Some String_t then Inr ''k'' else Inl (Errorf ''string'')),
     ma_int = (\<lambda>_. Inr 0), ma_float = (\<lambda>_. Inr 0), ma_bool = (\<lambda>_. Inr False),
     ma_strings = (\<lambda>_. Inl (Errorf ''list'')), ma_ints = (\<lambda>_. Inr []), ma_floats = (\<lambda>_. Inr []),
     ma_bools = (\<lambda>_. Inr []), ma_of_request = (\<lambda>_. Some MCPRequestType), ma_of_any = (\<lambda>_. Some Int_t),
     ma_wrap_err = (\<lambda>_. None)\<rparr>"

theorem typed_getters_fail_witness:
  "mcp_get_int whole_floats type_adapter (Some MCPRequestType) (Some Int_t) (Some Int_t) = None"
proof -
  have ok: "mcp_adapter_ok (\<lambda>v. case v of Some t \<Rightarrow> t | None \<Rightarrow> Dyn_t) type_adapter"
    by (auto simp: mcp_adapter_ok_def type_adapter_def split: option.splits)
  show ?thesis
    using typed_getters_fail [OF ok, of "member_overload ''GetIntArgument'' ''mcp_get_int'' [MCPRequestType, Int_t, Int_t] Int_t"
        "Some MCPRequestType" "Some Int_t" "Some Int_t" whole_floats]
    by (simp add: mcp_overloads_def member_overload_def mcp_binding_def) (simp add: type_adapter_def)
qed

end
