(* ===== verification/Cel_Libs.thy ===== *)
theory Cel_Libs
  imports Mcp_Lib
begin

section \<open>The CEL libraries as options of an environment\<close>

text \<open>
  Models the \<open>lib\<close> type of every \<open>lib.go\<close> under \<open>pkg/cel/libs\<close>: the name of the library, what it
  adds to an environment at compile time (variables, types, constants, functions and other
  libraries) and the globals it binds when a program runs. The tables of functions are those of
  \<open>Cel_Overloads\<close>. A Go type is named by its package and name, as \<open>ext.NativeTypes\<close> names it.
\<close>

datatype lib_option =
    Lib_variable string cel_type
  | Native_types "string list" bool
  | Proto_types "string list"
  | Lib_included string
  | Lib_constant string cel_type string
  | Lib_functions "overload list"

record cel_library =
  lb_name :: string
  lb_compile :: "lib_option list"
  lb_globals :: "string list"

definition envoy_library :: cel_library where
  "envoy_library = \<lparr>lb_name = ''kyverno.authz.envoy'',
     lb_compile =
       [Proto_types [''envoy.service.auth.v3.CheckRequest'', ''envoy.service.auth.v3.DeniedHttpResponse'',
          ''envoy.service.auth.v3.OkHttpResponse'', ''google.rpc.Status'', ''google.protobuf.Struct''],
        Lib_functions envoy_overloads],
     lb_globals = []\<rparr>"

definition http_library :: cel_library where
  "http_library = \<lparr>lb_name = ''kyverno.authz.http'',
     lb_compile = [Native_types [''http.CheckRequest'', ''http.CheckResponse''] True, Lib_functions http_overloads],
     lb_globals = []\<rparr>"

definition httpserver_library :: cel_library where
  "httpserver_library = \<lparr>lb_name = ''kyverno.httpserver'',
     lb_compile = [Native_types [''httpserver.HttpResponse''] True], lb_globals = []\<rparr>"

definition jwk_library :: cel_library where
  "jwk_library = \<lparr>lb_name = ''kyverno.jwk'',
     lb_compile = [Native_types [''jwk.Set''] False, Lib_functions jwk_overloads], lb_globals = []\<rparr>"

definition jwt_library :: cel_library where
  "jwt_library = \<lparr>lb_name = ''kyverno.jwt'',
     lb_compile = [Lib_included ''kyverno.jwk'', Native_types [''jwt.Token''] False, Lib_functions jwt_overloads],
     lb_globals = []\<rparr>"

definition json_library :: cel_library where
  "json_library = \<lparr>lb_name = ''kyverno.json'',
     lb_compile = [Lib_variable ''json'' JsonType, Native_types [''json.Json''] False, Lib_functions json_overloads],
     lb_globals = [''json'']\<rparr>"

text \<open>The constants of the MCP library; the names of the methods are those of the protocol library.\<close>

definition mcp_constants :: "(mcp_method \<Rightarrow> string) \<Rightarrow> (string \<times> string) list" where
  "mcp_constants method_name =
     [(''InitializeMethod'', method_name Initialize),
      (''PingMethod'', method_name Ping),
      (''ResourcesListMethod'', method_name Resources_list),
      (''ResourcesTemplatesListMethod'', method_name Resources_templates_list),
      (''ResourcesReadMethod'', method_name Resources_read),
      (''PromptsListMethod'', method_name Prompts_list),
      (''PromptsGetMethod'', method_name Prompts_get),
      (''ToolsListMethod'', method_name Tools_list),
      (''ToolsCallMethod'', method_name Tools_call),
      (''SetLogLevelMethod'', method_name Set_log_level),
      (''ElicitationCreateMethod'', method_name Elicitation_create)]"

definition mcp_extend_env :: "(mcp_method \<Rightarrow> string) \<Rightarrow> lib_option list" where
  "mcp_extend_env method_name =
     map (\<lambda>(name, v). Lib_constant (''mcp.'' @ name) String_t v) (mcp_constants method_name) @
     [Lib_functions mcp_overloads]"

definition mcp_library :: "(mcp_method \<Rightarrow> string) \<Rightarrow> cel_library" where
  "mcp_library method_name = \<lparr>lb_name = ''kyverno.mcp'',
     lb_compile = [Lib_variable ''mcp'' MCPType, Native_types [''mcp.MCP'', ''mcp.MCPRequest''] True] @
       mcp_extend_env method_name,
     lb_globals = [''mcp'']\<rparr>"

definition libraries :: "(mcp_method \<Rightarrow> string) \<Rightarrow> cel_library list" where
  "libraries method_name =
     [envoy_library, http_library, httpserver_library, jwk_library, jwt_library, json_library, mcp_library method_name]"

text \<open>The libraries of this repository among the options of an environment, with the ones they include.\<close>

definition named_library :: "(mcp_method \<Rightarrow> string) \<Rightarrow> string \<Rightarrow> cel_library option" where
  "named_library method_name n = find (\<lambda>l. lb_name l = n) (libraries method_name)"

definition with_included :: "(mcp_method \<Rightarrow> string) \<Rightarrow> cel_library \<Rightarrow> cel_library list" where
  "with_included method_name l =
     List.map_filter (\<lambda>x. case x of Lib_included n \<Rightarrow> named_library method_name n | _ \<Rightarrow> None) (lb_compile l) @ [l]"

definition option_libraries :: "(mcp_method \<Rightarrow> string) \<Rightarrow> env_option list \<Rightarrow> cel_library list" where
  "option_libraries method_name xs =
     concat (map (with_included method_name)
       (List.map_filter (\<lambda>x. case x of Lib n \<Rightarrow> named_library method_name n | _ \<Rightarrow> None) xs))"

definition declared_functions :: "cel_library list \<Rightarrow> overload list" where
  "declared_functions ls =
     concat (map (\<lambda>x. case x of Lib_functions fs \<Rightarrow> fs | _ \<Rightarrow> []) (concat (map lb_compile ls)))"

definition declared_variables :: "cel_library list \<Rightarrow> string list" where
  "declared_variables ls =
     List.map_filter (\<lambda>x. case x of Lib_variable n _ \<Rightarrow> Some n | _ \<Rightarrow> None) (concat (map lb_compile ls))"

definition declared_constants :: "cel_library list \<Rightarrow> string list" where
  "declared_constants ls =
     List.map_filter (\<lambda>x. case x of Lib_constant n _ _ \<Rightarrow> Some n | _ \<Rightarrow> None) (concat (map lb_compile ls))"

definition option_variables :: "env_option list \<Rightarrow> string list" where
  "option_variables xs = List.map_filter (\<lambda>x. case x of Variable n _ \<Rightarrow> Some n | _ \<Rightarrow> None) xs"

text \<open>The options of the environment of a mode, before those of the policy.\<close>

definition mode_options :: "string \<Rightarrow> env_option list" where
  "mode_options mode =
     base_options @ [Lib (if mode = EvaluationModeEnvoy then ''kyverno.authz.envoy'' else ''kyverno.authz.http'')] @
     common_libs"

lemmas library_defs = libraries_def envoy_library_def http_library_def httpserver_library_def jwk_library_def
  jwt_library_def json_library_def mcp_library_def mcp_extend_env_def mcp_constants_def

lemma mode_libraries:
  "option_libraries method_name (mode_options mode) =
     [if mode = EvaluationModeEnvoy then envoy_library else http_library,
      jwk_library, jwt_library, json_library, mcp_library method_name]"
  by (simp add: option_libraries_def mode_options_def base_options_def common_libs_def with_included_def
      named_library_def library_defs List.map_filter_def EvaluationModeEnvoy_def)

text \<open>
  A program reads a name when it fails without it: the CEL library documents the error ``no such
  attribute'' for a name the activation does not bind. The globals of a library are bound by the
  program itself.\<close>

definition reads_name :: "('i, 'd, 'l, 'v) program \<Rightarrow> string \<Rightarrow> bool" where
  "reads_name prog n \<longleftrightarrow> (\<forall>act. act n = None \<longrightarrow> (\<exists>err. snd (prog act) = Some err))"

text \<open>The parameters a parsed request holds, and those its method has.\<close>

definition populated :: "('f, 'r) mcp_request \<Rightarrow> string list" where
  "populated req =
     (if mr_paginated req \<noteq> None then [''Paginated''] else []) @
     (if mr_tool_call req \<noteq> None then [''ToolCall''] else []) @
     (if mr_resource_read req \<noteq> None then [''ResourceRead''] else []) @
     (if mr_prompt_get req \<noteq> None then [''PromptGet''] else []) @
     (if mr_initialize req \<noteq> None then [''Initialize''] else []) @
     (if mr_elicitation req \<noteq> None then [''Elicitation''] else []) @
     (if mr_set_log_level req \<noteq> None then [''SetLogLevel''] else [])"

fun method_params :: "mcp_method \<Rightarrow> string list" where
  "method_params Initialize = [''Initialize'']"
| "method_params Ping = []"
| "method_params Resources_read = [''ResourceRead'']"
| "method_params Tools_call = [''ToolCall'']"
| "method_params Set_log_level = [''SetLogLevel'']"
| "method_params Prompts_get = [''PromptGet'']"
| "method_params Elicitation_create = [''Elicitation'']"
| "method_params _ = [''Paginated'']"

lemma map_sum_id_Inr: "map_sum id f x = Inr y \<longleftrightarrow> (\<exists>p. x = Inr p \<and> y = f p)"
  by (cases x) auto

lemma map_sum_id_InrE:
  assumes "map_sum id f x = Inr y" obtains p where "y = f p"
  using assms by (auto simp: map_sum_id_Inr)

lemma unmarshal_params_Inr:
  "unmarshal_params decode content = Inr p \<longleftrightarrow> (\<exists>e. decode content = Inr e \<and> p = en_params e)"
  by (auto simp: unmarshal_params_def split: sum.split)

text \<open>Method names for the concrete input: \<open>m\<close> as often as the position of the method.\<close>

definition all_methods :: "mcp_method list" where
  "all_methods = [Initialize, Ping, Resources_list, Resources_templates_list, Tools_list, Prompts_list,
     Resources_read, Tools_call, Set_log_level, Prompts_get, Elicitation_create]"

fun number_method :: "mcp_method \<Rightarrow> string" where
  "number_method m = replicate (length (takeWhile (\<lambda>m'. m' \<noteq> m) all_methods)) CHR ''m''"

definition numbered_method :: "string \<Rightarrow> mcp_method option" where
  "numbered_method s = find (\<lambda>m. number_method m = s) all_methods"

lemma numbered_number: "numbered_method (number_method m) = Some m"
  by (cases m) (simp_all add: numbered_method_def all_methods_def)

declare number_method.simps [simp del]

subsection \<open>Properties\<close>

text \<open>
  The functions of the libraries in the environment of a mode are exactly those of the tables,
  and no two variables or constants share a name, nor does one have the name of a variable that
  the compiler declares.\<close>

theorem mode_declarations:
  assumes "mode \<in> {EvaluationModeEnvoy, EvaluationModeHTTP}"
    and "ls = option_libraries method_name (mode_options mode)"
  shows "declared_functions ls = mode_overloads mode \<and>
    distinct (option_variables (policy_env_options T ty) @ declared_variables ls @ declared_constants ls)"
proof -
  have "declared_functions ls = mode_overloads mode"
    using assms by (auto simp: mode_libraries declared_functions_def library_defs mode_overloads_def
        EvaluationModeEnvoy_def EvaluationModeHTTP_def)
  moreover have "option_variables (policy_env_options T ty) =
      [''http'', ''image'', ''object'', ''variables'', ''resource'']"
    by (simp add: option_variables_def policy_env_options_def key_defs List.map_filter_def)
  moreover have "declared_variables ls = [''json'', ''mcp'']"
    using assms(2) by (simp add: mode_libraries declared_variables_def library_defs List.map_filter_def)
  moreover have "declared_constants ls = map (\<lambda>(name, v). ''mcp.'' @ name) (mcp_constants method_name)"
    using assms(2) by (simp add: mode_libraries declared_constants_def library_defs List.map_filter_def)
  ultimately show ?thesis by (simp add: mcp_constants_def)
qed

theorem mode_declarations_witness:
  "declared_functions (option_libraries (\<lambda>_. ''m'') (mode_options ''HTTP'')) = mode_overloads ''HTTP''"
  using mode_declarations [OF _ refl, of "''HTTP''"] by (simp add: EvaluationModeHTTP_def)

text \<open>
  The variables a policy may name and when they have a value: at the evaluation of a rule every
  variable declared by the compiler is bound by the activation and every one declared by a
  library by its globals; at the evaluation of a match condition only \<open>object\<close> and the globals are.\<close>

theorem declared_variables_bound:
  assumes "setup_variables ops img p r d = Inr act"
  shows "(\<forall>n \<in> set (option_variables (policy_env_options T ty)). act n \<noteq> None) \<and>
    (\<forall>l \<in> set (libraries method_name). declared_variables [l] = lb_globals l) \<and>
    {n \<in> set (option_variables (policy_env_options T ty)). [ObjectKey \<mapsto> Object_b r] n \<noteq> None} = {ObjectKey}"
  using assms
  by (auto simp: setup_variables_def base_activation_def Let_def option_variables_def policy_env_options_def
      key_defs List.map_filter_def declared_variables_def library_defs split: sum.splits)

theorem declared_variables_bound_witness:
  "\<exists>act. setup_variables nat_ops (Inr ())
      \<lparr>cp_failure_policy = ''Fail'', cp_match_conditions = [], cp_variables = [], cp_rules = []\<rparr> () () = Inr act \<and>
    act ''resource'' \<noteq> None"
proof -
  obtain act where act: "setup_variables nat_ops (Inr ())
      \<lparr>cp_failure_policy = ''Fail'', cp_match_conditions = [], cp_variables = [], cp_rules = []\<rparr> () () = Inr act"
    by (simp add: setup_variables_def Let_def)
  with declared_variables_bound [OF act, of _ String_t] show ?thesis
    by (auto simp: option_variables_def policy_env_options_def key_defs List.map_filter_def)
qed

text \<open>C38:
  A policy whose match condition reads a declared variable other than \<open>object\<close> never responds:
  the condition is compiled with \<open>http\<close>, \<open>image\<close>, \<open>variables\<close> and \<open>resource\<close> declared, but evaluated
  with the request alone, so it fails for every request. The policy's rules are never consulted;
  it gives no response, and an error if its failure policy is Fail and no other condition is false.\<close>

theorem match_condition_variables_unbound:
  assumes "multierr_ok M" and "c \<in> set (cp_match_conditions p)"
    and "n \<in> set (option_variables (policy_env_options T ty)) - {ObjectKey}" and "reads_name c n"
  shows "fst (cp_evaluate M ops img p d r) = cv_zero ops \<and>
    (snd (cp_evaluate M ops img p d r) = None \<longleftrightarrow>
      cp_failure_policy p \<noteq> Fail \<or> Inr False \<in> set (cond_results ops p r))"
proof -
  have "[ObjectKey \<mapsto> Object_b r] n = None" using assms(3) by auto
  then obtain err where "snd (c [ObjectKey \<mapsto> Object_b r]) = Some err"
    using assms(4) unfolding reads_name_def by blast
  then have "cond_result ops [ObjectKey \<mapsto> Object_b r] c = Inl err"
    by (cases "c [ObjectKey \<mapsto> Object_b r]") (simp add: cond_result_def)
  with assms(2) have err: "Inl err \<in> set (cond_results ops p r)" by force
  then have "lefts (cond_results ops p r) \<noteq> []" and "\<exists>c \<in> set (cond_results ops p r). c \<noteq> Inr True"
    by (auto simp: lefts_Nil simp del: set_map intro!: bexI [of _ "Inl err"])
  then show ?thesis
    using multierr_combine_Some [OF assms(1), of "lefts (cond_results ops p r)"]
      match_conditions_result [OF assms(1), where ops = ops and p = p and r = r and img = img and d = d]
    by (auto simp del: set_map)
qed

theorem match_condition_variables_unbound_witness:
  "snd (cp_evaluate multierr_list nat_ops (Inr ())
     \<lparr>cp_failure_policy = ''Fail'',
      cp_match_conditions = [(\<lambda>act. if act ''resource'' = None then (None, Some (Errorf ''no such attribute'')) else (Some 1, None))],
      cp_variables = [], cp_rules = [(\<lambda>_. (Some 7, None))]\<rparr> () ()) \<noteq> None"
proof -
  let ?c = "\<lambda>act :: (unit, unit, unit, nat) activation.
    if act ''resource'' = None then (None, Some (Errorf ''no such attribute'')) else (Some (1::nat), None)"
  let ?p = "\<lparr>cp_failure_policy = ''Fail'', cp_match_conditions = [?c], cp_variables = [], cp_rules = [(\<lambda>_. (Some 7, None))]\<rparr>"
  have "reads_name ?c ''resource''" by (simp add: reads_name_def)
  from match_condition_variables_unbound [OF multierr_list_ok _ _ this, of ?p _ String_t nat_ops "Inr ()" "()" "()"]
  show ?thesis
    by (simp add: option_variables_def policy_env_options_def key_defs List.map_filter_def Fail_def cond_result_def)
qed

text \<open>
  The constants of the MCP library name every method the parser distinguishes, and a policy that
  compares the method of a parsed request with one of them knows which parameters it holds.\<close>

theorem mcp_constants_select:
  assumes "\<forall>m. methods (method_name m) = Some m"
    and "mcp_parse_request J methods content = Inr req" and "mr_method req = method_name m"
  shows "method_name m \<in> snd ` set (mcp_constants method_name) \<and> populated req = method_params m"
proof
  show "method_name m \<in> snd ` set (mcp_constants method_name)"
    by (cases m) (simp_all add: mcp_constants_def)
  obtain name i where J: "mj_request J content = Inr (name, i)"
    using assms(2) by (cases "mj_request J content") (auto simp: mcp_parse_request_def)
  have name_eq: "mr_method req = name"
    using assms(2) by (auto simp: mcp_parse_request_def J Let_def map_sum_id_Inr split: option.splits mcp_method.splits)
  with assms(1,3) have m: "methods name = Some m" by simp
  show "populated req = method_params m"
    using assms(2) unfolding mcp_parse_request_def J sum.case prod.case Let_def m option.case
    by (cases m; simp only: mcp_method.case sum.inject; (elim map_sum_id_InrE)?; auto simp: populated_def)
qed

theorem mcp_constants_select_witness:
  "populated (the (case mcp_parse_request
      \<lparr>mj_request = (\<lambda>s. Inr (s, ())), mj_params = (\<lambda>s. Inr \<lparr>en_params = ()\<rparr>),
       mj_tool_call = (\<lambda>s. Inr \<lparr>en_params = \<lparr>tc_arguments = Any_nil :: unit go_any, tc_rest = ()\<rparr>\<rparr>),
       mj_resource_read = (\<lambda>s. Inl (Errorf ''e'')), mj_prompt_get = (\<lambda>s. Inl (Errorf ''e''))\<rparr>
      numbered_method (number_method Tools_call) of Inr req \<Rightarrow> Some req | Inl _ \<Rightarrow> None)) = [''ToolCall'']"
proof -
  let ?J = "\<lparr>mj_request = (\<lambda>s. Inr (s, ())), mj_params = (\<lambda>s. Inr \<lparr>en_params = ()\<rparr>),
       mj_tool_call = (\<lambda>s. Inr \<lparr>en_params = \<lparr>tc_arguments = Any_nil :: unit go_any, tc_rest = ()\<rparr>\<rparr>),
       mj_resource_read = (\<lambda>s. Inl (Errorf ''e'')), mj_prompt_get = (\<lambda>s. Inl (Errorf ''e''))\<rparr>"
  obtain req where req: "mcp_parse_request ?J numbered_method (number_method Tools_call) = Inr req"
      "mr_method req = number_method Tools_call"
    by (simp add: mcp_parse_request_def Let_def numbered_number unmarshal_params_def)
  with mcp_constants_select [where method_name = number_method, OF _ req] numbered_number show ?thesis by simp
qed

end
