(* ===== verification/Grpc_Service.thy ===== *)
theory Grpc_Service
  imports Policy_Sender
begin

section \<open>The gRPC service of the control plane\<close>

text \<open>
  Models \<open>pkg/control-plane/proto/v1alpha1/validatingpolicy_grpc.pb.go\<close>, the stubs through which a
  listener calls the sender: the client's calls, the handlers of the server, the description by
  which they are registered and the answers of methods that are not implemented. A result is of
  the type \<open>'a\<close>, into which \<open>fail\<close> maps an error, so that a handler may be a function on a state. The
  transport of gRPC is third-party: the client's connection is a parameter, and the dispatch of a
  call to the handler that is registered for its full name is what gRPC documents.
\<close>

definition ValidatingPoliciesStream_FullMethodName :: string where
  "ValidatingPoliciesStream_FullMethodName = ''/kyverno.http.v1alpha1.ValidatingPolicyService/ValidatingPoliciesStream''"

definition HealthCheck_FullMethodName :: string where
  "HealthCheck_FullMethodName = ''/kyverno.http.v1alpha1.ValidatingPolicyService/HealthCheck''"

subsection \<open>Servers\<close>

record ('st, 'req, 'a) policy_service =
  ps_stream :: "'st \<Rightarrow> 'a"
  ps_health :: "'req \<Rightarrow> 'a"

definition unimplemented_service :: "(go_error \<Rightarrow> 'a) \<Rightarrow> ('st, 'req, 'a) policy_service" where
  "unimplemented_service fail = \<lparr>
     ps_stream = (\<lambda>_. fail (Errorf ''method ValidatingPoliciesStream not implemented'')),
     ps_health = (\<lambda>_. fail (Errorf ''method HealthCheck not implemented''))\<rparr>"

definition stream_handler :: "('st, 'req, 'a) policy_service \<Rightarrow> 'st \<Rightarrow> 'a" where
  "stream_handler srv stream = ps_stream srv stream"

type_synonym ('req, 'a) interceptor = "'req \<Rightarrow> string \<Rightarrow> ('req \<Rightarrow> 'a) \<Rightarrow> 'a"

definition health_handler ::
  "(go_error \<Rightarrow> 'a) \<Rightarrow> ('st, 'req, 'a) policy_service \<Rightarrow> go_error + 'req \<Rightarrow> ('req, 'a) interceptor option \<Rightarrow> 'a" where
  "health_handler fail srv dec intercept =
     (case dec of
        Inl err \<Rightarrow> fail err
      | Inr req \<Rightarrow>
          (case intercept of
             None \<Rightarrow> ps_health srv req
           | Some ic \<Rightarrow> ic req HealthCheck_FullMethodName (\<lambda>req. ps_health srv req)))"

record ('st, 'req, 'a) service_desc =
  de_name :: string
  de_methods :: "(string \<times> ((go_error \<Rightarrow> 'a) \<Rightarrow> ('st, 'req, 'a) policy_service \<Rightarrow> go_error + 'req \<Rightarrow> ('req, 'a) interceptor option \<Rightarrow> 'a)) list"
  de_streams :: "(string \<times> (('st, 'req, 'a) policy_service \<Rightarrow> 'st \<Rightarrow> 'a) \<times> bool \<times> bool) list"
  de_metadata :: string

definition policy_service_desc :: "('st, 'req, 'a) service_desc" where
  "policy_service_desc = \<lparr>
     de_name = ''kyverno.http.v1alpha1.ValidatingPolicyService'',
     de_methods = [(''HealthCheck'', health_handler)],
     de_streams = [(''ValidatingPoliciesStream'', stream_handler, True, True)],
     de_metadata = ''validatingpolicy.proto''\<rparr>"

text \<open>
  A server holds the services registered with it. Registering a service that embeds the
  unimplemented one as a nil pointer panics; \<open>embeds\<close> is the result of that test.\<close>

definition register_policy_service ::
  "bool option \<Rightarrow> ('st, 'req, 'a) policy_service \<Rightarrow>
   (('st, 'req, 'a) service_desc \<times> ('st, 'req, 'a) policy_service) list \<Rightarrow>
   (('st, 'req, 'a) service_desc \<times> ('st, 'req, 'a) policy_service) list outcome" where
  "register_policy_service embeds srv registered =
     (if embeds = Some False then Panic ''nil pointer dereference''
      else Ret (registered @ [(policy_service_desc, srv)]))"

subsection \<open>Clients\<close>

text \<open>A connection invokes a method or opens a stream under its full name.\<close>

record ('req, 'r, 'c) connection =
  cc_invoke :: "string \<Rightarrow> 'req \<Rightarrow> go_error + 'r"
  cc_new_stream :: "bool \<times> bool \<Rightarrow> string \<Rightarrow> go_error + 'c"

definition client_health_check :: "('req, 'r, 'c) connection \<Rightarrow> 'req \<Rightarrow> go_error + 'r" where
  "client_health_check cc req =
     (case cc_invoke cc HealthCheck_FullMethodName req of Inl err \<Rightarrow> Inl err | Inr out \<Rightarrow> Inr out)"

definition client_stream :: "('req, 'r, 'c) connection \<Rightarrow> go_error + 'c" where
  "client_stream cc =
     (case cc_new_stream cc (snd (snd (hd (de_streams (policy_service_desc :: ('c, 'req, 'r) service_desc)))))
             ValidatingPoliciesStream_FullMethodName of
        Inl err \<Rightarrow> Inl err | Inr stream \<Rightarrow> Inr stream)"

subsection \<open>Dispatch\<close>

text \<open>What gRPC documents: the handler of a full name, or the status that there is none.\<close>

definition full_name :: "('st, 'req, 'a) service_desc \<Rightarrow> string \<Rightarrow> string" where
  "full_name d m = ''/'' @ de_name d @ ''/'' @ m"

definition dispatch_unary ::
  "(go_error \<Rightarrow> 'a) \<Rightarrow> (('st, 'req, 'a) service_desc \<times> ('st, 'req, 'a) policy_service) list \<Rightarrow>
   ('req, 'a) interceptor option \<Rightarrow> string \<Rightarrow> go_error + 'req \<Rightarrow> 'a" where
  "dispatch_unary fail registered intercept full dec =
     (case concat (map (\<lambda>(d, srv). map (\<lambda>(m, h). h fail srv dec intercept)
             (filter (\<lambda>(m, h). full_name d m = full) (de_methods d))) registered) of
        [] \<Rightarrow> fail (Errorf ''unknown method'')
      | r # _ \<Rightarrow> r)"

definition dispatch_stream ::
  "(go_error \<Rightarrow> 'a) \<Rightarrow> (('st, 'req, 'a) service_desc \<times> ('st, 'req, 'a) policy_service) list \<Rightarrow>
   bool \<times> bool \<Rightarrow> string \<Rightarrow> 'st \<Rightarrow> 'a" where
  "dispatch_stream fail registered kind full stream =
     (case concat (map (\<lambda>(d, srv). map (\<lambda>(m, h, _). h srv stream)
             (filter (\<lambda>(m, h, k). full_name d m = full \<and> k = kind) (de_streams d))) registered) of
        [] \<Rightarrow> fail (Errorf ''unknown method'')
      | r # _ \<Rightarrow> r)"

subsection \<open>The sender as the service\<close>

text \<open>
  A result is a function on the sender: the error or the response (\<open>None\<close> for the nil one), and the
  sender after it. A health check request is an address and a time.\<close>

type_synonym 's service_result = "'s sender \<Rightarrow> (go_error + bool option) \<times> 's sender"

definition service_error :: "go_error \<Rightarrow> 's service_result" where
  "service_error err s = (Inl err, s)"

definition sender_service :: "(('s \<times> stream_event list), string \<times> int option, 's service_result) policy_service" where
  "sender_service = \<lparr>
     ps_stream = (\<lambda>(stream, evs) s. case policies_stream stream evs s of
        ((Some (Some err), _), s') \<Rightarrow> (Inl err, s') | ((_, _), s') \<Rightarrow> (Inr None, s')),
     ps_health = (\<lambda>(address, t) s. case health_check address t s of
        (True, s') \<Rightarrow> (Inr (Some True), s') | (False, s') \<Rightarrow> (Inr None, s'))\<rparr>"

subsection \<open>Properties\<close>

text \<open>
  The stubs of a client reach the methods of the server: over a server with the service registered
  and no interceptor, the name under which the client checks its health is dispatched to
  \<open>HealthCheck\<close>, the stream it opens to \<open>ValidatingPoliciesStream\<close>, in both directions, and every
  other name of a unary call is refused. Registration fails only for a nil embedded service.\<close>

theorem stubs_reach_handlers:
  assumes "register_policy_service embeds srv [] = Ret registered"
  shows "dispatch_unary fail registered None HealthCheck_FullMethodName (Inr req) = ps_health srv req \<and>
    dispatch_stream fail registered (True, True) ValidatingPoliciesStream_FullMethodName stream = ps_stream srv stream \<and>
    (full \<noteq> HealthCheck_FullMethodName \<longrightarrow>
      dispatch_unary fail registered None full dec = fail (Errorf ''unknown method'')) \<and>
    embeds \<noteq> Some False"
proof -
  have reg: "registered = [(policy_service_desc, srv)]" and e: "embeds \<noteq> Some False"
    using assms by (auto simp: register_policy_service_def split: if_splits)
  have names: "full_name (policy_service_desc :: ('a, 'b, 'c) service_desc) ''HealthCheck'' = HealthCheck_FullMethodName"
    "full_name (policy_service_desc :: ('a, 'b, 'c) service_desc) ''ValidatingPoliciesStream'' =
       ValidatingPoliciesStream_FullMethodName"
    by (simp_all add: full_name_def policy_service_desc_def HealthCheck_FullMethodName_def
        ValidatingPoliciesStream_FullMethodName_def)
  have parts: "de_methods policy_service_desc = [(''HealthCheck'', health_handler)]"
    "de_streams policy_service_desc = [(''ValidatingPoliciesStream'', stream_handler, True, True)]"
    by (simp_all add: policy_service_desc_def)
  show ?thesis
    using e by (simp add: reg dispatch_unary_def dispatch_stream_def parts names health_handler_def stream_handler_def)
qed

text \<open>
  A health check of a listener over the wire is the health check of the sender: an interceptor that
  passes the request on does not change it, and a request that does not decode leaves the sender
  as it is.\<close>

theorem health_check_over_grpc:
  assumes "register_policy_service embeds sender_service [] = Ret registered"
    and "\<forall>ic. intercept = Some ic \<longrightarrow> (\<forall>req name handler. ic req name handler = handler req)"
  shows "dispatch_unary service_error registered intercept HealthCheck_FullMethodName (Inr (address, t)) s =
      (Inr (if address \<noteq> [] \<and> t \<noteq> None then Some True else None), snd (health_check address t s)) \<and>
    dispatch_unary service_error registered intercept HealthCheck_FullMethodName (Inl err) s = (Inl err, s)"
proof -
  have reg: "registered = [(policy_service_desc, sender_service)]"
    using assms by (auto simp: register_policy_service_def split: if_splits)
  have call: "dispatch_unary service_error registered intercept HealthCheck_FullMethodName dec =
      health_handler service_error sender_service dec intercept" for dec
    by (simp add: reg dispatch_unary_def policy_service_desc_def full_name_def HealthCheck_FullMethodName_def)
  have "health_handler service_error sender_service (Inr (address, t)) intercept = ps_health sender_service (address, t)"
    using assms(2) by (cases intercept) (simp_all add: health_handler_def)
  then show ?thesis
    by (auto simp: call health_handler_def service_error_def sender_service_def health_check_def split: option.split)
qed

theorem stubs_reach_handlers_witness:
  "\<exists>registered. register_policy_service (Some True)
      (unimplemented_service (\<lambda>e. (Some e :: go_error option)) :: (unit, unit, go_error option) policy_service) [] = Ret registered \<and>
    dispatch_unary Some registered None HealthCheck_FullMethodName (Inr ()) = Some (Errorf ''method HealthCheck not implemented'')"
proof -
  let ?srv = "unimplemented_service (\<lambda>e. Some e) :: (unit, unit, go_error option) policy_service"
  have "register_policy_service (Some True) ?srv [] = Ret [(policy_service_desc, ?srv)]"
    by (simp add: register_policy_service_def)
  with stubs_reach_handlers [OF this, of Some "()"] show ?thesis by (auto simp: unimplemented_service_def)
qed

theorem health_check_over_grpc_witness:
  "\<exists>registered. register_policy_service (Some True) (sender_service :: (unit \<times> _, _, _) policy_service) [] = Ret registered \<and>
    sd_health (snd (dispatch_unary service_error registered None HealthCheck_FullMethodName (Inr (''c'', Some 5))
      (new_policy_sender 1 2 3 4))) = [(''c'', 5)]"
proof -
  let ?srv = "sender_service :: (unit \<times> stream_event list, string \<times> int option, unit service_result) policy_service"
  have reg: "register_policy_service (Some True) ?srv [] = Ret [(policy_service_desc, ?srv)]"
    by (simp add: register_policy_service_def)
  with health_check_over_grpc [OF reg, of None "''c''" "Some 5" "new_policy_sender 1 2 3 4"] show ?thesis
    by (auto simp: health_check_def new_policy_sender_def)
qed

end
