(* ===== verification/Proto_Messages.thy ===== *)
theory Proto_Messages
  imports Policy_Listener
begin

section \<open>The messages of the control plane\<close>

text \<open>
  Models \<open>pkg/control-plane/proto/v1alpha1/validatingpolicy.pb.go\<close>, generated from the protocol
  definition: the messages that are not in \<open>Policy_Proto\<close>, the getters and \<open>Reset\<close> of all of them, the
  struct tags by which the protocol buffer library encodes them, and the tables that tie messages
  to their types. A pointer to a message is an option. Reflection and encoding belong to the
  library; the bytes of the raw descriptor, which only the library reads, are left out.
\<close>

record stream_request_message =
  sq_client_address :: string

record health_request_message =
  hq_client_address :: string
  hq_time :: "int option"

datatype health_response_message = Health_response

subsection \<open>Getters\<close>

definition get_field :: "('m \<Rightarrow> 'b) \<Rightarrow> 'b \<Rightarrow> 'm option \<Rightarrow> 'b" where
  "get_field f zero x = (case x of Some m \<Rightarrow> f m | None \<Rightarrow> zero)"

definition get_optional :: "('m \<Rightarrow> string option) \<Rightarrow> 'm option \<Rightarrow> string" where
  "get_optional f x = (case x of Some m \<Rightarrow> (case f m of Some s \<Rightarrow> s | None \<Rightarrow> []) | None \<Rightarrow> [])"

definition spec_get_validations :: "proto_spec option \<Rightarrow> proto_validation list" where
  "spec_get_validations = get_field ps_validations []"

definition spec_get_failure_policy :: "proto_spec option \<Rightarrow> string" where
  "spec_get_failure_policy = get_optional ps_failure_policy"

definition spec_get_match_conditions :: "proto_spec option \<Rightarrow> proto_match_condition list" where
  "spec_get_match_conditions = get_field ps_match_conditions []"

definition spec_get_variables :: "proto_spec option \<Rightarrow> proto_variable list" where
  "spec_get_variables = get_field ps_variables []"

definition spec_get_validation_actions :: "proto_spec option \<Rightarrow> string" where
  "spec_get_validation_actions = get_field ps_validation_actions []"

definition spec_get_evaluation_mode :: "proto_spec option \<Rightarrow> string" where
  "spec_get_evaluation_mode = get_field ps_evaluation_mode []"

definition validation_get_expression :: "proto_validation option \<Rightarrow> string" where
  "validation_get_expression = get_field pv_expression []"

definition validation_get_message :: "proto_validation option \<Rightarrow> string" where
  "validation_get_message = get_optional pv_message"

definition validation_get_reason :: "proto_validation option \<Rightarrow> string" where
  "validation_get_reason = get_optional pv_reason"

definition validation_get_message_expression :: "proto_validation option \<Rightarrow> string" where
  "validation_get_message_expression = get_optional pv_message_expression"

definition condition_get_name :: "proto_match_condition option \<Rightarrow> string" where
  "condition_get_name = get_field pm_name []"

definition condition_get_expression :: "proto_match_condition option \<Rightarrow> string" where
  "condition_get_expression = get_field pm_expression []"

definition variable_get_name :: "proto_variable option \<Rightarrow> string" where
  "variable_get_name = get_field pr_name []"

definition variable_get_expression :: "proto_variable option \<Rightarrow> string" where
  "variable_get_expression = get_field pr_expression []"

definition policy_get_name :: "proto_policy option \<Rightarrow> string" where
  "policy_get_name = get_field pp_name []"

definition policy_get_delete :: "proto_policy option \<Rightarrow> bool" where
  "policy_get_delete = get_field pp_delete False"

definition policy_get_spec :: "proto_policy option \<Rightarrow> proto_spec option" where
  "policy_get_spec = get_field pp_spec None"

definition stream_request_get_client_address :: "stream_request_message option \<Rightarrow> string" where
  "stream_request_get_client_address = get_field sq_client_address []"

definition health_request_get_client_address :: "health_request_message option \<Rightarrow> string" where
  "health_request_get_client_address = get_field hq_client_address []"

definition health_request_get_time :: "health_request_message option \<Rightarrow> int option" where
  "health_request_get_time = get_field hq_time None"

lemmas getter_defs = get_field_def get_optional_def
  spec_get_validations_def spec_get_failure_policy_def spec_get_match_conditions_def
  spec_get_variables_def spec_get_validation_actions_def spec_get_evaluation_mode_def
  validation_get_expression_def validation_get_message_def validation_get_reason_def
  validation_get_message_expression_def condition_get_name_def condition_get_expression_def
  variable_get_name_def variable_get_expression_def
  policy_get_name_def policy_get_delete_def policy_get_spec_def
  stream_request_get_client_address_def health_request_get_client_address_def health_request_get_time_def

subsection \<open>Resetting a message\<close>

text \<open>\<open>Reset\<close> overwrites the message with its zero value and dereferences its receiver.\<close>

definition overwrite :: "'m \<Rightarrow> 'm option \<Rightarrow> 'm option outcome" where
  "overwrite zero x = (case x of None \<Rightarrow> Panic ''nil pointer dereference'' | Some _ \<Rightarrow> Ret (Some zero))"

definition reset_spec :: "proto_spec option \<Rightarrow> proto_spec option outcome" where
  "reset_spec = overwrite \<lparr>ps_evaluation_mode = [], ps_validations = [], ps_variables = [],
     ps_match_conditions = [], ps_failure_policy = None, ps_validation_actions = []\<rparr>"

definition reset_validation :: "proto_validation option \<Rightarrow> proto_validation option outcome" where
  "reset_validation = overwrite \<lparr>pv_expression = [], pv_message = None, pv_reason = None,
     pv_message_expression = None\<rparr>"

definition reset_match_condition :: "proto_match_condition option \<Rightarrow> proto_match_condition option outcome" where
  "reset_match_condition = overwrite \<lparr>pm_name = [], pm_expression = []\<rparr>"

definition reset_variable :: "proto_variable option \<Rightarrow> proto_variable option outcome" where
  "reset_variable = overwrite \<lparr>pr_name = [], pr_expression = []\<rparr>"

definition reset_policy :: "proto_policy option \<Rightarrow> proto_policy option outcome" where
  "reset_policy = overwrite \<lparr>pp_name = [], pp_spec = None, pp_delete = False\<rparr>"

definition reset_stream_request :: "stream_request_message option \<Rightarrow> stream_request_message option outcome" where
  "reset_stream_request = overwrite \<lparr>sq_client_address = []\<rparr>"

definition reset_health_request :: "health_request_message option \<Rightarrow> health_request_message option outcome" where
  "reset_health_request = overwrite \<lparr>hq_client_address = [], hq_time = None\<rparr>"

definition reset_health_response :: "health_response_message option \<Rightarrow> health_response_message option outcome" where
  "reset_health_response = overwrite Health_response"

lemmas reset_defs = overwrite_def reset_spec_def reset_validation_def reset_match_condition_def
  reset_variable_def reset_policy_def reset_stream_request_def reset_health_request_def reset_health_response_def

subsection \<open>Struct tags and type tables\<close>

text \<open>
  The exported fields of the structs with the protocol buffer part of their tags: wire type, number,
  label, name, the JSON name where it differs, and whether the field is a synthetic \<open>oneof\<close>, which
  marks an optional one. All tags say \<open>proto3\<close>.\<close>

datatype go_field_type = String_field | String_pointer | Bool_field | Message_pointer string | Message_slice string

record struct_field =
  sf_name :: string
  sf_type :: go_field_type
  sf_wire :: string
  sf_number :: nat
  sf_label :: string
  sf_proto_name :: string
  sf_json :: "string option"
  sf_oneof :: bool

definition spec_tags :: "struct_field list" where
  "spec_tags = [
     \<lparr>sf_name = ''Validations'', sf_type = Message_slice ''Validation'', sf_wire = ''bytes'', sf_number = 2,
      sf_label = ''rep'', sf_proto_name = ''validations'', sf_json = None, sf_oneof = False\<rparr>,
     \<lparr>sf_name = ''FailurePolicy'', sf_type = String_pointer, sf_wire = ''bytes'', sf_number = 3,
      sf_label = ''opt'', sf_proto_name = ''failure_policy'', sf_json = Some ''failurePolicy'', sf_oneof = True\<rparr>,
     \<lparr>sf_name = ''MatchConditions'', sf_type = Message_slice ''MatchCondition'', sf_wire = ''bytes'', sf_number = 5,
      sf_label = ''rep'', sf_proto_name = ''match_conditions'', sf_json = Some ''matchConditions'', sf_oneof = False\<rparr>,
     \<lparr>sf_name = ''Variables'', sf_type = Message_slice ''Variable'', sf_wire = ''bytes'', sf_number = 6,
      sf_label = ''rep'', sf_proto_name = ''variables'', sf_json = None, sf_oneof = False\<rparr>,
     \<lparr>sf_name = ''ValidationActions'', sf_type = String_field, sf_wire = ''bytes'', sf_number = 8,
      sf_label = ''opt'', sf_proto_name = ''validation_actions'', sf_json = Some ''validationActions'', sf_oneof = False\<rparr>,
     \<lparr>sf_name = ''EvaluationMode'', sf_type = String_field, sf_wire = ''bytes'', sf_number = 9,
      sf_label = ''opt'', sf_proto_name = ''evaluation_mode'', sf_json = Some ''evaluationMode'', sf_oneof = False\<rparr>]"

definition validation_tags :: "struct_field list" where
  "validation_tags = [
     \<lparr>sf_name = ''Expression'', sf_type = String_field, sf_wire = ''bytes'', sf_number = 1,
      sf_label = ''opt'', sf_proto_name = ''expression'', sf_json = None, sf_oneof = False\<rparr>,
     \<lparr>sf_name = ''Message'', sf_type = String_pointer, sf_wire = ''bytes'', sf_number = 2,
      sf_label = ''opt'', sf_proto_name = ''message'', sf_json = None, sf_oneof = True\<rparr>,
     \<lparr>sf_name = ''Reason'', sf_type = String_pointer, sf_wire = ''bytes'', sf_number = 3,
      sf_label = ''opt'', sf_proto_name = ''reason'', sf_json = None, sf_oneof = True\<rparr>,
     \<lparr>sf_name = ''MessageExpression'', sf_type = String_pointer, sf_wire = ''bytes'', sf_number = 4,
      sf_label = ''opt'', sf_proto_name = ''message_expression'', sf_json = Some ''messageExpression'', sf_oneof = True\<rparr>]"

definition match_condition_tags :: "struct_field list" where
  "match_condition_tags = [
     \<lparr>sf_name = ''Name'', sf_type = String_field, sf_wire = ''bytes'', sf_number = 1,
      sf_label = ''opt'', sf_proto_name = ''name'', sf_json = None, sf_oneof = False\<rparr>,
     \<lparr>sf_name = ''Expression'', sf_type = String_field, sf_wire = ''bytes'', sf_number = 2,
      sf_label = ''opt'', sf_proto_name = ''expression'', sf_json = None, sf_oneof = False\<rparr>]"

definition variable_tags :: "struct_field list" where
  "variable_tags = [
     \<lparr>sf_name = ''Name'', sf_type = String_field, sf_wire = ''bytes'', sf_number = 1,
      sf_label = ''opt'', sf_proto_name = ''name'', sf_json = None, sf_oneof = False\<rparr>,
     \<lparr>sf_name = ''Expression'', sf_type = String_field, sf_wire = ''bytes'', sf_number = 2,
      sf_label = ''opt'', sf_proto_name = ''expression'', sf_json = None, sf_oneof = False\<rparr>]"

definition policy_tags :: "struct_field list" where
  "policy_tags = [
     \<lparr>sf_name = ''Name'', sf_type = String_field, sf_wire = ''bytes'', sf_number = 1,
      sf_label = ''opt'', sf_proto_name = ''name'', sf_json = None, sf_oneof = False\<rparr>,
     \<lparr>sf_name = ''Delete'', sf_type = Bool_field, sf_wire = ''varint'', sf_number = 2,
      sf_label = ''opt'', sf_proto_name = ''delete'', sf_json = None, sf_oneof = False\<rparr>,
     \<lparr>sf_name = ''Spec'', sf_type = Message_pointer ''ValidatingPolicySpec'', sf_wire = ''bytes'', sf_number = 3,
      sf_label = ''opt'', sf_proto_name = ''spec'', sf_json = None, sf_oneof = False\<rparr>]"

definition stream_request_tags :: "struct_field list" where
  "stream_request_tags = [
     \<lparr>sf_name = ''ClientAddress'', sf_type = String_field, sf_wire = ''bytes'', sf_number = 1,
      sf_label = ''opt'', sf_proto_name = ''client_address'', sf_json = Some ''clientAddress'', sf_oneof = False\<rparr>]"

definition health_request_tags :: "struct_field list" where
  "health_request_tags = [
     \<lparr>sf_name = ''ClientAddress'', sf_type = String_field, sf_wire = ''bytes'', sf_number = 1,
      sf_label = ''opt'', sf_proto_name = ''client_address'', sf_json = Some ''clientAddress'', sf_oneof = False\<rparr>,
     \<lparr>sf_name = ''Time'', sf_type = Message_pointer ''Timestamp'', sf_wire = ''bytes'', sf_number = 2,
      sf_label = ''opt'', sf_proto_name = ''time'', sf_json = None, sf_oneof = False\<rparr>]"

definition go_types :: "string list" where
  "go_types = [''ValidatingPolicySpec'', ''Validation'', ''MatchCondition'', ''Variable'', ''ValidatingPolicy'',
     ''ValidatingPolicyStreamRequest'', ''HealthCheckRequest'', ''HealthCheckResponse'', ''Timestamp'']"

definition dep_idxs :: "nat list" where
  "dep_idxs = [1, 2, 3, 0, 8, 5, 6, 4, 7, 7, 5, 5, 5, 0]"

text \<open>The structs in the order of the types, and the methods of the service with their types.\<close>

definition message_tags :: "struct_field list list" where
  "message_tags = [spec_tags, validation_tags, match_condition_tags, variable_tags, policy_tags,
     stream_request_tags, health_request_tags, []]"

definition service_methods :: "(string \<times> string \<times> string) list" where
  "service_methods = [(''ValidatingPoliciesStream'', ''ValidatingPolicyStreamRequest'', ''ValidatingPolicy''),
     (''HealthCheck'', ''HealthCheckRequest'', ''HealthCheckResponse'')]"

subsection \<open>Initialisation\<close>

text \<open>
  \<open>init\<close> builds the types from the raw descriptor and the tables, unless it did so before, and then
  drops the tables. The builder and the compression of the descriptor are the library's.\<close>

record 'f proto_file =
  pf_file :: "'f option"
  pf_go_types :: "string list option"
  pf_dep_idxs :: "nat list option"

definition proto_file_start :: "'f proto_file" where
  "proto_file_start = \<lparr>pf_file = None, pf_go_types = Some go_types, pf_dep_idxs = Some dep_idxs\<rparr>"

definition proto_init :: "(string list option \<Rightarrow> nat list option \<Rightarrow> 'f) \<Rightarrow> 'f proto_file \<Rightarrow> 'f proto_file" where
  "proto_init build st =
     (if pf_file st \<noteq> None then st
      else \<lparr>pf_file = Some (build (pf_go_types st) (pf_dep_idxs st)), pf_go_types = None, pf_dep_idxs = None\<rparr>)"

definition raw_desc_gzip :: "('d \<Rightarrow> 'd) \<Rightarrow> 'd \<Rightarrow> 'd option \<Rightarrow> 'd \<times> 'd option" where
  "raw_desc_gzip compress raw data =
     (case data of Some d \<Rightarrow> (d, data) | None \<Rightarrow> (compress raw, Some (compress raw)))"

subsection \<open>Properties\<close>

text \<open>
  A nil message reads as an empty one: every getter of a message that is nil returns what it
  returns of the message after a reset, and a reset succeeds exactly on a message that is not nil.\<close>

theorem nil_message_reads_empty:
  "reset_spec x = Ret y \<Longrightarrow>
     spec_get_validations y = spec_get_validations None \<and> spec_get_failure_policy y = spec_get_failure_policy None \<and>
     spec_get_match_conditions y = spec_get_match_conditions None \<and> spec_get_variables y = spec_get_variables None \<and>
     spec_get_validation_actions y = spec_get_validation_actions None \<and>
     spec_get_evaluation_mode y = spec_get_evaluation_mode None"
  "reset_validation v = Ret w \<Longrightarrow>
     validation_get_expression w = validation_get_expression None \<and> validation_get_message w = validation_get_message None \<and>
     validation_get_reason w = validation_get_reason None \<and>
     validation_get_message_expression w = validation_get_message_expression None"
  "reset_policy p = Ret q \<Longrightarrow>
     policy_get_name q = policy_get_name None \<and> policy_get_delete q = policy_get_delete None \<and>
     policy_get_spec q = policy_get_spec None"
  "reset_health_request h = Ret k \<Longrightarrow>
     health_request_get_client_address k = health_request_get_client_address None \<and>
     health_request_get_time k = health_request_get_time None"
  "(\<exists>m'. overwrite zero m = Ret m') \<longleftrightarrow> m \<noteq> None"
  by (auto simp: reset_defs getter_defs split: option.splits)

text \<open>
  The listener reads the spec of a message as a field: on a message that is neither a deletion
  nor has a spec its goroutine panics, where the getters would read an empty mode.\<close>

theorem message_without_spec_panics:
  "\<not> pp_delete req \<Longrightarrow> pp_spec req = None \<Longrightarrow>
   (\<exists>e. handle_message req procs = Panic e) \<and> spec_get_evaluation_mode (policy_get_spec (Some req)) = []"
  by (simp add: handle_message_def getter_defs)

theorem message_without_spec_panics_witness:
  "\<exists>e. handle_message \<lparr>pp_name = ''p'', pp_spec = None, pp_delete = False\<rparr> [(''HTTP'', [])] = Panic e"
  using message_without_spec_panics [of "\<lparr>pp_name = ''p'', pp_spec = None, pp_delete = False\<rparr>" "[(''HTTP'', [])]"] by simp

text \<open>
  The tables agree with the structs: the dependency indices are, in order, the types of the message
  fields of all structs, the inputs and the outputs of the methods, and the starts of the lists.
  Within a struct numbers and names are distinct; a pointer to a string is exactly a \<open>oneof\<close>, a
  slice exactly repeated, and only a boolean has the varint wire type.\<close>

definition type_index :: "string \<Rightarrow> nat" where
  "type_index n = length (takeWhile (\<lambda>m. m \<noteq> n) go_types)"

fun message_type :: "go_field_type \<Rightarrow> string option" where
  "message_type (Message_pointer n) = Some n"
| "message_type (Message_slice n) = Some n"
| "message_type _ = None"

definition field_types :: "struct_field list \<Rightarrow> string list" where
  "field_types fs = List.map_filter (\<lambda>f. message_type (sf_type f)) fs"

definition tag_ok :: "struct_field \<Rightarrow> bool" where
  "tag_ok f \<longleftrightarrow> (sf_oneof f = (sf_type f = String_pointer)) \<and>
     (sf_wire f = (if sf_type f = Bool_field then ''varint'' else ''bytes'')) \<and>
     (sf_label f = (case sf_type f of Message_slice _ \<Rightarrow> ''rep'' | _ \<Rightarrow> ''opt''))"

definition tags_ok :: "struct_field list \<Rightarrow> bool" where
  "tags_ok fs \<longleftrightarrow> list_all tag_ok fs \<and> distinct (map sf_number fs) \<and> distinct (map sf_proto_name fs)"

lemmas tag_tables = spec_tags_def validation_tags_def match_condition_tags_def variable_tags_def
  policy_tags_def stream_request_tags_def health_request_tags_def

theorem type_tables_agree:
  "dep_idxs = map type_index (concat (map field_types message_tags)) @
     map (type_index \<circ> fst \<circ> snd) service_methods @ map (type_index \<circ> snd \<circ> snd) service_methods @ [7, 5, 5, 5, 0] \<and>
   list_all tags_ok message_tags"
proof
  have "concat (map field_types message_tags) =
      [''Validation'', ''MatchCondition'', ''Variable'', ''ValidatingPolicySpec'', ''Timestamp'']"
    by (simp add: message_tags_def tag_tables field_types_def List.map_filter_def)
  then show "dep_idxs = map type_index (concat (map field_types message_tags)) @
     map (type_index \<circ> fst \<circ> snd) service_methods @ map (type_index \<circ> snd \<circ> snd) service_methods @ [7, 5, 5, 5, 0]"
    by (simp add: dep_idxs_def service_methods_def type_index_def go_types_def)
  show "list_all tags_ok message_tags"
    by (simp add: message_tags_def tag_tables tags_ok_def tag_ok_def)
qed

text \<open>
  Initialising again changes nothing, so the tables are read before they are dropped; the
  compressed descriptor is computed once.\<close>

theorem proto_init_once:
  "proto_init build' (proto_init build proto_file_start) = proto_init build proto_file_start \<and>
   pf_file (proto_init build proto_file_start) = Some (build (Some go_types) (Some dep_idxs)) \<and>
   raw_desc_gzip compress' raw' (snd (raw_desc_gzip compress raw None)) = raw_desc_gzip compress raw (Some (compress raw))"
  by (simp add: proto_init_def proto_file_start_def raw_desc_gzip_def)

end
