(* ===== verification/Api_Scheme.thy ===== *)
theory Api_Scheme
  imports Prelude
begin

section \<open>The scheme of the resources\<close>

text \<open>
  Models \<open>apis/v1alpha1/zz_generated.register.go\<close> and the use the \<open>run\<close> command makes of it: its
  manager is built over a scheme on which the types of the group are installed, and its
  controller is set up for one of them. The scheme of the API machinery is third-party:
  \<open>scheme_lib\<close> holds the calls the code makes to it, and \<open>scheme_lib_ok\<close> what they document.
\<close>

record group_version =
  gv_group :: string
  gv_version :: string

record group_resource =
  gr_group :: string
  gr_resource :: string

definition GroupName :: string where "GroupName = ''authz.kyverno.io''"

definition GroupVersion :: group_version where
  "GroupVersion = \<lparr>gv_group = GroupName, gv_version = ''v1alpha1''\<rparr>"

definition SchemeGroupVersion :: group_version where
  "SchemeGroupVersion = \<lparr>gv_group = GroupName, gv_version = ''v1alpha1''\<rparr>"

text \<open>\<open>WithResource\<close> and \<open>GroupResource\<close> keep the group and the resource.\<close>

definition Resource :: "string \<Rightarrow> group_resource" where
  "Resource r = \<lparr>gr_group = gv_group SchemeGroupVersion, gr_resource = r\<rparr>"

type_synonym 's installer = "'s \<Rightarrow> go_error + 's"

record 's scheme_lib =
  sl_new :: 's
  sl_add_known_types :: "group_version \<Rightarrow> string list \<Rightarrow> 's installer"
  sl_add_to_group_version :: "group_version \<Rightarrow> 's \<Rightarrow> 's"
  sl_known :: "'s \<Rightarrow> group_version \<Rightarrow> string \<Rightarrow> bool"

text \<open>
  Adding the types is an error only where a type is known with another definition; \<open>AddKnownTypes\<close>
  panics then, and the code adds them to schemes that do not know them. A new scheme knows none.\<close>

definition add_known_types :: "'s scheme_lib \<Rightarrow> 's installer" where
  "add_known_types S s =
     (case sl_add_known_types S SchemeGroupVersion [''AuthorizationServer'', ''AuthorizationServerList''] s of
        Inl err \<Rightarrow> Inl err
      | Inr s' \<Rightarrow> Inr (sl_add_to_group_version S SchemeGroupVersion s'))"

text \<open>The builder is a list of installers; \<open>AddToScheme\<close> runs them in order up to the first error.\<close>

definition scheme_builder :: "'s scheme_lib \<Rightarrow> 's installer list" where
  "scheme_builder S = [] @ [add_known_types S]"

fun add_to_scheme :: "'s installer list \<Rightarrow> 's installer" where
  "add_to_scheme [] s = Inr s"
| "add_to_scheme (f # fs) s = (case f s of Inl err \<Rightarrow> Inl err | Inr s' \<Rightarrow> add_to_scheme fs s')"

definition install_scheme :: "'s scheme_lib \<Rightarrow> 's installer" where
  "install_scheme S = add_to_scheme (scheme_builder S)"

text \<open>
  The manager of the command and its controller. A manager is its scheme and its options; the
  controller library refuses an object whose type the scheme does not know.\<close>

record 's ctrl_manager =
  cm_scheme :: 's
  cm_metrics :: string
  cm_leader_election :: bool
  cm_leader_election_id :: string

definition new_run_manager ::
  "'s scheme_lib \<Rightarrow> ('s ctrl_manager \<Rightarrow> go_error option) \<Rightarrow> string \<Rightarrow> bool \<Rightarrow> string \<Rightarrow> go_error + 's ctrl_manager" where
  "new_run_manager S new_manager metrics_address leader_election leader_election_id =
     (case install_scheme S (sl_new S) of
        Inl err \<Rightarrow> Inl err
      | Inr scheme \<Rightarrow>
          (let mgr = \<lparr>cm_scheme = scheme, cm_metrics = metrics_address,
                 cm_leader_election = leader_election, cm_leader_election_id = leader_election_id\<rparr>
           in case new_manager mgr of Some err \<Rightarrow> Inl err | None \<Rightarrow> Inr mgr))"

definition setup_controller :: "('s ctrl_manager \<Rightarrow> group_version \<Rightarrow> string \<Rightarrow> go_error option) \<Rightarrow> 's ctrl_manager \<Rightarrow> go_error option" where
  "setup_controller complete mgr = complete mgr GroupVersion ''AuthorizationServer''"

definition scheme_lib_ok :: "'s scheme_lib \<Rightarrow> bool" where
  "scheme_lib_ok S \<longleftrightarrow>
     (\<forall>gv k. \<not> sl_known S (sl_new S) gv k) \<and>
     (\<forall>gv ks s. (\<forall>k \<in> set ks. \<not> sl_known S s gv k) \<longrightarrow>
        (\<exists>s'. sl_add_known_types S gv ks s = Inr s' \<and>
           (\<forall>gv' k. sl_known S s' gv' k \<longleftrightarrow> sl_known S s gv' k \<or> gv' = gv \<and> k \<in> set ks))) \<and>
     (\<forall>gv gv' k s. sl_known S s gv' k \<longrightarrow> sl_known S (sl_add_to_group_version S gv s) gv' k) \<and>
     (\<forall>gv gv' k s. sl_known S (sl_add_to_group_version S gv s) gv' k \<longrightarrow> sl_known S s gv' k \<or> gv' = gv)"

subsection \<open>Properties\<close>

text \<open>
  Installing the types on a new scheme succeeds, the scheme then knows both types of the group,
  and every other group as little as before: no type outside \<open>authz.kyverno.io/v1alpha1\<close>.\<close>

theorem install_registers_types:
  assumes "scheme_lib_ok S"
  shows "\<exists>s. install_scheme S (sl_new S) = Inr s \<and>
    sl_known S s GroupVersion ''AuthorizationServer'' \<and> sl_known S s GroupVersion ''AuthorizationServerList'' \<and>
    (\<forall>gv k. gv \<noteq> GroupVersion \<longrightarrow> \<not> sl_known S s gv k)"
proof -
  let ?ks = "[''AuthorizationServer'', ''AuthorizationServerList'']"
  note ok = assms [unfolded scheme_lib_ok_def]
  have new: "\<not> sl_known S (sl_new S) gv k" for gv k using ok by simp
  have "\<forall>k \<in> set ?ks. \<not> sl_known S (sl_new S) SchemeGroupVersion k" by (simp add: new)
  with ok have "\<exists>s. sl_add_known_types S SchemeGroupVersion ?ks (sl_new S) = Inr s \<and>
      (\<forall>gv' k. sl_known S s gv' k \<longleftrightarrow> sl_known S (sl_new S) gv' k \<or> gv' = SchemeGroupVersion \<and> k \<in> set ?ks)"
    by blast
  then obtain s where s: "sl_add_known_types S SchemeGroupVersion ?ks (sl_new S) = Inr s"
      "\<And>gv' k. sl_known S s gv' k \<longleftrightarrow> gv' = SchemeGroupVersion \<and> k \<in> set ?ks"
    by (auto simp: new)
  let ?s = "sl_add_to_group_version S SchemeGroupVersion s"
  have kept: "sl_known S s gv k \<Longrightarrow> sl_known S ?s gv k"
    and only: "sl_known S ?s gv k \<Longrightarrow> sl_known S s gv k \<or> gv = SchemeGroupVersion" for gv k
    using ok by simp_all
  have "install_scheme S (sl_new S) = Inr ?s"
    by (simp add: install_scheme_def scheme_builder_def add_known_types_def s(1))
  moreover have "GroupVersion = SchemeGroupVersion" by (simp add: GroupVersion_def SchemeGroupVersion_def)
  ultimately show ?thesis using kept only s(2) by auto
qed

text \<open>A scheme as the list of the types it knows.\<close>

definition list_scheme :: "(group_version \<times> string) list scheme_lib" where
  "list_scheme = \<lparr>sl_new = [], sl_add_known_types = (\<lambda>gv ks s. Inr (s @ map (Pair gv) ks)),
     sl_add_to_group_version = (\<lambda>gv s. s @ [(gv, ''ListOptions'')]), sl_known = (\<lambda>s gv k. (gv, k) \<in> set s)\<rparr>"

lemma list_scheme_ok: "scheme_lib_ok list_scheme"
  by (auto simp: scheme_lib_ok_def list_scheme_def)

theorem install_registers_types_witness:
  "sl_known list_scheme (projr (install_scheme list_scheme [])) GroupVersion ''AuthorizationServer''"
  using install_registers_types [OF list_scheme_ok] by (auto simp: list_scheme_def)

text \<open>
  The controller of the \<open>run\<close> command can be set up: when the library builds the manager and
  refuses only objects its scheme does not know, the controller of authorization servers is
  accepted.\<close>

theorem run_controller_set_up:
  assumes "scheme_lib_ok S" and "new_run_manager S new_manager addr le leid = Inr mgr"
    and "\<forall>gv k. sl_known S (cm_scheme mgr) gv k \<longrightarrow> complete mgr gv k = None"
  shows "setup_controller complete mgr = None \<and> cm_metrics mgr = addr"
proof -
  obtain s where "install_scheme S (sl_new S) = Inr s" "sl_known S s GroupVersion ''AuthorizationServer''"
    using install_registers_types [OF assms(1)] by blast
  with assms(2,3) show ?thesis
    by (auto simp: new_run_manager_def setup_controller_def Let_def split: option.splits)
qed

theorem run_controller_set_up_witness:
  "setup_controller (\<lambda>m gv k. if (gv, k) \<in> set (cm_scheme m) then None else Some (Errorf ''no kind is registered''))
     (projr (new_run_manager list_scheme (\<lambda>_. None) '':9082'' False [])) = None"
proof -
  obtain s where "install_scheme list_scheme [] = Inr s"
    using install_registers_types [OF list_scheme_ok] by (auto simp: list_scheme_def)
  then show ?thesis
    using run_controller_set_up [OF list_scheme_ok, of "\<lambda>_. None" "'':9082''" False "[]" "\<lparr>cm_scheme = s, cm_metrics = '':9082'',
        cm_leader_election = False, cm_leader_election_id = []\<rparr>"
        "\<lambda>m gv k. if (gv, k) \<in> set (cm_scheme m) then None else Some (Errorf ''no kind is registered'')"]
    by (simp add: new_run_manager_def list_scheme_def)
qed

end
