(* ===== verification/Cli_Docs.thy ===== *)
theory Cli_Docs
  imports Command_Flags "HOL-Library.Sublist"
begin

section \<open>The documentation of the commands\<close>

text \<open>
  Models \<open>website/commands/main.go\<close>, which writes one page for each command. The generators of
  the command library are third-party; what they are asked to generate is a value. The functions
  of \<open>path/filepath\<close>, \<open>strings\<close> and the verb \<open>%q\<close> that the front matter of a page uses are written
  out, the verb for printable text.
\<close>

definition docs_flags :: flags where
  "docs_flags =
     [(''out'', String_flag ''./docs/cli''), (''format'', String_flag ''markdown''), (''frontmatter'', Bool_flag False)]"

definition slash :: char where "slash = CHR 0x2F"
definition dot :: char where "dot = CHR 0x2E"
definition underscore :: char where "underscore = CHR 0x5F"
definition blank :: char where "blank = CHR 0x20"
definition newline :: char where "newline = CHR 0x0A"
definition dquote :: char where "dquote = CHR 0x22"
definition backslash :: char where "backslash = CHR 0x5C"

lemmas char_defs = slash_def dot_def underscore_def blank_def newline_def dquote_def backslash_def

text \<open>\<open>filepath.Base\<close> and \<open>filepath.Ext\<close>, \<open>strings.TrimSuffix\<close> and \<open>strings.ReplaceAll\<close>.\<close>

definition file_base :: "string \<Rightarrow> string" where
  "file_base path =
     (if path = [] then [dot]
      else (let p = dropWhile (\<lambda>c. c = slash) (rev path)
            in if p = [] then [slash] else rev (takeWhile (\<lambda>c. c \<noteq> slash) p)))"

definition file_ext :: "string \<Rightarrow> string" where
  "file_ext path =
     (let p = takeWhile (\<lambda>c. c \<noteq> slash) (rev path)
      in if dot \<in> set p then dot # rev (takeWhile (\<lambda>c. c \<noteq> dot) p) else [])"

definition trim_suffix :: "string \<Rightarrow> string \<Rightarrow> string" where
  "trim_suffix s suf = (if suffix suf s then take (length s - length suf) s else s)"

definition replace_char :: "char \<Rightarrow> char \<Rightarrow> string \<Rightarrow> string" where
  "replace_char a b = map (\<lambda>c. if c = a then b else c)"

definition quoted :: "string \<Rightarrow> string" where
  "quoted s = dquote # concat (map (\<lambda>c. if c = dquote \<or> c = backslash then [backslash, c] else [c]) s) @ [dquote]"

definition prep :: "string \<Rightarrow> string" where
  "prep filename =
     (let base = file_base filename;
          name = trim_suffix base (file_ext base);
          title = replace_char underscore blank name
      in ''---'' @ [newline] @ ''title: '' @ quoted title @ [newline] @ ''slug: '' @ quoted name @ [newline] @
         ''description: '' @ [dquote] @ ''CLI reference for '' @ title @ [dquote, newline] @
         ''---'' @ [newline, newline])"

definition to_lower :: "string \<Rightarrow> string" where
  "to_lower = map (\<lambda>c. let n = of_char c :: nat in if 65 \<le> n \<and> n \<le> 90 then char_of (n + 32) else c)"

definition to_upper :: "string \<Rightarrow> string" where
  "to_upper = map (\<lambda>c. let n = of_char c :: nat in if 97 \<le> n \<and> n \<le> 122 then char_of (n - 32) else c)"

datatype docs_job =
    Markdown_custom string "string \<Rightarrow> string" "string \<Rightarrow> string"
  | Markdown_tree string
  | Man_tree string string string
  | Rest_tree string

definition docs_job_of :: "string \<Rightarrow> string \<Rightarrow> string \<Rightarrow> bool \<Rightarrow> docs_job option" where
  "docs_job_of root_name out format front =
     (if format = ''markdown'' then
        (if front then Some (Markdown_custom out prep to_lower) else Some (Markdown_tree out))
      else if format = ''man'' then Some (Man_tree (to_upper root_name) ''1'' out)
      else if format = ''rest'' then Some (Rest_tree out)
      else None)"

text \<open>Every failure ends the process with a message; the result is that message, if any.\<close>

definition docs_main ::
  "(string \<Rightarrow> go_error option) \<Rightarrow> (docs_job \<Rightarrow> go_error option) \<Rightarrow> string \<Rightarrow> string \<Rightarrow> string \<Rightarrow> bool \<Rightarrow> go_error option" where
  "docs_main mkdir_all generate root_name out format front =
     (case mkdir_all out of
        Some err \<Rightarrow> Some err
      | None \<Rightarrow>
          (case docs_job_of root_name out format front of
             None \<Rightarrow> Some (Errorf (''unknown format: '' @ format))
           | Some job \<Rightarrow> generate job))"

subsection \<open>Facts\<close>

text \<open>The page the command library names after the path of a command.\<close>

fun joined :: "char \<Rightarrow> string list \<Rightarrow> string" where
  "joined c [] = []"
| "joined c [x] = x"
| "joined c (x # y # xs) = x @ c # joined c (y # xs)"

definition page_file :: "string \<Rightarrow> string list \<Rightarrow> string" where
  "page_file out path = out @ [slash] @ joined underscore path @ ''.md''"

definition plain :: "string \<Rightarrow> bool" where
  "plain s \<longleftrightarrow> slash \<notin> set s \<and> underscore \<notin> set s"

lemma joined_set: "set (joined c xs) \<subseteq> insert c (\<Union> (set ` set xs))"
  by (induction c xs rule: joined.induct) auto

lemma replace_joined:
  "\<forall>x \<in> set xs. a \<notin> set x \<Longrightarrow> replace_char a b (joined a xs) = joined b xs"
proof (induction a xs rule: joined.induct)
  case (2 c x)
  then show ?case by (auto simp: replace_char_def intro!: map_idI)
next
  case (3 c x y xs)
  moreover have "replace_char c b x = x" using 3 by (auto simp: replace_char_def intro!: map_idI)
  ultimately show ?case by (simp add: replace_char_def)
qed (simp add: replace_char_def)

lemma file_base_page:
  assumes "slash \<notin> set name"
  shows "file_base (out @ slash # name @ ''.md'') = name @ ''.md''"
proof -
  have "takeWhile (\<lambda>c. c \<noteq> slash) (rev (name @ ''.md'') @ slash # rev out) = rev (name @ ''.md'')"
    using assms by (subst takeWhile_append2) (auto simp: slash_def)
  then show ?thesis by (simp add: file_base_def Let_def slash_def)
qed

lemma file_ext_page: "file_ext (name @ ''.md'') = ''.md''"
  by (simp add: file_ext_def Let_def slash_def dot_def)

lemma trim_page: "trim_suffix (name @ ''.md'') ''.md'' = name"
  by (simp add: trim_suffix_def suffix_def)

subsection \<open>Properties\<close>

text \<open>
  The front matter of a page: for a command whose path has no slash and no underscore, the page
  the library names after the path is titled with the command line, its slug is the name of the
  page, and it describes that command line.\<close>

theorem page_front_matter:
  assumes "\<forall>x \<in> set path. plain x"
  shows "prep (page_file out path) =
    ''---'' @ [newline] @ ''title: '' @ quoted (joined blank path) @ [newline] @
    ''slug: '' @ quoted (joined underscore path) @ [newline] @
    ''description: '' @ [dquote] @ ''CLI reference for '' @ joined blank path @ [dquote, newline] @
    ''---'' @ [newline, newline]"
proof -
  have "slash \<notin> set (joined underscore path)"
    using assms joined_set [of underscore path] by (auto simp: plain_def char_defs)
  then have "file_base (page_file out path) = joined underscore path @ ''.md''"
    by (simp add: page_file_def file_base_page)
  moreover have "replace_char underscore blank (joined underscore path) = joined blank path"
    using assms by (intro replace_joined) (simp add: plain_def)
  ultimately show ?thesis by (simp add: prep_def Let_def file_ext_page trim_page)
qed

lemma tree_names_plain: "list_all (list_all plain) (command_paths root_tree)"
  by code_simp

theorem page_front_matter_witness:
  "prep (page_file ''docs'' [''kyverno-envoy-plugin'', ''run'']) =
    ''---'' @ [newline] @ ''title: '' @ quoted ''kyverno-envoy-plugin run'' @ [newline] @
    ''slug: '' @ quoted ''kyverno-envoy-plugin_run'' @ [newline] @
    ''description: '' @ [dquote] @ ''CLI reference for '' @ ''kyverno-envoy-plugin run'' @ [dquote, newline] @
    ''---'' @ [newline, newline]"
  using page_front_matter [of "[''kyverno-envoy-plugin'', ''run'']" "''docs''"]
  by (simp add: plain_def char_defs)

text \<open>
  The slugs of the pages of all commands differ, and the tool fails exactly when it cannot create
  its directory, does not know the format, or the generator of the format fails.\<close>

theorem docs_pages:
  "distinct (map (joined underscore) (command_paths root_tree)) \<and>
   (docs_main mkdir_all generate n out format front = None \<longleftrightarrow>
      mkdir_all out = None \<and> (\<exists>job. docs_job_of n out format front = Some job \<and> generate job = None))"
proof
  show "distinct (map (joined underscore) (command_paths root_tree))" by code_simp
qed (auto simp: docs_main_def split: option.split)

end
