(* ===== verification/Health_Checks.thy ===== *)
theory Health_Checks
  imports Policy_Sender Policy_Listener Command_Flags
begin

section \<open>The health checks of a connected server\<close>

text \<open>
  Models \<open>sendHealthChecks\<close> of \<open>pkg/control-plane/listener/listener.go\<close> and composes it with the
  sender, which disconnects clients whose last check is too old. A turn of the loop meets the end
  of its context or the timer; the timer is set when the call of the turn before has returned, so
  a slow call delays the next check. A check carries the time of the server's clock.
\<close>

datatype health_turn = Context_ended | Timer_fired int "go_error option"

text \<open>The requests of a loop. The result of a call is only logged.\<close>

fun send_health_checks :: "policy_listener \<Rightarrow> health_turn list \<Rightarrow> (string \<times> int) list" where
  "send_health_checks l [] = []"
| "send_health_checks l (Context_ended # turns) = []"
| "send_health_checks l (Timer_fired now res # turns) = (pl_client_addr l, now) # send_health_checks l turns"

text \<open>Successive times that are at most a gap apart.\<close>

fun paced :: "int \<Rightarrow> int list \<Rightarrow> bool" where
  "paced gap (t # t' # ts) = (t \<le> t' \<and> t' \<le> t + gap \<and> paced gap (t' # ts))"
| "paced gap ts = True"

lemma paced_recent:
  "paced gap ts \<Longrightarrow> ts \<noteq> [] \<Longrightarrow> hd ts \<le> x \<Longrightarrow> x \<le> last ts + gap \<Longrightarrow> \<exists>t \<in> set ts. t \<le> x \<and> x \<le> t + gap"
proof (induction gap ts rule: paced.induct)
  case (1 gap t t' ts)
  show ?case
  proof (cases "t' \<le> x")
    case True
    with 1 show ?thesis by auto
  next
    case False
    with 1(2,4) show ?thesis by auto
  qed
qed auto

lemma paced_first: "paced gap ts \<Longrightarrow> t \<in> set ts \<Longrightarrow> hd ts \<le> t"
  by (induction gap ts rule: paced.induct) force+

text \<open>
  How a loop that is alive reaches the sender: it checks at the moments \<open>rs\<close>, each at most the
  interval and some slack after the one before, with a clock that is ahead by \<open>skew\<close>; before a
  flush all its checks that are older than \<open>delay\<close> have arrived, and the last of them is not so old
  that the next is missing. Nobody else sends checks for its address.\<close>

definition reports :: "policy_listener \<Rightarrow> health_turn list \<Rightarrow> int list \<Rightarrow> int \<Rightarrow> int \<Rightarrow> int \<Rightarrow> 's sender_event list \<Rightarrow> bool" where
  "reports l turns rs slack delay skew evs \<longleftrightarrow>
     rs \<noteq> [] \<and> paced (pl_health_interval l + slack) rs \<and> 0 \<le> pl_health_interval l + slack \<and>
     send_health_checks l turns = map (\<lambda>r. (pl_client_addr l, r + skew)) rs \<and>
     (\<forall>t. Health (pl_client_addr l) (Some t) \<in> set evs \<longrightarrow> (pl_client_addr l, t) \<in> set (send_health_checks l turns)) \<and>
     (\<forall>before now after. evs = before @ Flush now # after \<longrightarrow>
        now - delay \<le> last rs + (pl_health_interval l + slack) \<and>
        (\<forall>r \<in> set rs. r \<le> now - delay \<longrightarrow> Health (pl_client_addr l) (Some (r + skew)) \<in> set before))"

lemma reports_recent:
  assumes "reports l turns rs slack delay skew evs" and "evs = before @ Flush now # after"
    and "pl_health_interval l + slack + delay - skew \<le> limit"
  shows "(\<forall>t. Health (pl_client_addr l) (Some t) \<notin> set before) \<or>
    (\<exists>t. Health (pl_client_addr l) (Some t) \<in> set before \<and> now - t \<le> limit)"
proof (cases "hd rs \<le> now - delay")
  case True
  let ?gap = "pl_health_interval l + slack"
  have "now - delay \<le> last rs + ?gap" and arrived:
      "\<And>r. r \<in> set rs \<Longrightarrow> r \<le> now - delay \<Longrightarrow> Health (pl_client_addr l) (Some (r + skew)) \<in> set before"
    using assms(1,2) unfolding reports_def by blast+
  with True obtain r where r: "r \<in> set rs" "r \<le> now - delay" "now - delay \<le> r + ?gap"
    using paced_recent [of ?gap rs "now - delay"] assms(1) unfolding reports_def by blast
  with assms(3) have "now - (r + skew) \<le> limit" by linarith
  with arrived [OF r(1,2)] show ?thesis by blast
next
  case False
  have "now - t \<le> limit" if t: "Health (pl_client_addr l) (Some t) \<in> set before" for t
  proof -
    have "(pl_client_addr l, t) \<in> set (send_health_checks l turns)"
      using assms(1,2) t unfolding reports_def by (metis Un_iff set_append)
    then obtain r where "r \<in> set rs" "t = r + skew" using assms(1) unfolding reports_def by auto
    with False paced_first [of _ rs r] assms(1,3) show ?thesis unfolding reports_def by fastforce
  qed
  then show ?thesis by blast
qed

subsection \<open>Properties\<close>

text \<open>C25:
  A connected server stays connected: whatever policies are stored and deleted and whatever other
  clients do, no flush drops a client whose health checks are due often enough, that is when the
  interval of its loop, what a call delays it, and what a check takes to arrive, less what its
  clock is ahead, are together at most the inactivity the control plane allows.\<close>

theorem reporting_server_stays_connected:
  assumes "gomap_ok (sd_health s)" and "map_of (sd_cxns s) (pl_client_addr l) = Some stream"
    and "map_of (sd_health s) (pl_client_addr l) = None" and "pl_client_addr l \<noteq> []"
    and "\<forall>stream. Request (pl_client_addr l) stream \<notin> set evs"
    and "reports l turns rs slack delay skew evs"
    and "pl_health_interval l + slack + delay - skew \<le> sd_max_inactive s"
  shows "map_of (sd_cxns (fold sender_step evs s)) (pl_client_addr l) = Some stream"
  using client_kept [OF assms(1,2,4,5)] reports_recent [OF assms(6) _ assms(7)] assms(3) by blast

text \<open>
  The age of a check is its distance on two clocks: a flush drops a client whose clock is behind by
  more than the allowed inactivity even when its check arrives the moment it was sent.\<close>

theorem lagging_clock_disconnects:
  assumes "gomap_ok (sd_health s)" and "map_of (sd_health s) (pl_client_addr l) = None" and "pl_client_addr l \<noteq> []"
    and "skew < - sd_max_inactive s" and "send_health_checks l turns = [(c, now + skew)]"
  shows "map_of (sd_cxns (fold sender_step [Health c (Some (now + skew)), Flush now] s)) c = None"
proof -
  have c: "c = pl_client_addr l" using assms(5) by (cases "(l, turns)" rule: send_health_checks.cases) auto
  let ?s = "snd (health_check c (Some (now + skew)) s)"
  have ok: "gomap_ok (sd_health ?s)" "sd_max_inactive ?s = sd_max_inactive s"
    using assms(1) by (auto simp: health_check_def split: option.split)
  have "map_of (sd_health ?s) c = Some (now + skew)"
    using assms(2,3) by (simp add: c health_check_def)
  with assms(4) show ?thesis by (simp add: delete_inactive_sel inactive_iff [OF ok(1)] ok(2))
qed

definition sample_listener :: policy_listener where
  "sample_listener = new_policy_listener ''control-plane'' ''c'' [] 3 8 30"

theorem reporting_server_stays_connected_witness:
  "map_of (sd_cxns (fold sender_step [Health ''c'' (Some 30), Health ''c'' (Some 61), Flush 90]
     ((new_policy_sender 5 10 180 240)\<lparr>sd_cxns := [(''c'', ())]\<rparr>))) ''c'' = Some ()"
proof -
  let ?s = "(new_policy_sender 5 10 180 240 :: unit sender)\<lparr>sd_cxns := [(''c'', ())]\<rparr>"
  let ?evs = "[Health ''c'' (Some 30), Health ''c'' (Some 61), Flush 90 :: unit sender_event]"
  let ?turns = "[Timer_fired 30 None, Timer_fired 61 (Some (Errorf ''unavailable'')), Context_ended]"
  have l: "pl_client_addr sample_listener = ''c''" "pl_health_interval sample_listener = 30"
    by (simp_all add: sample_listener_def new_policy_listener_def)
  have "reports sample_listener ?turns [30, 61] 1 2 0 ?evs"
    by (auto simp: reports_def l Cons_eq_append_conv)
  from reporting_server_stays_connected [OF _ _ _ _ _ this, of ?s "()"] show ?thesis
    by (simp add: l new_policy_sender_def)
qed

theorem lagging_clock_disconnects_witness:
  "map_of (sd_cxns (fold sender_step [Health ''c'' (Some 0), Flush 300]
     ((new_policy_sender 5 10 180 240)\<lparr>sd_cxns := [(''c'', ())]\<rparr>))) ''c'' = None"
proof -
  have "pl_client_addr sample_listener = ''c''" by (simp add: sample_listener_def new_policy_listener_def)
  then show ?thesis
    using lagging_clock_disconnects [of "(new_policy_sender 5 10 180 240 :: unit sender)\<lparr>sd_cxns := [(''c'', ())]\<rparr>"
        sample_listener "- 300" "[Timer_fired 0 None]" "''c''" 300]
    by (simp add: new_policy_sender_def)
qed

text \<open>
  The default durations leave 210 seconds for slow calls, slow deliveries and a clock that is
  behind.\<close>

theorem default_durations_leave_slack:
  assumes "map_of http_flags ''health-check-interval'' = Some (Duration_flag h)"
    and "map_of control_plane_flags ''max-client-inactive-duration'' = Some (Duration_flag m)"
  shows "h + slack + delay - skew \<le> m \<longleftrightarrow> slack + delay - skew \<le> 210"
  using assms default_durations by auto

end
