(* ===== verification/Name_Patterns.thy ===== *)
theory Name_Patterns
  imports Prelude "HOL-Library.Char_ord"
begin

section \<open>Names of Kubernetes objects\<close>

text \<open>
  Models \<open>apis/v1alpha1/common.go\<close>: the string types of references with the lengths and patterns
  their validation markers put on them. A marker's pattern is a term of \<open>pattern\<close>; all of them are
  anchored, so a string is valid when the whole of it matches. Matching is the relation
  \<open>matches\<close>; \<open>accepts\<close> computes it by derivatives. The reference definitions say in words of
  labels and subdomains what the patterns say. Strings are lists of characters.
\<close>

subsection \<open>Patterns\<close>

text \<open>A class is a list of ranges.\<close>

datatype pattern =
    Nothing
  | Empty_string
  | Class "(char \<times> char) list"
  | Either pattern pattern
  | Then pattern pattern
  | Repeat pattern

instantiation pattern :: "{zero, one, plus, times}"
begin

definition zero_pattern :: pattern where "0 = Nothing"
definition one_pattern :: pattern where "1 = Empty_string"
definition plus_pattern :: "pattern \<Rightarrow> pattern \<Rightarrow> pattern" where "p + q = Either p q"
definition times_pattern :: "pattern \<Rightarrow> pattern \<Rightarrow> pattern" where "p * q = Then p q"

instance ..

end

lemmas pattern_ops = zero_pattern_def one_pattern_def plus_pattern_def times_pattern_def

definition in_class :: "(char \<times> char) list \<Rightarrow> char \<Rightarrow> bool" where
  "in_class rs c \<longleftrightarrow> list_ex (\<lambda>(a, b). a \<le> c \<and> c \<le> b) rs"

inductive matches :: "pattern \<Rightarrow> string \<Rightarrow> bool" where
  empty_string: "matches 1 []"
| in_range: "in_class rs c \<Longrightarrow> matches (Class rs) [c]"
| left: "matches p s \<Longrightarrow> matches (p + q) s"
| right: "matches q s \<Longrightarrow> matches (p + q) s"
| both: "matches p s \<Longrightarrow> matches q t \<Longrightarrow> matches (p * q) (s @ t)"
| stop: "matches (Repeat p) []"
| again: "matches p s \<Longrightarrow> matches (Repeat p) t \<Longrightarrow> matches (Repeat p) (s @ t)"

inductive_simps matches_simps [unfolded pattern_ops, simp]:
  "matches Nothing s"
  "matches Empty_string s"
  "matches (Class rs) s"
  "matches (Either p q) s"
  "matches (Then p q) s"

fun nullable :: "pattern \<Rightarrow> bool" where
  "nullable Nothing = False"
| "nullable Empty_string = True"
| "nullable (Class rs) = False"
| "nullable (Either p q) = (nullable p \<or> nullable q)"
| "nullable (Then p q) = (nullable p \<and> nullable q)"
| "nullable (Repeat p) = True"

fun derivative :: "char \<Rightarrow> pattern \<Rightarrow> pattern" where
  "derivative c Nothing = 0"
| "derivative c Empty_string = 0"
| "derivative c (Class rs) = (if in_class rs c then 1 else 0)"
| "derivative c (Either p q) = derivative c p + derivative c q"
| "derivative c (Then p q) =
     (if nullable p then derivative c p * q + derivative c q else derivative c p * q)"
| "derivative c (Repeat p) = derivative c p * Repeat p"

definition accepts :: "pattern \<Rightarrow> string \<Rightarrow> bool" where
  "accepts p s \<longleftrightarrow> nullable (fold derivative s p)"

text \<open>The derivative of a pattern matches what is left of a string after its first character.\<close>

lemma nullable_matches: "nullable p \<longleftrightarrow> matches p []"
  by (induction p) (auto simp: pattern_ops intro: matches.stop)

lemma matches_Repeat_Cons:
  "matches (Repeat p) (c # s) \<longleftrightarrow> (\<exists>t u. s = t @ u \<and> matches p (c # t) \<and> matches (Repeat p) u)"
proof
  have "matches r x \<Longrightarrow> r = Repeat p \<Longrightarrow> x = c # s \<Longrightarrow>
      \<exists>t u. s = t @ u \<and> matches p (c # t) \<and> matches (Repeat p) u" for r x
    by (induction arbitrary: s rule: matches.induct) (auto simp: pattern_ops append_eq_Cons_conv)
  then show "matches (Repeat p) (c # s) \<Longrightarrow> \<exists>t u. s = t @ u \<and> matches p (c # t) \<and> matches (Repeat p) u" by blast
  show "\<exists>t u. s = t @ u \<and> matches p (c # t) \<and> matches (Repeat p) u \<Longrightarrow> matches (Repeat p) (c # s)"
    by (metis append_Cons matches.again)
qed

lemma derivative_matches: "matches (derivative c p) s \<longleftrightarrow> matches p (c # s)"
proof (induction p arbitrary: s)
  case (Then p q)
  then show ?case
    by (auto simp: pattern_ops nullable_matches Cons_eq_append_conv)
next
  case (Repeat p)
  then show ?case by (simp add: pattern_ops matches_Repeat_Cons)
qed (auto simp: pattern_ops)

lemma accepts_matches: "accepts p s \<longleftrightarrow> matches p s"
  unfolding accepts_def
  by (induction s arbitrary: p) (simp_all add: nullable_matches derivative_matches)

lemma matches_optional: "matches (1 + p) s \<longleftrightarrow> s = [] \<or> matches p s"
  by (simp add: pattern_ops)

lemma matches_then: "matches (p * q) s \<longleftrightarrow> (\<exists>t u. s = t @ u \<and> matches p t \<and> matches q u)"
  by (auto simp: pattern_ops)

lemma matches_class: "matches (Class rs) s \<longleftrightarrow> (\<exists>c. s = [c] \<and> in_class rs c)"
  by auto

lemma matches_repeat_class: "matches (Repeat (Class rs)) s \<longleftrightarrow> (\<forall>c \<in> set s. in_class rs c)"
  by (induction s) (auto simp: matches_Repeat_Cons intro: matches.stop)

subsection \<open>The markers\<close>

definition lower_alnum :: "(char \<times> char) list" where
  "lower_alnum = [(CHR ''a'', CHR ''z''), (CHR ''0'', CHR ''9'')]"

definition letter :: "(char \<times> char) list" where
  "letter = [(CHR ''a'', CHR ''z''), (CHR ''A'', CHR ''Z'')]"

definition alnum :: "(char \<times> char) list" where
  "alnum = letter @ [(CHR ''0'', CHR ''9'')]"

definition dash :: "(char \<times> char) list" where
  "dash = [(CHR ''-'', CHR ''-'')]"

text \<open>A word that starts in one class, goes on in another, and may have dashes in between.\<close>

definition word_pattern :: "(char \<times> char) list \<Rightarrow> (char \<times> char) list \<Rightarrow> pattern" where
  "word_pattern a b = Class a * (1 + Repeat (Class (dash @ b)) * Class b)"

definition namespace_pattern :: pattern where
  "namespace_pattern = word_pattern lower_alnum lower_alnum"

definition kind_pattern :: pattern where
  "kind_pattern = word_pattern letter alnum"

definition group_pattern :: pattern where
  "group_pattern = 1 + namespace_pattern * Repeat (Class [(CHR ''.'', CHR ''.'')] * namespace_pattern)"

definition valid_group :: "string \<Rightarrow> bool" where
  "valid_group s \<longleftrightarrow> length s \<le> 253 \<and> accepts group_pattern s"

definition valid_kind :: "string \<Rightarrow> bool" where
  "valid_kind s \<longleftrightarrow> 1 \<le> length s \<and> length s \<le> 63 \<and> accepts kind_pattern s"

definition valid_object_name :: "string \<Rightarrow> bool" where
  "valid_object_name s \<longleftrightarrow> 1 \<le> length s \<and> length s \<le> 253"

definition valid_namespace :: "string \<Rightarrow> bool" where
  "valid_namespace s \<longleftrightarrow> accepts namespace_pattern s \<and> 1 \<le> length s \<and> length s \<le> 63"

subsection \<open>Labels and subdomains\<close>

definition is_dash_or :: "(char \<times> char) list \<Rightarrow> char \<Rightarrow> bool" where
  "is_dash_or rs c \<longleftrightarrow> c = CHR ''-'' \<or> in_class rs c"

definition dns_label :: "string \<Rightarrow> bool" where
  "dns_label s \<longleftrightarrow> s \<noteq> [] \<and> list_all (is_dash_or lower_alnum) s \<and> hd s \<noteq> CHR ''-'' \<and> last s \<noteq> CHR ''-''"

definition kind_word :: "string \<Rightarrow> bool" where
  "kind_word s \<longleftrightarrow> s \<noteq> [] \<and> list_all (is_dash_or alnum) s \<and> in_class letter (hd s) \<and> last s \<noteq> CHR ''-''"

fun split_on :: "char \<Rightarrow> string \<Rightarrow> string list" where
  "split_on d [] = [[]]"
| "split_on d (c # s) =
     (if c = d then [] # split_on d s
      else (case split_on d s of w # ws \<Rightarrow> (c # w) # ws | [] \<Rightarrow> [[c]]))"

definition subdomain :: "string \<Rightarrow> bool" where
  "subdomain s \<longleftrightarrow> list_all dns_label (split_on (CHR ''.'') s)"

lemma in_dash [simp]: "in_class (dash @ rs) c \<longleftrightarrow> is_dash_or rs c"
  by (auto simp: in_class_def dash_def is_dash_or_def)

lemma class_simps [simp]:
  "\<not> in_class lower_alnum (CHR ''-'')" "\<not> in_class alnum (CHR ''-'')" "\<not> in_class letter (CHR ''-'')"
  "\<not> in_class lower_alnum (CHR ''.'')" "in_class letter c \<Longrightarrow> in_class alnum c"
  by (auto simp: in_class_def lower_alnum_def alnum_def letter_def)

lemma matches_class_then: "matches (Class rs * p) s \<longleftrightarrow> (\<exists>c t. s = c # t \<and> in_class rs c \<and> matches p t)"
  unfolding matches_then matches_class by (metis append_Cons append_Nil)

lemma matches_then_class: "matches (p * Class rs) s \<longleftrightarrow> (\<exists>t c. s = t @ [c] \<and> matches p t \<and> in_class rs c)"
  by (auto simp: matches_then)

lemma matches_word:
  "matches (word_pattern a b) (c # s) \<longleftrightarrow>
   in_class a c \<and> list_all (is_dash_or b) s \<and> (s \<noteq> [] \<longrightarrow> in_class b (last s))"
  "\<not> matches (word_pattern a b) []"
proof -
  have "matches (Repeat (Class (dash @ b)) * Class b) s \<longleftrightarrow> s \<noteq> [] \<and> list_all (is_dash_or b) s \<and> in_class b (last s)"
    by (cases s rule: rev_cases) (auto simp: matches_then_class matches_repeat_class list_all_iff is_dash_or_def)
  then show "matches (word_pattern a b) (c # s) \<longleftrightarrow>
      in_class a c \<and> list_all (is_dash_or b) s \<and> (s \<noteq> [] \<longrightarrow> in_class b (last s))"
    by (auto simp: word_pattern_def matches_class_then matches_optional)
  show "\<not> matches (word_pattern a b) []" by (simp add: word_pattern_def matches_class_then)
qed

lemma no_dash: "\<not> in_class rs (CHR ''-'') \<Longrightarrow> is_dash_or rs c \<Longrightarrow> c \<noteq> CHR ''-'' \<longleftrightarrow> in_class rs c"
  by (auto simp: is_dash_or_def)

lemma last_ok: "list_all P s \<Longrightarrow> s \<noteq> [] \<Longrightarrow> P (last s)"
  by (simp add: list_all_iff)

lemma matches_namespace: "matches namespace_pattern s \<longleftrightarrow> dns_label s"
proof (cases s)
  case (Cons c t)
  have "is_dash_or lower_alnum c \<and> c \<noteq> CHR ''-'' \<longleftrightarrow> in_class lower_alnum c"
    by (metis class_simps(1) is_dash_or_def)
  moreover have "list_all (is_dash_or lower_alnum) t \<Longrightarrow> t \<noteq> [] \<Longrightarrow>
      last t \<noteq> CHR ''-'' \<longleftrightarrow> in_class lower_alnum (last t)"
    by (rule no_dash, simp, rule last_ok)
  ultimately show ?thesis unfolding namespace_pattern_def dns_label_def Cons matches_word
    by (cases "t = []") auto
qed (simp add: namespace_pattern_def matches_word dns_label_def)

lemma matches_kind: "matches kind_pattern s \<longleftrightarrow> kind_word s"
proof (cases s)
  case (Cons c t)
  have "in_class letter c \<Longrightarrow> is_dash_or alnum c \<and> c \<noteq> CHR ''-''"
    by (metis class_simps(3,5) is_dash_or_def)
  moreover have "list_all (is_dash_or alnum) t \<Longrightarrow> t \<noteq> [] \<Longrightarrow> last t \<noteq> CHR ''-'' \<longleftrightarrow> in_class alnum (last t)"
    by (rule no_dash, simp, rule last_ok)
  ultimately show ?thesis unfolding kind_pattern_def kind_word_def Cons matches_word
    by (cases "t = []") auto
qed (simp add: kind_pattern_def matches_word kind_word_def)

text \<open>The labels between dots, and the only way to put a string together from parts without dots.\<close>

lemma split_on_ne [simp]: "split_on d s \<noteq> []"
  by (induction s) (auto split: list.split)

lemma split_on_word: "d \<notin> set w \<Longrightarrow> split_on d (w @ d # s) = w # split_on d s"
  by (induction w) auto

lemma split_on_single: "d \<notin> set w \<Longrightarrow> split_on d w = [w]"
  by (induction w) auto

lemma split_on_concat:
  "d \<notin> set w \<Longrightarrow> list_all (\<lambda>v. d \<notin> set v) ws \<Longrightarrow> split_on d (w @ concat (map ((#) d) ws)) = w # ws"
proof (induction ws arbitrary: w)
  case (Cons v ws)
  then show ?case using split_on_word [of d w "v @ concat (map ((#) d) ws)"] by simp
qed (simp add: split_on_single)

lemma split_on_join: "s = hd (split_on d s) @ concat (map ((#) d) (tl (split_on d s)))"
proof (induction s)
  case (Cons c s)
  obtain v vs where "split_on d s = v # vs" by (meson split_on_ne neq_Nil_conv)
  with Cons show ?case by simp
qed simp

lemma matches_parts:
  "matches (Repeat (Class [(d, d)] * p)) s \<longleftrightarrow> (\<exists>ws. list_all (matches p) ws \<and> s = concat (map ((#) d) ws))"
proof
  have sep: "matches (Class [(d, d)] * p) s \<longleftrightarrow> (\<exists>w. s = d # w \<and> matches p w)" for s
    by (auto simp: matches_class_then in_class_def)
  have "matches r s \<Longrightarrow> r = Repeat (Class [(d, d)] * p) \<Longrightarrow>
      \<exists>ws. list_all (matches p) ws \<and> s = concat (map ((#) d) ws)" for r
  proof (induction rule: matches.induct)
    case (again q s t)
    then obtain w ws where "s = d # w" "matches p w" "list_all (matches p) ws" "t = concat (map ((#) d) ws)"
      by (auto simp: sep)
    then show ?case by (intro exI [of _ "w # ws"]) simp
  qed (auto simp: pattern_ops intro: exI [of _ "[]"])
  then show "matches (Repeat (Class [(d, d)] * p)) s \<Longrightarrow> \<exists>ws. list_all (matches p) ws \<and> s = concat (map ((#) d) ws)"
    by blast
  have "list_all (matches p) ws \<Longrightarrow> matches (Repeat (Class [(d, d)] * p)) (concat (map ((#) d) ws))" for ws
  proof (induction ws)
    case (Cons w ws)
    then show ?case using matches.again [of "Class [(d, d)] * p" "d # w"] by (simp add: sep)
  qed (simp add: matches.stop)
  then show "\<exists>ws. list_all (matches p) ws \<and> s = concat (map ((#) d) ws) \<Longrightarrow> matches (Repeat (Class [(d, d)] * p)) s"
    by blast
qed

lemma dns_label_no_dot: "dns_label s \<Longrightarrow> CHR ''.'' \<notin> set s"
proof -
  have "\<not> is_dash_or lower_alnum (CHR ''.'')" by (simp add: is_dash_or_def)
  then show "dns_label s \<Longrightarrow> CHR ''.'' \<notin> set s" unfolding dns_label_def list_all_iff by metis
qed

lemma matches_group: "matches group_pattern s \<longleftrightarrow> s = [] \<or> subdomain s"
proof -
  have "(\<exists>w ws. s = w @ concat (map ((#) (CHR ''.'')) ws) \<and> dns_label w \<and> list_all dns_label ws) \<longleftrightarrow> subdomain s"
  proof
    assume "\<exists>w ws. s = w @ concat (map ((#) (CHR ''.'')) ws) \<and> dns_label w \<and> list_all dns_label ws"
    then obtain w ws where w: "s = w @ concat (map ((#) (CHR ''.'')) ws)" "dns_label w" "list_all dns_label ws" by blast
    then have "split_on (CHR ''.'') s = w # ws"
      unfolding w(1) by (intro split_on_concat) (auto simp: list_all_iff dns_label_no_dot)
    with w show "subdomain s" by (simp add: subdomain_def)
  next
    assume s: "subdomain s"
    obtain w ws where "split_on (CHR ''.'') s = w # ws" by (meson split_on_ne neq_Nil_conv)
    with s split_on_join [of s "CHR ''.''"]
    show "\<exists>w ws. s = w @ concat (map ((#) (CHR ''.'')) ws) \<and> dns_label w \<and> list_all dns_label ws"
      by (intro exI [of _ w] exI [of _ ws]) (simp add: subdomain_def)
  qed
  moreover have "matches group_pattern s \<longleftrightarrow> s = [] \<or>
      (\<exists>w ws. s = w @ concat (map ((#) (CHR ''.'')) ws) \<and> dns_label w \<and> list_all dns_label ws)"
    unfolding group_pattern_def matches_optional matches_then [of namespace_pattern] matches_parts
      matches_namespace [abs_def] by metis
  ultimately show ?thesis by (simp only:)
qed

subsection \<open>Properties\<close>

text \<open>C39:
  The patterns on the fields of a reference say what their comments say: a valid group is empty or
  a subdomain, dot-separated labels of lower-case letters, digits and inner dashes; a valid
  namespace is one such label of at most 63 characters; a valid kind starts with a letter, goes on
  with letters, digits and dashes and does not end with a dash.\<close>

theorem name_patterns_agree:
  "(valid_group s \<longleftrightarrow> s = [] \<or> length s \<le> 253 \<and> subdomain s) \<and>
   (valid_namespace s \<longleftrightarrow> length s \<le> 63 \<and> dns_label s) \<and>
   (valid_kind s \<longleftrightarrow> length s \<le> 63 \<and> kind_word s)"
  by (auto simp: valid_group_def valid_namespace_def valid_kind_def accepts_matches matches_group
      matches_namespace matches_kind dns_label_def kind_word_def Suc_le_eq)

text \<open>The values that the comments list as valid and invalid are.\<close>

theorem documented_examples:
  "list_all valid_group [[], ''authz.kyverno.io'', ''policies.kyverno.io''] \<and> \<not> valid_group ''example.com/bar'' \<and>
   list_all valid_kind [''Service'', ''HTTPRoute''] \<and> \<not> valid_kind ''invalid/kind'' \<and>
   valid_namespace ''example'' \<and> \<not> valid_namespace ''example.com''"
  by code_simp

end
