(* ===== verification/Server_Schema.thy ===== *)
theory Server_Schema
  imports Deep_Copy Name_Patterns
begin

section \<open>Admitted authorization servers\<close>

text \<open>
  Models the validation and default markers of \<open>apis/v1alpha1/authzserver.go\<close>, from which the
  resource definition is generated, and what the controller (\<open>Run_Reconciler\<close>) makes of a
  resource they admit. A submitted reference has each of its fields or not. The API server sets
  defaults before it validates; an absent string reads as empty in Go, which for the fields with
  a minimal length is not a valid value. Label selectors are the API machinery's.
\<close>

subsection \<open>Submitted resources\<close>

record 'sel submitted_ref =
  sm_group :: "string option"
  sm_kind :: "string option"
  sm_name :: "string option"
  sm_selector :: "'sel option"

record submitted_envoy =
  se_network :: "string option"
  se_address :: string

type_synonym 'sel submitted_source =
  "('sel submitted_ref option kube_struct option, string option, string option,
    string list oci_struct option) source_struct"

type_synonym submitted_type = "(submitted_envoy option, modifiers option http_struct option) type_struct"

type_synonym 'sel submitted_spec = "(submitted_type, 'sel submitted_source list) spec_struct"

subsection \<open>Defaults\<close>

definition default_ref :: "'sel submitted_ref \<Rightarrow> 'sel submitted_ref" where
  "default_ref r = r\<lparr>
     sm_group := Some (case sm_group r of Some g \<Rightarrow> g | None \<Rightarrow> ''policies.kyverno.io''),
     sm_kind := Some (case sm_kind r of Some k \<Rightarrow> k | None \<Rightarrow> ''ValidatingPolicy'')\<rparr>"

definition default_envoy :: "submitted_envoy \<Rightarrow> submitted_envoy" where
  "default_envoy e = e\<lparr>se_network := Some (case se_network e of Some n \<Rightarrow> n | None \<Rightarrow> ''tcp'')\<rparr>"

definition default_source :: "'sel submitted_source \<Rightarrow> 'sel submitted_source" where
  "default_source src = src\<lparr>sr_kube := map_option (\<lambda>k. k\<lparr>ks_ref := map_option default_ref (ks_ref k)\<rparr>) (sr_kube src)\<rparr>"

definition default_spec :: "'sel submitted_spec \<Rightarrow> 'sel submitted_spec" where
  "default_spec spec = spec\<lparr>
     sp_type := (sp_type spec)\<lparr>ty_envoy := map_option default_envoy (ty_envoy (sp_type spec))\<rparr>,
     sp_sources := map default_source (sp_sources spec)\<rparr>"

subsection \<open>Validation\<close>

definition all_option :: "('a \<Rightarrow> bool) \<Rightarrow> 'a option \<Rightarrow> bool" where
  "all_option P x = (case x of Some a \<Rightarrow> P a | None \<Rightarrow> True)"

definition present :: "'a option \<Rightarrow> nat" where
  "present x = (if x = None then 0 else 1)"

definition valid_ref :: "'sel submitted_ref \<Rightarrow> bool" where
  "valid_ref r \<longleftrightarrow>
     all_option valid_group (sm_group r) \<and> all_option valid_kind (sm_kind r) \<and>
     all_option valid_object_name (sm_name r) \<and>
     (sm_name r \<noteq> None \<or> sm_selector r \<noteq> None) \<and> \<not> (sm_name r \<noteq> None \<and> sm_selector r \<noteq> None)"

definition valid_source :: "'sel submitted_source \<Rightarrow> bool" where
  "valid_source src \<longleftrightarrow>
     present (sr_kube src) + present (sr_fs src) + present (sr_git src) + present (sr_oci src) = 1 \<and>
     all_option (\<lambda>k. all_option valid_ref (ks_ref k)) (sr_kube src)"

definition valid_type :: "submitted_type \<Rightarrow> bool" where
  "valid_type t \<longleftrightarrow> present (ty_envoy t) + present (ty_http t) = 1"

definition valid_spec :: "'sel submitted_spec \<Rightarrow> bool" where
  "valid_spec spec \<longleftrightarrow> valid_type (sp_type spec) \<and> list_all valid_source (sp_sources spec)"

text \<open>What the API server stores, if it admits the resource.\<close>

definition admit :: "'sel submitted_spec \<Rightarrow> 'sel submitted_spec option" where
  "admit spec = (if valid_spec (default_spec spec) then Some (default_spec spec) else None)"

subsection \<open>The resource the controller reads\<close>

definition read_source_spec :: "'sel submitted_source \<Rightarrow> policy_source_spec" where
  "read_source_spec src = \<lparr>so_kubernetes = (sr_kube src \<noteq> None), so_fs = sr_fs src, so_git = sr_git src,
     so_oci = map_option (\<lambda>p. \<lparr>oc_url = op_url p, oc_insecure = op_insecure p, oc_secrets = op_secrets p\<rparr>) (sr_oci src)\<rparr>"

definition read_server_spec :: "string \<Rightarrow> string \<Rightarrow> 'sel submitted_spec \<Rightarrow> authz_server" where
  "read_server_spec name namespace spec = \<lparr>as_name = name, as_namespace = namespace,
     as_envoy = map_option (\<lambda>e. \<lparr>es_network = (case se_network e of Some n \<Rightarrow> n | None \<Rightarrow> []),
       es_address = se_address e\<rparr>) (ty_envoy (sp_type spec)),
     as_http = map_option (\<lambda>h. \<lparr>hv_address = hs_address h, hv_nested = hs_nested h,
       hv_modifiers = hs_modifiers h\<rparr>) (ty_http (sp_type spec)),
     as_sources = map read_source_spec (sp_sources spec)\<rparr>"

subsection \<open>Facts\<close>



text \<open>A valid source is one of four.\<close>

lemma present_simps [simp]: "present (Some a) = 1" "present None = 0"
  by (simp_all add: present_def)








lemma default_ref_idem [simp]: "default_ref (default_ref r) = default_ref r"
  by (simp add: default_ref_def)

lemma default_spec_idem: "default_spec (default_spec spec) = default_spec spec"
proof -
  have "map_option default_ref (map_option default_ref r) = map_option default_ref r" for r :: "'a submitted_ref option"
    by (cases r) simp_all
  then have "default_source (default_source src) = default_source src" for src :: "'a submitted_source"
    by (cases "sr_kube src") (simp_all add: default_source_def)
  moreover have "default_envoy (default_envoy e) = default_envoy e" for e
    by (simp add: default_envoy_def)
  ultimately show ?thesis
    by (cases "ty_envoy (sp_type spec)") (simp_all add: default_spec_def)
qed

subsection \<open>Properties\<close>


definition sample_submitted :: "unit submitted_spec" where
  "sample_submitted = \<lparr>sp_type = \<lparr>ty_envoy = Some \<lparr>se_network = None, se_address = '':9081''\<rparr>, ty_http = None\<rparr>,
     sp_sources = [
       \<lparr>sr_kube = Some \<lparr>ks_ref = Some \<lparr>sm_group = None, sm_kind = None, sm_name = Some ''only-this'', sm_selector = None\<rparr>\<rparr>,
        sr_fs = None, sr_git = None, sr_oci = None\<rparr>,
       \<lparr>sr_kube = None, sr_fs = Some ''/policies'', sr_git = None, sr_oci = None\<rparr>]\<rparr>"



text \<open>
  The reference of a Kubernetes source is not looked at: resources that differ only in references
  read the same, so they get the same servers with the same sources, and a server whose reference
  names one policy evaluates every policy of its mode.\<close>

definition without_refs :: "'sel submitted_spec \<Rightarrow> 'sel submitted_spec" where
  "without_refs spec = spec\<lparr>sp_sources :=
     map (\<lambda>src. src\<lparr>sr_kube := map_option (\<lambda>k. k\<lparr>ks_ref := None\<rparr>) (sr_kube src)\<rparr>) (sp_sources spec)\<rparr>"

lemma read_without_refs: "read_server_spec name namespace (without_refs spec) = read_server_spec name namespace spec"
  by (simp add: read_server_spec_def without_refs_def read_source_spec_def comp_def)

theorem policy_reference_ignored:
  assumes "without_refs spec = without_refs spec'"
  shows "run_reconcile M E1 E2 se me req (Object_found (read_server_spec name namespace spec)) s =
    run_reconcile M E1 E2 se me req (Object_found (read_server_spec name namespace spec')) s"
  using assms read_without_refs [of name namespace spec] read_without_refs [of name namespace spec'] by simp

theorem policy_reference_ignored_witness:
  "read_server_spec ''s'' ''ns'' sample_submitted = read_server_spec ''s'' ''ns'' (without_refs sample_submitted) \<and>
   run_reconcile M E1 E2 se me req (Object_found (read_server_spec ''s'' ''ns'' sample_submitted)) s =
   run_reconcile M E1 E2 se me req (Object_found (read_server_spec ''s'' ''ns'' (without_refs sample_submitted))) s"
proof -
  have "without_refs sample_submitted = without_refs (without_refs sample_submitted)"
    by (simp add: without_refs_def sample_submitted_def)
  from policy_reference_ignored [OF this] show ?thesis
    by (simp add: read_server_spec_def without_refs_def read_source_spec_def sample_submitted_def)
qed

text \<open>
  Admission settles a resource: what was admitted is admitted again unchanged. A reference is
  valid when it gives a name or a selector, not both, whatever defaults fill in; the empty
  reference is refused.\<close>

theorem admission_settles:
  "admit spec = Some spec' \<Longrightarrow> admit spec' = Some spec'"
  "valid_ref (default_ref r) \<Longrightarrow> (sm_name r = None) \<noteq> (sm_selector r = None)"
  "\<not> valid_ref (default_ref \<lparr>sm_group = g, sm_kind = k, sm_name = None, sm_selector = None\<rparr>)"
  by (auto simp: admit_def default_spec_idem valid_ref_def default_ref_def split: if_splits)

end
