(* ===== verification/Controller_Names.thy ===== *)
theory Controller_Names
  imports Server_Schema Keyed_Sources
begin

section \<open>The names of controllers in a process\<close>

text \<open>
  Models \<open>NewApiSource\<close> of \<open>sdk/extensions/controller-runtime/source.go\<close>, which registers a
  controller for its source, and follows the controller of authorization servers through the life
  of its process. The registration is the controller runtime's; it documents that a
  controller name is accepted once in a process, and never again, unless the check is switched off,
  which this program does not do. Each Kubernetes source registers a controller with the name of its
  server.
\<close>

text \<open>\<open>complete\<close> is the builder's answer, over the registry of the process.\<close>

definition new_named_api_source ::
  "(string \<Rightarrow> 'r \<Rightarrow> go_error option \<times> 'r) \<Rightarrow> string \<Rightarrow> 'r \<Rightarrow> (go_error + (string, 'v) gomap) \<times> 'r" where
  "new_named_api_source complete name reg =
     (case complete name reg of
        (Some err, reg') \<Rightarrow> (Inl err, reg')
      | (None, reg') \<Rightarrow> (Inr new_api_source, reg'))"

definition unique_controllers :: "(string \<Rightarrow> 'r \<Rightarrow> go_error option \<times> 'r) \<Rightarrow> ('r \<Rightarrow> string set) \<Rightarrow> bool" where
  "unique_controllers complete registered \<longleftrightarrow>
     (\<forall>n reg. (n \<in> registered reg \<longrightarrow> fst (complete n reg) \<noteq> None) \<and>
        (fst (complete n reg) = None \<longrightarrow> n \<in> registered (snd (complete n reg))) \<and>
        registered reg \<subseteq> registered (snd (complete n reg)))"

lemma named_api_source_once:
  assumes "unique_controllers complete registered" and "new_named_api_source complete n reg = (Inr src, reg')"
  shows "n \<notin> registered reg" and "n \<in> registered reg'" and "registered reg \<subseteq> registered reg'"
proof -
  have c: "complete n reg = (None, reg')"
    using assms(2) by (auto simp: new_named_api_source_def split: prod.splits option.splits)
  with assms(1) show "n \<notin> registered reg" "n \<in> registered reg'" "registered reg \<subseteq> registered reg'"
    unfolding unique_controllers_def by (metis fst_conv, metis fst_conv snd_conv, metis snd_conv)
qed

subsection \<open>Building sources under used names\<close>

text \<open>An environment that refuses the names that were used before a build and in it.\<close>

definition refuses_used :: "string set \<Rightarrow> 'fs run_env \<Rightarrow> bool" where
  "refuses_used used E \<longleftrightarrow> (\<forall>out n. n \<in> used \<or> From_kube n \<in> set out \<longrightarrow> rn_kube_source E out n \<noteq> None)"

lemma refuses_used_mono: "refuses_used used E \<Longrightarrow> used' \<subseteq> used \<Longrightarrow> refuses_used used' E"
  by (auto simp: refuses_used_def)

lemma bind_build_Inr: "bind_build b f = Ret (Inr res) \<longleftrightarrow> (\<exists>out. b = Ret (Inr out) \<and> f out = Ret (Inr res))"
  by (cases b) (auto simp: bind_build_def split: sum.split)

lemma open_fs_Inr: "open_fs E url new out = Ret (Inr res) \<Longrightarrow> set out \<subseteq> set res"
  by (auto simp: open_fs_def split: option.splits sum.splits)

lemma add_Inr:
  "add_kube E n src out = Ret (Inr res) \<Longrightarrow> set out \<subseteq> set res"
  "add_git E src out = Ret (Inr res) \<Longrightarrow> set out \<subseteq> set res"
  "add_fs E src out = Ret (Inr res) \<Longrightarrow> set out \<subseteq> set res"
  "add_oci E ns src out = Ret (Inr res) \<Longrightarrow> set out \<subseteq> set res"
  by (auto simp: add_kube_def add_git_def add_fs_def add_oci_def open_fs_Inr split: option.splits sum.splits if_splits
      dest: open_fs_Inr)

lemma add_kube_Inr:
  "add_kube E n src out = Ret (Inr res) \<Longrightarrow> so_kubernetes src \<Longrightarrow>
   rn_kube_source E out n = None \<and> From_kube n \<in> set res"
  by (auto simp: add_kube_def split: option.splits)

lemma build_uses_name_once:
  assumes "refuses_used used E"
  shows "build_sources E n ns srcs out = Ret (Inr res) \<Longrightarrow>
    set out \<subseteq> set res \<and> (list_ex so_kubernetes srcs \<longrightarrow> From_kube n \<in> set res \<and> n \<notin> used \<and> From_kube n \<notin> set out) \<and>
    length (filter so_kubernetes srcs) \<le> 1"
proof (induction srcs arbitrary: out)
  case (Cons src srcs)
  then obtain o1 o2 o3 o4 where b: "add_kube E n src out = Ret (Inr o1)" "add_git E src o1 = Ret (Inr o2)"
    "add_fs E src o2 = Ret (Inr o3)" "add_oci E ns src o3 = Ret (Inr o4)"
    "build_sources E n ns srcs o4 = Ret (Inr res)"
    by (auto simp: bind_build_Inr)
  have grow: "set out \<subseteq> set o1" "set o1 \<subseteq> set o4" 
    using add_Inr(1) [OF b(1)] add_Inr(2) [OF b(2)] add_Inr(3) [OF b(3)] add_Inr(4) [OF b(4)] by blast+
  note IH = Cons.IH [OF b(5)]
  show ?case
  proof (cases "so_kubernetes src")
    case True
    with add_kube_Inr [OF b(1)] have new: "rn_kube_source E out n = None" "From_kube n \<in> set o1" by blast+
    with assms have "n \<notin> used" "From_kube n \<notin> set out" unfolding refuses_used_def by metis+
    moreover have "\<not> list_ex so_kubernetes srcs" using IH new(2) grow by blast
    then have "filter so_kubernetes srcs = []" by (simp add: filter_empty_conv list_ex_iff)
    ultimately show ?thesis using IH grow new(2) True by auto
  next
    case False
    then show ?thesis using IH grow by auto
  qed
qed simp

subsection \<open>The life of a process\<close>

text \<open>The names in use: those of the controllers that stored servers registered, at least, and for ever.\<close>

fun entry_sources :: "'fs server_entry \<Rightarrow> 'fs server_source list" where
  "entry_sources (Envoy_entry _ _ srcs) = srcs"
| "entry_sources (Http_entry _ _ _ _ _ _ srcs) = srcs"

definition held_names :: "('req, 'fs) run_state \<Rightarrow> string set" where
  "held_names s = {n. \<exists>req entry. map_of (rc_servers s) req = Some entry \<and> From_kube n \<in> set (entry_sources entry)}"

record ('req, 'fs) process =
  pr_state :: "('req, 'fs) run_state"
  pr_names :: "string set"

inductive process_run :: "multierr \<Rightarrow> ('req, 'fs) process \<Rightarrow> ('req, 'fs) process \<Rightarrow> bool" for M p where
  now: "process_run M p p"
| reconciled: "process_run M p p' \<Longrightarrow> refuses_used (pr_names p') E1 \<Longrightarrow> refuses_used (pr_names p') E2 \<Longrightarrow>
    run_reconcile M E1 E2 se me req answer (pr_state p') = Ret (err, s) \<Longrightarrow>
    pr_names p' \<union> held_names s \<subseteq> used \<Longrightarrow>
    process_run M p \<lparr>pr_state = s, pr_names = used\<rparr>"

lemma process_names_grow: "process_run M p p' \<Longrightarrow> pr_names p \<subseteq> pr_names p'"
  by (induction rule: process_run.induct) auto

lemma process_holds_names:
  "process_run M p p' \<Longrightarrow> held_names (pr_state p) \<subseteq> pr_names p \<Longrightarrow> held_names (pr_state p') \<subseteq> pr_names p'"
  by (induction rule: process_run.induct) auto

text \<open>A resource whose sources cannot be built is not stored, and the reconciliation reports an error.\<close>

lemma unbuildable_not_stored:
  assumes "multierr_ok M" and "as_envoy obj \<noteq> None" and "map_of (rc_servers s) req = None"
    and "\<forall>res. build_sources E1 (as_name obj) (as_namespace obj) (as_sources obj) [] \<noteq> Ret (Inr res)"
    and "\<forall>res. build_sources E2 (as_name obj) (as_namespace obj) (as_sources obj) [] \<noteq> Ret (Inr res)"
    and "run_reconcile M E1 E2 se me req (Object_found obj) s = Ret (err, s')"
  shows "err \<noteq> None \<and> map_of (rc_servers s') req = None"
proof -
  obtain e1 s1 e2 where run: "run_envoy_server E1 req obj s = Ret (e1, s1)" "run_http_server E2 req obj s1 = Ret (e2, s')"
    "err = m_combine M [e1, e2]"
    using assms(2,6) by (auto simp: run_reconcile_def run_server_def bind_outcome_eq_Ret)
  have "e1 \<noteq> None \<and> rc_servers s1 = rc_servers s"
    using run(1) assms(3,4)
    by (auto simp: run_envoy_server_def with_manager_def split: option.splits outcome.splits sum.splits if_splits)
      metis+
  moreover from this have "rc_servers s' = rc_servers s"
    using run(2) assms(3,5)
    by (auto simp: run_http_server_def with_manager_def split: option.splits outcome.splits sum.splits if_splits)
  ultimately show ?thesis using assms(1,3) run(3) by (simp add: multierr_combine_None)
qed

subsection \<open>Properties\<close>

text \<open>C36:
  The name of a server with a Kubernetes source can be used once in the life of the controller's
  process: when such a server was running, then after any further reconciliations, its deletion
  among them, every reconciliation of a resource of that name with a Kubernetes source, in any
  namespace, for which no server is stored, stores none and reports an error.\<close>

theorem recreated_server_never_starts:
  assumes "multierr_ok M" and "process_run M \<lparr>pr_state = setup_reconciler, pr_names = used\<rparr> p"
    and "map_of (rc_servers (pr_state p)) req0 = Some entry" and "From_kube (as_name obj) \<in> set (entry_sources entry)"
    and "process_run M p p'" and "refuses_used (pr_names p') E1" and "refuses_used (pr_names p') E2"
    and "as_envoy obj \<noteq> None" and "list_ex so_kubernetes (as_sources obj)"
    and "map_of (rc_servers (pr_state p')) req = None"
    and "run_reconcile M E1 E2 se me req (Object_found obj) (pr_state p') = Ret (err, s')"
  shows "err \<noteq> None \<and> map_of (rc_servers s') req = None"
proof (rule unbuildable_not_stored [OF assms(1,8,10) _ _ assms(11)])
  have "held_names (pr_state p) \<subseteq> pr_names p"
    by (rule process_holds_names [OF assms(2)]) (simp add: held_names_def setup_reconciler_def)
  then have "as_name obj \<in> pr_names p'"
    using assms(3,4) process_names_grow [OF assms(5)] by (auto simp: held_names_def)
  with assms(6,7,9) show "\<forall>res. build_sources E1 (as_name obj) (as_namespace obj) (as_sources obj) [] \<noteq> Ret (Inr res)"
    "\<forall>res. build_sources E2 (as_name obj) (as_namespace obj) (as_sources obj) [] \<noteq> Ret (Inr res)"
    using build_uses_name_once by blast+
qed

text \<open>
  A server cannot have two Kubernetes sources, although its definition admits them: a resource with
  two never starts.\<close>

theorem two_kube_sources_never_start:
  assumes "multierr_ok M" and "refuses_used used E1" and "refuses_used used E2"
    and "as_envoy obj \<noteq> None" and "length (filter so_kubernetes (as_sources obj)) \<ge> 2"
    and "map_of (rc_servers s) req = None"
    and "run_reconcile M E1 E2 se me req (Object_found obj) s = Ret (err, s')"
  shows "err \<noteq> None \<and> map_of (rc_servers s') req = None"
proof (rule unbuildable_not_stored [OF assms(1,4,6) _ _ assms(7)])
  have "\<not> length (filter so_kubernetes (as_sources obj)) \<le> 1" using assms(5) by simp
  with assms(2,3) show "\<forall>res. build_sources E1 (as_name obj) (as_namespace obj) (as_sources obj) [] \<noteq> Ret (Inr res)"
    "\<forall>res. build_sources E2 (as_name obj) (as_namespace obj) (as_sources obj) [] \<noteq> Ret (Inr res)"
    using build_uses_name_once by blast+
qed

text \<open>A process that starts a server, deletes it and is asked for one of that name in another namespace.\<close>

definition named_env :: "string set \<Rightarrow> string run_env" where
  "named_env used = ok_env\<lparr>rn_kube_source := \<lambda>out n.
     if n \<in> used \<or> From_kube n \<in> set out then Some (Errorf ''controller already exists'') else None\<rparr>"

definition kube_server :: "string \<Rightarrow> authz_server" where
  "kube_server namespace = \<lparr>as_name = ''s'', as_namespace = namespace,
     as_envoy = Some \<lparr>es_network = ''tcp'', es_address = '':9081''\<rparr>, as_http = None,
     as_sources = [\<lparr>so_kubernetes = True, so_fs = None, so_git = None, so_oci = None\<rparr>]\<rparr>"

lemma named_env_refuses: "refuses_used used (named_env used)"
  by (simp add: refuses_used_def named_env_def)

theorem recreated_server_never_starts_witness:
  "\<exists>s1 s2 err s3.
     run_reconcile multierr_list (named_env {}) (named_env {}) None None (1 :: nat) (Object_found (kube_server ''a''))
       setup_reconciler = Ret (None, s1) \<and>
     run_reconcile multierr_list (named_env {''s''}) (named_env {''s''}) None None 1 Object_not_found s1 = Ret (None, s2) \<and>
     run_reconcile multierr_list (named_env {''s''}) (named_env {''s''}) None None 2 (Object_found (kube_server ''b''))
       s2 = Ret (err, s3) \<and> err \<noteq> None \<and> map_of (rc_servers s3) 2 = None"
proof -
  note defs = run_reconcile_def run_server_def run_envoy_server_def run_http_server_def with_manager_def kube_server_def
    named_env_def ok_env_def setup_reconciler_def add_kube_def add_git_def add_fs_def add_oci_def stop_server_def
  let ?s1 = "\<lparr>rc_servers = [(1 :: nat, Envoy_entry ''tcp'' '':9081'' [From_kube ''s''])], rc_cert = [], rc_key = [],
    rc_managers = 1\<rparr> :: (nat, string) run_state"
  let ?s2 = "\<lparr>rc_servers = [], rc_cert = [], rc_key = [], rc_managers = 0\<rparr> :: (nat, string) run_state"
  let ?start = "\<lparr>pr_state = setup_reconciler :: (nat, string) run_state, pr_names = {}\<rparr>"
  let ?p1 = "\<lparr>pr_state = ?s1, pr_names = {''s''}\<rparr>" and ?p2 = "\<lparr>pr_state = ?s2, pr_names = {''s''}\<rparr>"
  have r1: "run_reconcile multierr_list (named_env {}) (named_env {}) None None 1 (Object_found (kube_server ''a''))
      setup_reconciler = Ret (None, ?s1)" by (simp add: defs)
  have r2: "run_reconcile multierr_list (named_env {''s''}) (named_env {''s''}) None None 1 Object_not_found ?s1 =
      Ret (None, ?s2)" by (simp add: defs)
  obtain err s3 where r3: "run_reconcile multierr_list (named_env {''s''}) (named_env {''s''}) None None 2
      (Object_found (kube_server ''b'')) ?s2 = Ret (err, s3)" by (simp add: defs)
  have p1: "process_run multierr_list ?start ?p1"
    using process_run.reconciled [OF process_run.now, of ?start "named_env {}" "named_env {}"] r1
    by (fastforce simp: named_env_refuses held_names_def)
  have p2: "process_run multierr_list ?p1 ?p2"
    using process_run.reconciled [OF process_run.now, of ?p1 "named_env {''s''}" "named_env {''s''}"] r2
    by (fastforce simp: named_env_refuses held_names_def)
  have "err \<noteq> None \<and> map_of (rc_servers s3) 2 = None"
    using recreated_server_never_starts [OF multierr_list_ok p1, of 1 "Envoy_entry ''tcp'' '':9081'' [From_kube ''s'']"
        "kube_server ''b''" ?p2 "named_env {''s''}" "named_env {''s''}" 2 None None err s3] p2 r3
    by (simp add: named_env_refuses kube_server_def)
  with r1 r2 r3 show ?thesis by blast
qed

theorem two_kube_sources_never_start_witness:
  "\<exists>err s'. run_reconcile multierr_list (named_env {}) (named_env {}) None None (1 :: nat)
     (Object_found ((kube_server ''a'')\<lparr>as_sources := as_sources (kube_server ''a'') @ as_sources (kube_server ''a'')\<rparr>))
     setup_reconciler = Ret (err, s') \<and> err \<noteq> None"
proof -
  let ?obj = "(kube_server ''a'')\<lparr>as_sources := as_sources (kube_server ''a'') @ as_sources (kube_server ''a'')\<rparr>"
  obtain err s' where r: "run_reconcile multierr_list (named_env {}) (named_env {}) None None (1 :: nat)
      (Object_found ?obj) setup_reconciler = Ret (err, s')"
    by (simp add: run_reconcile_def run_server_def run_envoy_server_def run_http_server_def with_manager_def
        kube_server_def named_env_def ok_env_def setup_reconciler_def add_kube_def add_git_def add_fs_def add_oci_def)
  have "err \<noteq> None \<and> map_of (rc_servers s') 1 = None"
    by (rule two_kube_sources_never_start [OF multierr_list_ok named_env_refuses named_env_refuses _ _ _ r])
      (simp_all add: kube_server_def setup_reconciler_def)
  with r show ?thesis by blast
qed

end
