(* ===== verification/Spec2Isabelle.thy ===== *)
theory Spec2Isabelle
  imports Fs_Source Compiled_Policy Concurrent_Loads Live_Updates
    Webhook_Commands Context_Libs Command_Flags Deep_Copy Envoy_Lib Jwt_Lib Cel_Libs
    Grpc_Service Proto_Messages Api_Scheme Cli_Docs Health_Checks Controller_Names
begin

text \<open>
  A verification development of the Kyverno authorization plugin (Go, under \<open>src/\<close>).

  \<^bold>\<open>The program.\<close> Authorization servers answer check requests of Envoy (gRPC) and plain HTTP
  requests by evaluating validating policies written in CEL. Policies come from files, Git and OCI
  file systems, from a Kubernetes cluster, or from a control plane that streams them to its
  servers. A small SDK (\<open>sdk/\<close>) provides sources and an evaluation engine; \<open>pkg/\<close> builds the
  compiler, the servers, the control plane, the commands and the CEL libraries on it.

  \<^bold>\<open>Theories and the code they model\<close>, in the order of the imports:

  \<^item> \<open>Prelude\<close>: errors as values, the aggregation of errors (\<open>multierr\<close>, a parameter with its
    documented laws), outcomes that may panic, Go maps as association lists (\<open>gomap\<close>), and the
    collections \<open>go_simps\<close> and \<open>go_inv\<close>.
  \<^item> \<open>Sources\<close>: \<open>sdk/core/source.go\<close> and the filter, transform and flatten wrappers. A source is
    a function from its state to items, error and next state. The locales \<open>source_wrapper\<close> and
    \<open>wrapper_pair\<close> state what wrapping means and compose it.
  \<^item> \<open>Stateful_Sources\<close>: \<open>composite.go\<close>, \<open>once.go\<close>, \<open>cache.go\<close>, one load at
    a time; the cache keeps both of its buffers.
  \<^item> \<open>Fs_Source\<close>: \<open>fs.go\<close> of the SDK with the walk of the standard library over a tree.
  \<^item> \<open>Core_Engine\<close>: contexts, breakers, the sequential dispatcher, resulters, handler, engine,
    defaults and the policy extension. The contract of a resulter is a locale, interpreted on
    the appender, the first and the transforming resulter.
  \<^item> \<open>Compiled_Policy\<close>: \<open>pkg/engine/compiler/policy.go\<close>; \<open>Policy_Types\<close>, \<open>Cel_Env\<close> and
    \<open>Compiler\<close>: the policy resource, the CEL environments and \<open>compiler.go\<close>.
  \<^item> \<open>Authz_Envoy\<close>, \<open>Http_Lib\<close>, \<open>Authz_Http\<close>: the two servers with their engines, metrics and
    response writer.
  \<^item> \<open>Policy_Proto\<close>, \<open>Keyed_Sources\<close>, \<open>Engine_Sources\<close>: the wire format, the sources that
    track objects by key (the locale \<open>keyed_store\<close>, interpreted on the controller's source,
    the listener, the sender's store and the reconciler) and the sources the engine is given.
  \<^item> \<open>Concurrent_Loads\<close>: loads of a cached source that interleave with each other and with the
    changes of what they read. The contract of the inner source is the locale \<open>cached_source\<close>,
    interpreted on any source and on the source of a cluster.
  \<^item> \<open>Policy_Sender\<close>, \<open>Policy_Listener\<close>: the two ends of the control plane. Their goroutines
    are the step relations \<open>send_step\<close> and \<open>listener_step\<close>. \<open>Policy_Sender\<close> also holds the
    stream handler, the retries of a send and the removal of silent clients.
  \<^item> \<open>Sender_Races\<close>: the handler of a stream and the reconciler as interleaved steps.
  \<^item> \<open>Grpc_Service\<close>, \<open>Proto_Messages\<close>: the generated stubs between them, with the sender as the
    service, and the generated messages with their getters, tags and tables.
  \<^item> \<open>Control_Plane\<close>, \<open>Live_Updates\<close>: both ends composed, from the reconciler's cluster to the
    policies a server evaluates: when it connects, connects again or stays connected. The messages
    a server handles are a \<open>keyed_store\<close> as well.
  \<^item> \<open>Oci_Fs\<close>: the file systems of OCI images, with the registry options, the key chain of
    pull secrets and the path checks of \<open>io/fs\<close>.
  \<^item> \<open>Serve_Commands\<close>, \<open>Run_Reconciler\<close>: what the commands and the controller start and stop.
  \<^item> \<open>Health_Checks\<close>: the loop of a server that reports to the control plane, with the sender.
  \<^item> \<open>Name_Patterns\<close>, \<open>Server_Schema\<close>: the validation and default markers of the resource types
    (\<open>apis/v1alpha1\<close>), their patterns decided by derivatives, and what the controller makes of
    the resources they admit.
  \<^item> \<open>Controller_Names\<close>: the controllers of Kubernetes sources, whose names a process accepts
    once, over the life of the controller's process.
  \<^item> \<open>Deep_Copy\<close>: the deep copies of the resources over a heap of cells. The contract of a copy
    is the locale \<open>copier\<close>; pointers, slices and fields carry it from structs to resources.
  \<^item> \<open>Step_Systems\<close>, \<open>Server_Loops\<close>, \<open>Task_Groups\<close>: runs of programs among events of their
    environment (the locales \<open>finishing\<close> and \<open>finishing_reactive\<close>, interpreted on the loops of
    a server, the signal handling and the task groups of the commands).
  \<^item> \<open>Webhook_Commands\<close>, \<open>Command_Flags\<close>: the webhook, sidecar and version commands, the routes
    of each HTTP server, the tree of commands and the tables of their flags.
  \<^item> \<open>Envoy_Lib\<close>, \<open>Jwt_Lib\<close>, \<open>Admission\<close>: the CEL functions on Envoy messages (over a heap of
    messages, because they share them), tokens and key sets, and the webhooks.
  \<^item> \<open>Context_Libs\<close>: the resource and image providers a policy reads from, and their loaders.
  \<^item> \<open>Cel_Overloads\<close>, \<open>Mcp_Lib\<close>: the function tables of the CEL libraries of this repository with
    the resolution of calls, and the MCP library with the getters its table binds. \<open>Cel_Libs\<close>: each library as options of an environment, and which
    declared names have a value where a policy is evaluated.
  \<^item> \<open>Api_Scheme\<close>, \<open>Cli_Docs\<close>: the registration of the resource types, and the tool that writes
    the pages of the commands.
  \<^item> \<open>Deployments\<close>: a process as a whole. The provider a command gives to its server is read as
    a source over the state of the process, and cluster changes, file changes and requests
    interleave.

  \<^bold>\<open>What the lemmas show.\<close> For a policy: how match conditions, rules, errors and the failure
  policy decide (\<open>Compiled_Policy\<close>), what compilation checks and reports (\<open>Compiler\<close>). For a
  server: the answer is the first decisive policy's, breaking early does not matter, each
  request is counted once. For sources: concurrent loads through the cache answer as a load without
  one at the moment it read its source, composites keep order and errors, the Kubernetes source
  follows the cluster under every interleaving. For the
  control plane: what of a policy survives the wire, that a server catches up when it connects and
  follows the cluster while the messages of each policy keep their order, except that a policy that
  leaves the authorization modes stays as it was, and where the protocol loses updates, deletions or
  clients; a client that stays silent is removed within
  a stated bound and one that reports often enough is kept. For the resources: what their validation
  accepts, that an admitted server runs with its defaults and sources, and which servers never start
  again. For the commands: how every command comes to an end in every step order of its tasks and
  signals, which errors it reports and which are lost, and when it hangs. Some properties state defects of the code
  as it is; their texts say so. Across components, \<open>Deployments\<close> shows which policies are in
  force at every moment, that a denial reaches the
  client, how an Envoy server answers as a function of the cluster, and that one broken policy does not
  only disable itself.

  \<^bold>\<open>Bounds.\<close> The lazy variables of a policy are looked up to a depth of the number of variables;
  \<open>variables_depth_enough\<close> shows that it is enough when variables read only earlier ones, and
  \<open>compiled_variables_resolve\<close> that the compiler guarantees this for distinct names and expressions
  without a conversion to \<open>dyn\<close>, whatever a lookup beyond the depth would give (\<open>var_lookup_at\<close>).
  With such a conversion a variable can read itself, and no depth is enough
  (\<open>dynamic_variable_never_resolves\<close>). No other definition has fuel: loops are structural
  recursions, goroutines are step relations.

  \<^bold>\<open>Parameters.\<close> Code that is not under \<open>src/\<close> is an argument: the CEL library (\<open>cel_lib\<close>,
  \<open>cel_ops\<close>, programs), \<open>multierr\<close>, the Kubernetes API of policies and its clients, gRPC, the
  resource loader, YAML, the JSON and token libraries, the registry of controller names. Predicates
  named \<open>_ok\<close>, and \<open>checked_cel\<close> for the type checker of CEL, state what they document; witnesses
  instantiate them with concrete functions.

  \<^bold>\<open>Not modelled.\<close> Sockets and the use of TLS, which belong to libraries; the
  parsing of flags, which \<open>cobra\<close> does (their names, defaults and targets are tables); the Go
  context beyond cancellation; data races (an unsynchronised access is one step);
  the reflection of messages and the bytes of their raw descriptor, which the protocol buffer library
  reads; the resource definitions and clients that are generated from the API types, beyond the
  markers they are generated from; the CEL libraries of other repositories that the environments
  include (\<open>Cel_Libs\<close> lists them as options); interfaces and function types of the SDK without a body, which are
  types of the definitions that use them.
\<close>

end
